(* ===== verification/Prelude.thy ===== *)
theory Prelude
  imports Main "HOL-Library.Word" "HOL-Library.AList" "HOL-Library.Sublist"
    "HOL-Library.Char_ord" "HOL-Library.List_Lexorder" "HOL-Library.Product_Lexorder"
begin

text \<open>What every other theory shares: the names of the machine types, the Rust string
  operations the sources use (a string is the list of its UTF-8 bytes, one @<char> per byte),
  decimal printing and parsing, the error results of the handlers, the association lists that
  stand for the hash maps and the keyed vectors, and the interface of such keyed collections.\<close>

section \<open>Types and lemma collections\<close>

type_synonym u64 = "64 word"
type_synonym u16 = "16 word"
type_synonym bytes = string

named_theorems str_simps
  \<open>simplification rules for the string operations\<close>
named_theorems keyed_simps
  \<open>simplification rules for keyed collections\<close>

abbreviation byte_of :: "char \<Rightarrow> nat" where
  "byte_of c \<equiv> of_char c"

abbreviation nl :: char where
  "nl \<equiv> CHR 0x0A"

abbreviation em_dash :: string where
  "em_dash \<equiv> [CHR 0xE2, CHR 0x80, CHR 0x94]"

abbreviation u64_limit :: nat where
  "u64_limit \<equiv> 2 ^ 64"

section \<open>Splitting and joining\<close>

fun split_on :: "char \<Rightarrow> string \<Rightarrow> string list" where
  "split_on c [] = [[]]"
| "split_on c (x # xs) = (if x = c then [] # split_on c xs
     else (case split_on c xs of [] \<Rightarrow> [[x]] | w # ws \<Rightarrow> (x # w) # ws))"

definition split_once :: "char \<Rightarrow> string \<Rightarrow> (string \<times> string) option" where
  "split_once c s = (case dropWhile (\<lambda>x. x \<noteq> c) s of
     [] \<Rightarrow> None | _ # r \<Rightarrow> Some (takeWhile (\<lambda>x. x \<noteq> c) s, r))"

definition rsplit_once :: "char \<Rightarrow> string \<Rightarrow> (string \<times> string) option" where
  "rsplit_once c s = map_option (\<lambda>(a, b). (rev b, rev a)) (split_once c (rev s))"

fun join_with :: "string \<Rightarrow> string list \<Rightarrow> string" where
  "join_with sep [] = []"
| "join_with sep [x] = x"
| "join_with sep (x # y # ys) = x @ sep @ join_with sep (y # ys)"

definition strip_prefix :: "string \<Rightarrow> string \<Rightarrow> string option" where
  "strip_prefix p s = (if prefix p s then Some (drop (length p) s) else None)"

definition strip_suffix :: "string \<Rightarrow> string \<Rightarrow> string option" where
  "strip_suffix p s = (if suffix p s then Some (take (length s - length p) s) else None)"

fun contains :: "string \<Rightarrow> string \<Rightarrow> bool" where
  "contains needle [] = (needle = [])"
| "contains needle (x # xs) = (prefix needle (x # xs) \<or> contains needle xs)"

definition trim_start_matches :: "char \<Rightarrow> string \<Rightarrow> string" where
  "trim_start_matches c s = dropWhile (\<lambda>x. x = c) s"

definition trim_end_matches :: "char \<Rightarrow> string \<Rightarrow> string" where
  "trim_end_matches c s = rev (dropWhile (\<lambda>x. x = c) (rev s))"

lemma split_on_not_Nil [simp]: "split_on c s \<noteq> []"
  by (cases s) (auto split: list.splits)

lemma split_on_no_sep: "w \<in> set (split_on c s) \<Longrightarrow> c \<notin> set w"
proof (induction s arbitrary: w)
  case (Cons x xs)
  then show ?case by (cases "split_on c xs") (auto split: if_splits)
qed simp

lemma split_on_id [str_simps]: "c \<notin> set s \<Longrightarrow> split_on c s = [s]"
  by (induction s) auto

lemma split_on_append [str_simps]:
  "c \<notin> set a \<Longrightarrow> split_on c (a @ c # b) = a # split_on c b"
  by (induction a) auto

lemma join_split_on [simp]: "join_with [c] (split_on c s) = s"
proof (induction s)
  case (Cons x xs)
  then show ?case
    by (cases "split_on c xs"; cases "tl (split_on c xs)") auto
qed simp

lemma split_on_inj: "split_on c a = split_on c b \<Longrightarrow> a = b"
  by (metis join_split_on)

lemma split_join_on:
  "xs \<noteq> [] \<Longrightarrow> \<forall>w \<in> set xs. c \<notin> set w \<Longrightarrow> split_on c (join_with [c] xs) = xs"
  by (induction "[c]" xs rule: join_with.induct) (auto simp: str_simps)

lemma takeWhile_dropWhile_first:
  "c \<notin> set a \<Longrightarrow> takeWhile (\<lambda>x. x \<noteq> c) (a @ c # b) = a"
  "c \<notin> set a \<Longrightarrow> dropWhile (\<lambda>x. x \<noteq> c) (a @ c # b) = c # b"
  by (induction a) auto

lemma split_once_Some:
  "split_once c s = Some (a, b) \<longleftrightarrow> s = a @ c # b \<and> c \<notin> set a"
proof
  assume "split_once c s = Some (a, b)"
  then obtain y where d: "dropWhile (\<lambda>x. x \<noteq> c) s = y # b" and a: "a = takeWhile (\<lambda>x. x \<noteq> c) s"
    by (auto simp: split_once_def split: list.splits)
  have "y = c" using d by (metis (mono_tags) dropWhile_eq_Cons_conv)
  moreover have "s = a @ y # b" using d a by (metis takeWhile_dropWhile_id)
  ultimately show "s = a @ c # b \<and> c \<notin> set a" using a by (auto dest: set_takeWhileD)
next
  assume "s = a @ c # b \<and> c \<notin> set a"
  then show "split_once c s = Some (a, b)"
    by (simp add: split_once_def takeWhile_dropWhile_first)
qed

lemma split_once_None: "split_once c s = None \<longleftrightarrow> c \<notin> set s"
  by (metis append_Cons append_Nil in_set_conv_decomp_first not_None_eq old.prod.exhaust
      split_once_Some)

lemma contains_append: "contains n s \<longleftrightarrow> (\<exists>a b. s = a @ n @ b)"
proof (induction s)
  case (Cons x xs)
  note IH = Cons
  show ?case
  proof
    assume "contains n (x # xs)"
    then show "\<exists>a b. x # xs = a @ n @ b"
      using Cons by (auto simp: prefix_def intro: exI [of _ "[]"]) (metis append_Cons)
  next
    assume "\<exists>a b. x # xs = a @ n @ b"
    then obtain a b where ab: "x # xs = a @ n @ b" by blast
    then show "contains n (x # xs)"
    proof (cases a)
      case Nil
      then have "prefix n (x # xs)" using ab by (simp add: prefix_def)
      then show ?thesis by simp
    next
      case (Cons y ys)
      then have "contains n xs" using ab IH by auto
      then show ?thesis by simp
    qed
  qed
qed auto

lemma field_eq:
  fixes c :: char
  shows "c \<notin> set a \<Longrightarrow> c \<notin> set a' \<Longrightarrow> a @ c # r = a' @ c # r' \<Longrightarrow> a = a' \<and> r = r'"
  using split_once_Some [of c "a @ c # r" a r] split_once_Some [of c "a' @ c # r'" a' r'] by simp

lemma last_field_eq:
  fixes c :: char
  assumes "c \<notin> set a" "c \<notin> set a'" "r @ c # a = r' @ c # a'"
  shows "r = r' \<and> a = a'"
proof -
  have "rev a @ c # rev r = rev a' @ c # rev r'"
    using arg_cong [OF assms(3), of rev] by simp
  then show ?thesis
    using field_eq [of c "rev a" "rev a'" "rev r" "rev r'"] assms(1,2) by simp
qed

section \<open>Whitespace and letter case\<close>

text \<open>The UTF-8 encodings of the Unicode white-space characters: what @<str::trim> removes.\<close>

definition ws_chars :: "string list" where
  "ws_chars = [[CHR 0x09], [CHR 0x0A], [CHR 0x0B], [CHR 0x0C], [CHR 0x0D], [CHR 0x20],
     [CHR 0xC2, CHR 0x85], [CHR 0xC2, CHR 0xA0], [CHR 0xE1, CHR 0x9A, CHR 0x80]]
   @ map (\<lambda>n. [CHR 0xE2, CHR 0x80, char_of (0x80 + n)]) [0..<11]
   @ [[CHR 0xE2, CHR 0x80, CHR 0xA8], [CHR 0xE2, CHR 0x80, CHR 0xA9],
      [CHR 0xE2, CHR 0x80, CHR 0xAF], [CHR 0xE2, CHR 0x81, CHR 0x9F],
      [CHR 0xE3, CHR 0x80, CHR 0x80]]"

fun drop_ws :: "string list \<Rightarrow> nat \<Rightarrow> string \<Rightarrow> string" where
  "drop_ws ws 0 s = s"
| "drop_ws ws (Suc n) s = (case List.find (\<lambda>w. prefix w s) ws of
     None \<Rightarrow> s | Some w \<Rightarrow> drop_ws ws n (drop (length w) s))"

definition trim_start :: "string \<Rightarrow> string" where
  "trim_start s = drop_ws ws_chars (length s) s"

definition trim_end :: "string \<Rightarrow> string" where
  "trim_end s = rev (drop_ws (map rev ws_chars) (length s) (rev s))"

definition trim :: "string \<Rightarrow> string" where
  "trim s = trim_end (trim_start s)"

definition lower_char :: "char \<Rightarrow> char" where
  "lower_char c = (if 65 \<le> byte_of c \<and> byte_of c \<le> 90 then char_of (byte_of c + 32) else c)"

definition ascii_lowercase :: "string \<Rightarrow> string" where
  "ascii_lowercase s = map lower_char s"

definition eq_ignore_ascii_case :: "string \<Rightarrow> string \<Rightarrow> bool" where
  "eq_ignore_ascii_case a b \<longleftrightarrow> ascii_lowercase a = ascii_lowercase b"

definition is_digit :: "char \<Rightarrow> bool" where
  "is_digit c \<longleftrightarrow> 48 \<le> byte_of c \<and> byte_of c \<le> 57"

definition is_hexdigit :: "char \<Rightarrow> bool" where
  "is_hexdigit c \<longleftrightarrow> is_digit c \<or> (65 \<le> byte_of c \<and> byte_of c \<le> 70)
     \<or> (97 \<le> byte_of c \<and> byte_of c \<le> 102)"

definition is_control :: "char \<Rightarrow> bool" where
  "is_control c \<longleftrightarrow> byte_of c < 32 \<or> byte_of c = 127"

text \<open>Characters of a UTF-8 string: the bytes that do not continue one.\<close>

definition is_cont :: "char \<Rightarrow> bool" where
  "is_cont c \<longleftrightarrow> 128 \<le> byte_of c \<and> byte_of c < 192"

definition chars_count :: "string \<Rightarrow> nat" where
  "chars_count s = length (filter (\<lambda>c. \<not> is_cont c) s)"

text \<open>A string that @<trim> leaves alone has no white-space character at either end.\<close>

lemma drop_ws_suffix: "suffix (drop_ws ws n s) s"
proof (induction n arbitrary: s)
  case (Suc n)
  show ?case
  proof (cases "List.find (\<lambda>w. prefix w s) ws")
    case (Some w)
    then show ?thesis using Suc [of "drop (length w) s"] suffix_drop suffix_order.trans by fastforce
  qed simp
qed simp

lemma drop_ws_id:
  assumes "[] \<notin> set ws"
  shows "drop_ws ws (length s) s = s \<longleftrightarrow> (\<forall>w \<in> set ws. \<not> prefix w s)"
proof (cases s)
  case Nil
  then show ?thesis using assms by auto
next
  case (Cons c r)
  show ?thesis
  proof (cases "List.find (\<lambda>w. prefix w s) ws")
    case None
    then have "\<forall>w \<in> set ws. \<not> prefix w s" by (simp add: find_None_iff)
    then show ?thesis using None Cons by simp
  next
    case (Some w)
    then have w: "w \<in> set ws" "prefix w s" by (auto simp: find_Some_iff)
    then have "w \<noteq> []" using assms by auto
    have "suffix (drop_ws ws (length r) (drop (length w) s)) (drop (length w) s)"
      by (rule drop_ws_suffix)
    then have "length (drop_ws ws (length r) (drop (length w) s)) \<le> length (drop (length w) s)"
      by (rule suffix_length_le)
    also have "\<dots> < length s" using Cons \<open>w \<noteq> []\<close> by simp
    finally show ?thesis using Some w Cons by auto
  qed
qed

lemma ws_chars_nonempty: "[] \<notin> set ws_chars" "[] \<notin> set (map rev ws_chars)"
  by (auto simp: ws_chars_def)

lemma trim_start_id: "trim_start s = s \<longleftrightarrow> (\<forall>w \<in> set ws_chars. \<not> prefix w s)"
  unfolding trim_start_def by (rule drop_ws_id) (rule ws_chars_nonempty)

lemma trim_end_id: "trim_end s = s \<longleftrightarrow> (\<forall>w \<in> set ws_chars. \<not> suffix w s)"
proof -
  have "trim_end s = s \<longleftrightarrow> drop_ws (map rev ws_chars) (length (rev s)) (rev s) = rev s"
    unfolding trim_end_def by (metis length_rev rev_rev_ident)
  then show ?thesis
    using drop_ws_id [OF ws_chars_nonempty(2), of "rev s"] by (simp add: suffix_to_prefix)
qed

lemma trim_id: "trim s = s \<longleftrightarrow> (\<forall>w \<in> set ws_chars. \<not> prefix w s \<and> \<not> suffix w s)"
proof -
  have 1: "suffix (trim_start s) s" unfolding trim_start_def by (rule drop_ws_suffix)
  have 2: "prefix (trim_end t) t" for t
    unfolding trim_end_def
    using drop_ws_suffix [of "map rev ws_chars" "length t" "rev t"] by (simp add: suffix_to_prefix)
  have "trim s = s \<Longrightarrow> trim_start s = s"
    unfolding trim_def
    by (metis 1 2 dual_order.antisym prefix_length_le suffix_length_le suffix_order.eq_iff
        suffix_def append_eq_append_conv append_self_conv2)
  then have "trim s = s \<longleftrightarrow> trim_start s = s \<and> trim_end s = s"
    by (auto simp: trim_def)
  then show ?thesis unfolding trim_start_id trim_end_id by blast
qed

lemma ws_chars_tail: "w \<in> set ws_chars \<Longrightarrow> c \<in> set (tl w) \<Longrightarrow> is_cont c"
  by (auto simp: ws_chars_def is_cont_def)

lemma ws_chars_ascii: "w \<in> set ws_chars \<Longrightarrow> c \<in> set w \<Longrightarrow> is_cont c \<or> c = hd w"
  by (auto simp: ws_chars_def is_cont_def)

lemma lower_char_idem [simp]: "lower_char (lower_char c) = lower_char c"
  by (auto simp: lower_char_def)

lemma ascii_lowercase_idem [simp]: "ascii_lowercase (ascii_lowercase s) = ascii_lowercase s"
  by (simp add: ascii_lowercase_def)

section \<open>Decimal numbers\<close>

definition digit :: "nat \<Rightarrow> char" where
  "digit n = char_of (48 + n)"

definition digit_val :: "char \<Rightarrow> nat" where
  "digit_val c = byte_of c - 48"

fun show_nat :: "nat \<Rightarrow> string" where
  "show_nat n = (if n < 10 then [digit n] else show_nat (n div 10) @ [digit (n mod 10)])"

declare show_nat.simps [simp del]

definition dec_value :: "string \<Rightarrow> nat" where
  "dec_value s = foldl (\<lambda>acc c. acc * 10 + digit_val c) 0 s"

text \<open>@<str::parse> of an unsigned type: an optional plus sign, at least one digit, digits only,
  and a value below the type's limit.\<close>

definition drop_plus :: "string \<Rightarrow> string" where
  "drop_plus s = (case s of [] \<Rightarrow> [] | c # r \<Rightarrow> if c = CHR ''+'' then r else s)"

definition parse_uint :: "nat \<Rightarrow> string \<Rightarrow> nat option" where
  "parse_uint limit s = (let body = drop_plus s in
     if body = [] \<or> \<not> list_all is_digit body \<or> limit \<le> dec_value body then None
     else Some (dec_value body))"

definition parse_u64 :: "string \<Rightarrow> u64 option" where
  "parse_u64 s = map_option of_nat (parse_uint u64_limit s)"

definition show_u64 :: "u64 \<Rightarrow> string" where
  "show_u64 w = show_nat (unat w)"

lemma digit_props [simp]:
  "n < 10 \<Longrightarrow> is_digit (digit n)" "n < 10 \<Longrightarrow> digit_val (digit n) = n"
  by (simp_all add: is_digit_def digit_def digit_val_def)

lemma show_nat_digits: "c \<in> set (show_nat n) \<Longrightarrow> is_digit c"
proof (induction n rule: show_nat.induct)
  case (1 n)
  show ?case
  proof (cases "n < 10")
    case True
    then show ?thesis using 1(2) by (simp add: show_nat.simps [of n])
  next
    case False
    then have "c \<in> set (show_nat (n div 10)) \<or> c = digit (n mod 10)"
      using 1(2) by (auto simp: show_nat.simps [of n])
    then show ?thesis using 1(1) [OF False] by auto
  qed
qed

lemma show_nat_not_Nil [simp]: "show_nat n \<noteq> []"
  by (subst show_nat.simps) simp

lemma dec_value_snoc [simp]: "dec_value (s @ [c]) = dec_value s * 10 + digit_val c"
  by (simp add: dec_value_def)

lemma dec_value_show [simp]: "dec_value (show_nat n) = n"
proof (induction n rule: show_nat.induct)
  case (1 n)
  show ?case
  proof (cases "n < 10")
    case True
    then show ?thesis by (simp add: show_nat.simps [of n]) (simp add: dec_value_def)
  next
    case False
    then show ?thesis using 1 by (simp add: show_nat.simps [of n])
  qed
qed

lemma show_nat_inj: "show_nat a = show_nat b \<Longrightarrow> a = b"
  by (metis dec_value_show)

lemma nl_not_digit: "is_digit c \<Longrightarrow> c \<noteq> nl"
  by (auto simp: is_digit_def)

lemma nl_notin_show [simp]: "nl \<notin> set (show_nat n)"
  using show_nat_digits nl_not_digit by blast

lemma plus_notin_show: "CHR ''+'' \<notin> set (show_nat n)"
  using show_nat_digits [of "CHR ''+''" n] by (auto simp: is_digit_def)

lemma drop_plus_show [simp]: "drop_plus (show_nat n) = show_nat n"
  using plus_notin_show [of n] by (cases "show_nat n") (auto simp: drop_plus_def)

lemma parse_show_nat: "n < limit \<Longrightarrow> parse_uint limit (show_nat n) = Some n"
  using show_nat_digits [of _ n] by (simp add: parse_uint_def list_all_iff)

lemma parse_show_u64 [simp]: "parse_u64 (show_u64 w) = Some w"
proof -
  have "unat w < u64_limit" using unsigned_less [of w, where ?'a = nat] by simp
  then show ?thesis by (simp add: parse_u64_def show_u64_def parse_show_nat)
qed

lemma show_u64_inj: "show_u64 a = show_u64 b \<Longrightarrow> a = b"
  by (metis option.inject parse_show_u64)

lemma nl_notin_show_u64 [simp]: "nl \<notin> set (show_u64 w)"
  by (simp add: show_u64_def)

section \<open>Keyed collections\<close>

text \<open>The sources keep keyed data in two shapes: vectors replaced by key (retain, then push)
  and hash maps. Both are lists here, in insertion order for the vectors and in an arbitrary
  order for the maps. The interface below is what the handlers rely on: a find after an upsert
  yields the new entry, other keys are untouched, keys stay distinct, and retaining keeps
  exactly the entries of the predicate.\<close>

definition find_key :: "('v \<Rightarrow> 'k) \<Rightarrow> 'k \<Rightarrow> 'v list \<Rightarrow> 'v option" where
  "find_key key k xs = List.find (\<lambda>v. key v = k) xs"

definition upsert_by :: "('v \<Rightarrow> 'k) \<Rightarrow> 'v \<Rightarrow> 'v list \<Rightarrow> 'v list" where
  "upsert_by key v xs = filter (\<lambda>x. key x \<noteq> key v) xs @ [v]"

lemma find_key_Some: "find_key key k xs = Some v \<Longrightarrow> v \<in> set xs \<and> key v = k"
  by (auto simp: find_key_def find_Some_iff)

lemma find_key_None: "find_key key k xs = None \<longleftrightarrow> k \<notin> key ` set xs"
  by (auto simp: find_key_def find_None_iff)

lemma find_append: "List.find P (xs @ ys) =
    (case List.find P xs of None \<Rightarrow> List.find P ys | Some v \<Rightarrow> Some v)"
  by (induction xs) auto

lemma find_filter_key:
  "List.find (\<lambda>v. key v = k) (filter (\<lambda>x. key x \<noteq> k') xs) =
    (if k = k' then None else List.find (\<lambda>v. key v = k) xs)"
  by (induction xs) auto

lemma find_key_upsert [keyed_simps]:
  "find_key key k (upsert_by key v xs) = (if k = key v then Some v else find_key key k xs)"
  by (simp add: find_key_def upsert_by_def find_append find_filter_key split: option.split)

lemma distinct_upsert_by [keyed_simps]:
  "distinct (map key xs) \<Longrightarrow> distinct (map key (upsert_by key v xs))"
  by (auto simp: upsert_by_def distinct_map_filter)

lemma set_upsert_by [keyed_simps]:
  "set (upsert_by key v xs) = insert v {x \<in> set xs. key x \<noteq> key v}"
  by (auto simp: upsert_by_def)

lemma find_key_in: "distinct (map key xs) \<Longrightarrow> v \<in> set xs \<Longrightarrow> find_key key (key v) xs = Some v"
  unfolding find_key_def
  by (induction xs) (auto simp: rev_image_eqI)

locale keyed_store =
  fixes key :: "'v \<Rightarrow> 'k"
    and lookup :: "'s \<Rightarrow> 'k \<Rightarrow> 'v option"
    and put :: "'v \<Rightarrow> 's \<Rightarrow> 's"
    and retain :: "('v \<Rightarrow> bool) \<Rightarrow> 's \<Rightarrow> 's"
    and inv :: "'s \<Rightarrow> bool"
  assumes lookup_put: "inv s \<Longrightarrow> lookup (put v s) k = (if k = key v then Some v else lookup s k)"
    and inv_put: "inv s \<Longrightarrow> inv (put v s)"
    and lookup_retain: "inv s \<Longrightarrow> lookup (retain P s) k =
          (case lookup s k of None \<Rightarrow> None | Some v \<Rightarrow> if P v then Some v else None)"
    and inv_retain: "inv s \<Longrightarrow> inv (retain P s)"
    and lookup_key: "inv s \<Longrightarrow> lookup s k = Some v \<Longrightarrow> key v = k"
begin

lemma put_then_lookup: "inv s \<Longrightarrow> lookup (put v s) (key v) = Some v"
  by (simp add: lookup_put)

lemma put_put_same: "inv s \<Longrightarrow> key v = key w \<Longrightarrow> lookup (put v (put w s)) k = lookup (put v s) k"
  by (simp add: lookup_put inv_put)

lemma put_commute:
  "inv s \<Longrightarrow> key v \<noteq> key w \<Longrightarrow> lookup (put v (put w s)) k = lookup (put w (put v s)) k"
  by (simp add: lookup_put inv_put)

lemma retain_idem: "inv s \<Longrightarrow> lookup (retain P (retain P s)) k = lookup (retain P s) k"
  by (simp add: lookup_retain inv_retain split: option.split)

lemma removed_is_gone: "inv s \<Longrightarrow> lookup (retain (\<lambda>v. key v \<noteq> k) s) k = None"
  using lookup_key by (fastforce simp: lookup_retain split: option.split)

lemma remove_other:
  "inv s \<Longrightarrow> k \<noteq> j \<Longrightarrow> lookup (retain (\<lambda>v. key v \<noteq> k) s) j = lookup s j"
  using lookup_key by (fastforce simp: lookup_retain split: option.split)

lemma retained_only: "inv s \<Longrightarrow> lookup (retain P s) k = Some v \<Longrightarrow> P v \<and> lookup s k = Some v"
  by (auto simp: lookup_retain split: option.splits if_splits)

end

text \<open>Vectors replaced by key and association lists both satisfy the interface.\<close>

lemma find_key_retain:
  assumes "distinct (map key xs)"
  shows "find_key key k (filter P xs) =
    (case find_key key k xs of None \<Rightarrow> None | Some v \<Rightarrow> if P v then Some v else None)"
  using assms
proof (induction xs)
  case (Cons x xs)
  show ?case
  proof (cases "key x = k")
    case True
    then have "find_key key k xs = None" using Cons.prems by (auto simp: find_key_None)
    then show ?thesis using Cons True by (auto simp: find_key_def)
  next
    case False
    then show ?thesis using Cons by (auto simp: find_key_def)
  qed
qed (simp add: find_key_def)

lemma distinct_retain [keyed_simps]: "distinct (map key xs) \<Longrightarrow> distinct (map key (filter P xs))"
  by (simp add: distinct_map_filter)

lemmas vector_by_key = find_key_upsert distinct_upsert_by find_key_retain distinct_retain

lemma vector_keyed_store:
  "keyed_store key (\<lambda>s k. find_key key k s) (upsert_by key) filter (\<lambda>s. distinct (map key s))"
  by unfold_locales (auto simp: find_key_upsert distinct_upsert_by find_key_retain distinct_retain
      dest: find_key_Some)

lemma map_of_update_pair [keyed_simps]:
  "map_of (AList.update (fst v) (snd v) s) k = (if k = fst v then Some (snd v) else map_of s k)"
  by (simp add: update_conv)

lemma map_of_filter_pred:
  "distinct (map fst al) \<Longrightarrow> map_of (filter keep al) j =
    (case map_of al j of None \<Rightarrow> None | Some w \<Rightarrow> if keep (j, w) then Some w else None)"
proof (induction al)
  case (Cons e al)
  then show ?case
    by (cases e) (auto split: option.splits simp: map_of_eq_None_iff rev_image_eqI)
qed simp

text \<open>An assignment through the first entry that an @<iter_mut().find> yields.\<close>

fun update_first :: "('v \<Rightarrow> bool) \<Rightarrow> ('v \<Rightarrow> 'v) \<Rightarrow> 'v list \<Rightarrow> 'v list" where
  "update_first P f [] = []"
| "update_first P f (x # xs) = (if P x then f x # xs else x # update_first P f xs)"

lemma update_first_key: "(\<And>v. key (f v) = key v) \<Longrightarrow> map key (update_first P f xs) = map key xs"
  by (induction xs) auto

lemma update_first_other: "v \<in> set xs \<Longrightarrow> \<not> P v \<Longrightarrow> v \<in> set (update_first P f xs)"
  by (induction xs) auto

lemma update_first_set: "v \<in> set (update_first P f xs) \<Longrightarrow> v \<in> set xs \<or> (\<exists>w \<in> set xs. P w \<and> v = f w)"
  by (induction xs) (auto split: if_splits)

interpretation hm: keyed_store fst "\<lambda>s k. map_option (Pair k) (map_of s k)"
    "\<lambda>(k, v). AList.update k v" filter "\<lambda>s. distinct (map fst s)"
  by unfold_locales
    (auto simp: update_conv distinct_update map_of_filter_pred distinct_map_filter split: option.split)

section \<open>Machine arithmetic\<close>

definition sat_sub :: "u64 \<Rightarrow> u64 \<Rightarrow> u64" where
  "sat_sub a b = (if b \<le> a then a - b else 0)"

definition abs_diff :: "u64 \<Rightarrow> u64 \<Rightarrow> u64" where
  "abs_diff a b = (if a < b then b - a else a - b)"

lemma unat_sat_sub: "unat (sat_sub a b) = unat a - unat b"
  by (auto simp: sat_sub_def unat_sub word_le_nat_alt)

lemma sat_sub_le: "sat_sub a b \<le> c \<longleftrightarrow> unat a \<le> unat b + unat c"
  by (simp add: word_le_nat_alt unat_sat_sub) arith

lemma abs_diff_le: "abs_diff a b \<le> c \<longleftrightarrow> unat a \<le> unat b + unat c \<and> unat b \<le> unat a + unat c"
  by (auto simp: abs_diff_def word_le_nat_alt word_less_nat_alt unat_sub)

section \<open>Results\<close>

text \<open>A handler's answer is an @<Ok> value or an HTTP error: the status, the message shown,
  and the stable code of the body when it carries one.\<close>

record http_error =
  he_status :: nat
  he_msg :: string
  he_code :: "string option"

abbreviation plain_err :: "nat \<Rightarrow> string \<Rightarrow> http_error" where
  "plain_err st m \<equiv> \<lparr>he_status = st, he_msg = m, he_code = None\<rparr>"

definition coded_err :: "nat \<Rightarrow> string \<Rightarrow> string \<Rightarrow> http_error" where
  "coded_err st m c = \<lparr>he_status = st, he_msg = m, he_code = Some c\<rparr>"

definition is_none_or :: "('a \<Rightarrow> bool) \<Rightarrow> 'a option \<Rightarrow> bool" where
  "is_none_or P x = (case x of None \<Rightarrow> True | Some v \<Rightarrow> P v)"

lemma is_none_or_simps [simp]: "is_none_or P None" "is_none_or P (Some v) = P v"
  by (simp_all add: is_none_or_def)

end
