(* ===== verification/Utf8.thy ===== *)
theory Utf8
  imports Prelude
begin

text \<open>UTF-8 as the Rust standard library reads it: the scanner behind @<str::from_utf8> and
  @<String::from_utf8_lossy>. The signed strings of the protocol fold a request body in through
  the lossy conversion, so what it keeps and what it loses decides what a signature covers.\<close>

section \<open>The scanner\<close>

definition utf8_width :: "nat \<Rightarrow> nat" where
  "utf8_width b = (if b < 0x80 then 1 else if 0xC2 \<le> b \<and> b \<le> 0xDF then 2
     else if 0xE0 \<le> b \<and> b \<le> 0xEF then 3 else if 0xF0 \<le> b \<and> b \<le> 0xF4 then 4 else 0)"

definition second_ok :: "nat \<Rightarrow> nat \<Rightarrow> bool" where
  "second_ok b c = (if b = 0xE0 then 0xA0 \<le> c \<and> c \<le> 0xBF
     else if b = 0xED then 0x80 \<le> c \<and> c \<le> 0x9F
     else if b = 0xF0 then 0x90 \<le> c \<and> c \<le> 0xBF
     else if b = 0xF4 then 0x80 \<le> c \<and> c \<le> 0x8F
     else 0x80 \<le> c \<and> c \<le> 0xBF)"

text \<open>Whether the bytes open with a well-formed character, and how many bytes that character,
  or else the longest ill-formed start of one, takes.\<close>

fun utf8_chunk :: "bytes \<Rightarrow> bool \<times> nat" where
  "utf8_chunk [] = (True, 0)"
| "utf8_chunk (b # bs) = (let w = utf8_width (byte_of b) in
     if w = 1 then (True, 1) else if w = 0 then (False, 1)
     else case bs of [] \<Rightarrow> (False, 1)
       | c # cs \<Rightarrow> if \<not> second_ok (byte_of b) (byte_of c) then (False, 1)
           else if w = 2 then (True, 2)
           else case cs of [] \<Rightarrow> (False, 2)
             | d # ds \<Rightarrow> if \<not> is_cont d then (False, 2)
                 else if w = 3 then (True, 3)
                 else case ds of [] \<Rightarrow> (False, 3)
                   | e # es \<Rightarrow> if \<not> is_cont e then (False, 3) else (True, 4))"

lemma utf8_chunk_pos: "s \<noteq> [] \<Longrightarrow> 0 < snd (utf8_chunk s)"
  by (cases s) (auto simp: Let_def split: list.splits)

lemma utf8_chunk_le: "snd (utf8_chunk s) \<le> length s"
  by (cases s) (auto simp: Let_def split: list.splits)

lemma utf8_chunk_less: "s \<noteq> [] \<Longrightarrow> length s - snd (utf8_chunk s) < length s"
  using utf8_chunk_pos [of s] by (simp add: diff_less)

lemma utf8_chunk_take:
  "utf8_chunk s = (True, n) \<Longrightarrow> s \<noteq> [] \<Longrightarrow> utf8_chunk (take n s @ t) = (True, n)"
  by (cases s) (auto simp: Let_def split: list.splits if_splits dest!: sym [where s = "Suc 0"])

definition replacement :: bytes where
  "replacement = [CHR 0xEF, CHR 0xBF, CHR 0xBD]"

function from_utf8_lossy :: "bytes \<Rightarrow> string" where
  "from_utf8_lossy s = (if s = [] then []
     else (if fst (utf8_chunk s) then take (snd (utf8_chunk s)) s else replacement)
       @ from_utf8_lossy (drop (snd (utf8_chunk s)) s))"
  by auto
termination
  by (relation "measure length") (auto simp: utf8_chunk_less)

function valid_utf8 :: "bytes \<Rightarrow> bool" where
  "valid_utf8 s = (if s = [] then True
     else fst (utf8_chunk s) \<and> valid_utf8 (drop (snd (utf8_chunk s)) s))"
  by auto
termination
  by (relation "measure length") (auto simp: utf8_chunk_less)

declare from_utf8_lossy.simps [simp del] valid_utf8.simps [simp del]

section \<open>What the lossy conversion keeps\<close>

lemma lossy_Nil [simp]: "from_utf8_lossy [] = []"
  by (subst from_utf8_lossy.simps) simp

lemma valid_Nil [simp]: "valid_utf8 []"
  by (subst valid_utf8.simps) simp

lemma lossy_step: "s \<noteq> [] \<Longrightarrow> from_utf8_lossy s =
    (if fst (utf8_chunk s) then take (snd (utf8_chunk s)) s else replacement)
      @ from_utf8_lossy (drop (snd (utf8_chunk s)) s)"
  by (subst from_utf8_lossy.simps) simp

lemma valid_step: "s \<noteq> [] \<Longrightarrow>
    valid_utf8 s = (fst (utf8_chunk s) \<and> valid_utf8 (drop (snd (utf8_chunk s)) s))"
  by (subst valid_utf8.simps) simp

lemma valid_chunk_append:
  assumes "utf8_chunk s = (True, n)" "s \<noteq> []"
  shows "valid_utf8 (take n s @ t) = valid_utf8 t"
    and "from_utf8_lossy (take n s @ t) = take n s @ from_utf8_lossy t"
proof -
  have n: "0 < n" "n \<le> length s"
    using utf8_chunk_pos [of s] utf8_chunk_le [of s] assms by auto
  have ne: "take n s @ t \<noteq> []" using n assms(2) by auto
  have c: "utf8_chunk (take n s @ t) = (True, n)" by (rule utf8_chunk_take [OF assms])
  show "valid_utf8 (take n s @ t) = valid_utf8 t"
    using n c valid_step [OF ne] by simp
  show "from_utf8_lossy (take n s @ t) = take n s @ from_utf8_lossy t"
    using n c lossy_step [OF ne] by simp
qed

lemma valid_append: "valid_utf8 a \<Longrightarrow> valid_utf8 (a @ b) = valid_utf8 b"
proof (induction a rule: valid_utf8.induct)
  case (1 a)
  show ?case
  proof (cases "a = []")
    case False
    then obtain n where c: "utf8_chunk a = (True, n)" "valid_utf8 (drop n a)"
      using 1(2) valid_step [OF False] by (cases "utf8_chunk a") auto
    have "valid_utf8 (take n a @ drop n a @ b) = valid_utf8 (drop n a @ b)"
      by (rule valid_chunk_append(1) [OF c(1) False])
    moreover have "take n a @ drop n a @ b = a @ b" by (metis append.assoc append_take_drop_id)
    ultimately show ?thesis using 1(1) False c by simp
  qed simp
qed

lemma lossy_append_valid:
  "valid_utf8 a \<Longrightarrow> from_utf8_lossy (a @ b) = a @ from_utf8_lossy b"
proof (induction a rule: valid_utf8.induct)
  case (1 a)
  show ?case
  proof (cases "a = []")
    case False
    then obtain n where c: "utf8_chunk a = (True, n)" "valid_utf8 (drop n a)"
      using 1(2) valid_step [OF False] by (cases "utf8_chunk a") auto
    have "from_utf8_lossy (take n a @ drop n a @ b) = take n a @ from_utf8_lossy (drop n a @ b)"
      by (rule valid_chunk_append(2) [OF c(1) False])
    moreover have "take n a @ drop n a @ b = a @ b" by (metis append.assoc append_take_drop_id)
    ultimately show ?thesis
      using 1(1) False c by (metis append.assoc append_take_drop_id fst_conv snd_conv)
  qed simp
qed

lemma lossy_valid: "valid_utf8 s \<Longrightarrow> from_utf8_lossy s = s"
  using lossy_append_valid [of s "[]"] by simp

lemma valid_replacement: "valid_utf8 replacement"
proof -
  have "utf8_chunk replacement = (True, 3)"
    by (simp add: replacement_def Let_def utf8_width_def second_ok_def is_cont_def)
  then show ?thesis using valid_step [of replacement] by (simp add: replacement_def)
qed

lemma lossy_is_valid: "valid_utf8 (from_utf8_lossy s)"
proof (induction s rule: from_utf8_lossy.induct)
  case (1 s)
  show ?case
  proof (cases "s = []")
    case False
    let ?c = "utf8_chunk s"
    have IH: "valid_utf8 (from_utf8_lossy (drop (snd ?c) s))" using 1 False by simp
    show ?thesis
    proof (cases "fst ?c")
      case True
      then have "utf8_chunk s = (True, snd ?c)" by (cases ?c) auto
      from valid_chunk_append(1) [OF this False] IH True lossy_step [OF False]
      show ?thesis by simp
    next
      case f: False
      then show ?thesis
        using IH valid_append [OF valid_replacement] lossy_step [OF False] by simp
    qed
  qed simp
qed

lemma lossy_idem: "from_utf8_lossy (from_utf8_lossy s) = from_utf8_lossy s"
  by (rule lossy_valid) (rule lossy_is_valid)

lemma valid_iff_lossy_id: "valid_utf8 s \<longleftrightarrow> from_utf8_lossy s = s"
  by (metis lossy_valid lossy_is_valid)

lemma valid_ascii: "(\<And>c. c \<in> set s \<Longrightarrow> byte_of c < 128) \<Longrightarrow> valid_utf8 s"
proof (induction s)
  case (Cons c s)
  then have "utf8_chunk (c # s) = (True, 1)" by (simp add: utf8_width_def)
  then show ?case using Cons valid_step [of "c # s"] by simp
qed simp

lemma lossy_singleton_invalid:
  "128 \<le> byte_of b \<Longrightarrow> from_utf8_lossy [b] = replacement"
  by (simp add: lossy_step Let_def utf8_width_def)

end
