(* ===== verification/Externals.thy ===== *)
theory Externals
  imports Prelude
begin

text \<open>The third-party code the sources call and this development does not contain (the hex,
  sha2, hmac, aes-gcm, ed25519-dalek, urlencoding and x509-parser crates, and the Unicode
  lower-case tables) is one record of functions, a parameter of every definition that uses it. The laws named below
  are the documented behaviour some theorems rely on; @<demo_ext> is a concrete instance that
  satisfies them, for the witnesses.\<close>

record ext =
  x_hex_encode :: "bytes \<Rightarrow> string"
  x_hex_decode :: "string \<Rightarrow> bytes option"
  x_sha256 :: "bytes \<Rightarrow> bytes"
  x_vk_ok :: "bytes \<Rightarrow> bool"
  x_verify_strict :: "bytes \<Rightarrow> bytes \<Rightarrow> bytes \<Rightarrow> bool"
  x_public_of :: "bytes \<Rightarrow> bytes"
  x_sign :: "bytes \<Rightarrow> bytes \<Rightarrow> bytes"
  x_url_encode :: "string \<Rightarrow> string"
  x_to_lower :: "string \<Rightarrow> string"
  x_cert_spki :: "bytes \<Rightarrow> bytes option"
  x_hmac_sha256 :: "bytes \<Rightarrow> bytes \<Rightarrow> bytes"
  x_aes_seal :: "bytes \<Rightarrow> bytes \<Rightarrow> bytes \<Rightarrow> string + bytes"
  x_aes_open :: "bytes \<Rightarrow> bytes \<Rightarrow> bytes \<Rightarrow> bytes option"

section \<open>Laws\<close>

text \<open>The hex codec: decoding inverts encoding, and what decodes has two hex digits a byte.\<close>

definition hex_laws :: "ext \<Rightarrow> bool" where
  "hex_laws x \<longleftrightarrow> (\<forall>b. x_hex_decode x (x_hex_encode x b) = Some b)
     \<and> (\<forall>s b. x_hex_decode x s = Some b \<longrightarrow> (\<forall>c \<in> set s. is_hexdigit c) \<and> length s = 2 * length b)"

text \<open>SHA-256 yields 32 bytes.\<close>

definition sha_laws :: "ext \<Rightarrow> bool" where
  "sha_laws x \<longleftrightarrow> (\<forall>b. length (x_sha256 x b) = 32)"

text \<open>Ed25519: the public key of a seed has 32 bytes and is a valid key, a signature has 64
  bytes, and the signature of a message verifies for it under the signer's key.\<close>

definition sig_laws :: "ext \<Rightarrow> bool" where
  "sig_laws x \<longleftrightarrow> (\<forall>k. length (x_public_of x k) = 32 \<and> x_vk_ok x (x_public_of x k))
     \<and> (\<forall>k m. length (x_sign x k m) = 64 \<and> x_verify_strict x (x_public_of x k) m (x_sign x k m))"

text \<open>Unicode lower-casing does on ASCII what ASCII lower-casing does.\<close>

definition lower_laws :: "ext \<Rightarrow> bool" where
  "lower_laws x \<longleftrightarrow>
     (\<forall>s. (\<forall>c \<in> set s. byte_of c < 128) \<longrightarrow> x_to_lower x s = ascii_lowercase s)"

text \<open>AES-GCM: what was sealed under a key and a nonce opens under them, and the sealed text is
  at least the 16-byte tag long.\<close>

definition aead_laws :: "ext \<Rightarrow> bool" where
  "aead_laws x \<longleftrightarrow> (\<forall>k n m c. x_aes_seal x k n m = Inr c \<longrightarrow> x_aes_open x k n c = Some m \<and> 16 \<le> length c)"

lemma hex_decode_encode: "hex_laws x \<Longrightarrow> x_hex_decode x (x_hex_encode x b) = Some b"
  by (simp add: hex_laws_def)

lemma hex_decode_shape:
  "hex_laws x \<Longrightarrow> x_hex_decode x s = Some b \<Longrightarrow>
    (\<forall>c \<in> set s. is_hexdigit c) \<and> length s = 2 * length b"
  by (auto simp: hex_laws_def)

lemma hex_encode_shape:
  "hex_laws x \<Longrightarrow> (\<forall>c \<in> set (x_hex_encode x b). is_hexdigit c) \<and> length (x_hex_encode x b) = 2 * length b"
  using hex_decode_shape hex_decode_encode by blast

lemma hex_encode_inj: "hex_laws x \<Longrightarrow> x_hex_encode x a = x_hex_encode x b \<Longrightarrow> a = b"
  by (metis hex_decode_encode option.inject)

lemma nl_not_hexdigit: "is_hexdigit c \<Longrightarrow> c \<noteq> nl"
  by (auto simp: is_hexdigit_def is_digit_def)

lemma nl_notin_hex: "hex_laws x \<Longrightarrow> x_hex_decode x s = Some b \<Longrightarrow> nl \<notin> set s"
  using hex_decode_shape nl_not_hexdigit by blast

lemma nl_notin_hex_encode: "hex_laws x \<Longrightarrow> nl \<notin> set (x_hex_encode x b)"
  using hex_encode_shape nl_not_hexdigit by blast

section \<open>A concrete instance\<close>

definition hex_char :: "nat \<Rightarrow> char" where
  "hex_char n = char_of (if n < 10 then 48 + n else 87 + n)"

definition hex_val :: "char \<Rightarrow> nat" where
  "hex_val c = (if is_digit c then byte_of c - 48
     else if 97 \<le> byte_of c then byte_of c - 87 else byte_of c - 55)"

definition demo_hex :: "bytes \<Rightarrow> string" where
  "demo_hex b = concat (map (\<lambda>c. [hex_char (byte_of c div 16), hex_char (byte_of c mod 16)]) b)"

fun demo_unhex :: "string \<Rightarrow> bytes option" where
  "demo_unhex [] = Some []"
| "demo_unhex [c] = None"
| "demo_unhex (c # d # s) = (if is_hexdigit c \<and> is_hexdigit d
     then map_option (\<lambda>r. char_of (hex_val c * 16 + hex_val d) # r) (demo_unhex s) else None)"

definition pad :: "nat \<Rightarrow> bytes \<Rightarrow> bytes" where
  "pad n b = take n (b @ replicate n (char_of (0 :: nat)))"

definition demo_digest :: "bytes \<Rightarrow> bytes" where
  "demo_digest m = char_of (length m mod 256) # pad 31 (rev m)"

definition demo_sign :: "bytes \<Rightarrow> bytes \<Rightarrow> bytes" where
  "demo_sign k m = pad 32 k @ demo_digest m"

definition demo_ext :: ext where
  "demo_ext = \<lparr>x_hex_encode = demo_hex, x_hex_decode = demo_unhex, x_sha256 = pad 32,
     x_vk_ok = (\<lambda>k. True), x_verify_strict = (\<lambda>pk m s. s = demo_sign pk m),
     x_public_of = pad 32, x_sign = demo_sign, x_url_encode = (\<lambda>s. s),
     x_to_lower = ascii_lowercase,
     x_cert_spki = (\<lambda>c. if c = [] then None else Some c),
     x_hmac_sha256 = (\<lambda>k m. demo_digest (k @ m)),
     x_aes_seal = (\<lambda>k n m. Inr (m @ pad 16 n)),
     x_aes_open = (\<lambda>k n c. if length c < 16 \<or> drop (length c - 16) c \<noteq> pad 16 n then None
       else Some (take (length c - 16) c))\<rparr>"

lemma hex_char_props:
  "n < 16 \<Longrightarrow> is_hexdigit (hex_char n)" "n < 16 \<Longrightarrow> hex_val (hex_char n) = n"
  by (auto simp: is_hexdigit_def is_digit_def hex_char_def hex_val_def)

lemma demo_unhex_hex: "demo_unhex (demo_hex b) = Some b"
proof (induction b)
  case (Cons c b)
  have "byte_of c < 16 * 16" using nat_of_char_less_256 [of c] by simp
  then have "byte_of c div 16 < 16" by (rule less_mult_imp_div_less)
  moreover have "byte_of c mod 16 < 16" by simp
  ultimately have "byte_of c div 16 < 16" "byte_of c mod 16 < 16" by auto
  then show ?case using Cons by (simp add: demo_hex_def hex_char_props)
qed (simp add: demo_hex_def)

lemma demo_unhex_shape:
  "demo_unhex s = Some b \<Longrightarrow> (\<forall>c \<in> set s. is_hexdigit c) \<and> length s = 2 * length b"
proof (induction s arbitrary: b rule: demo_unhex.induct)
  case (3 c d s)
  then obtain r where r: "is_hexdigit c" "is_hexdigit d" "demo_unhex s = Some r"
    "b = char_of (hex_val c * 16 + hex_val d) # r"
    by (cases "is_hexdigit c \<and> is_hexdigit d") auto
  then show ?case using 3(1) [of r] by simp
qed simp_all

lemma length_pad [simp]: "length (pad n b) = n"
  by (simp add: pad_def)

lemma pad_pad [simp]: "pad n (pad n b) = pad n b"
  by (simp add: pad_def)

lemma demo_hex_laws [simp]: "hex_laws demo_ext"
  by (simp add: hex_laws_def demo_ext_def demo_unhex_hex demo_unhex_shape)

lemma demo_sha_laws [simp]: "sha_laws demo_ext"
  by (simp add: sha_laws_def demo_ext_def)

lemma demo_sig_laws [simp]: "sig_laws demo_ext"
  by (simp add: sig_laws_def demo_ext_def demo_sign_def demo_digest_def)

lemma demo_lower_laws [simp]: "lower_laws demo_ext"
  by (simp add: lower_laws_def demo_ext_def)

lemma demo_aead_laws [simp]: "aead_laws demo_ext"
  by (simp add: aead_laws_def demo_ext_def)

end
