(* ===== verification/Protocol.thy ===== *)
theory Protocol
  imports Prelude
begin

text \<open>The wire types of @<doclink-core/src/protocol.rs> and the two canonical strings a pairing
  signs. The field names carry a prefix per record, because the sources reuse them.\<close>

section \<open>Constants\<close>

definition PROTOCOL_VERSION :: string where "PROTOCOL_VERSION = ''0.5''"
definition BEACON_MAGIC :: string where "BEACON_MAGIC = ''DOCLINK_BEACON''"
definition DEFAULT_HTTP_PORT :: u16 where "DEFAULT_HTTP_PORT = 37655"
definition PEER_TTL_SECS :: u64 where "PEER_TTL_SECS = 300"

section \<open>Wire types\<close>

record beacon =
  bc_magic :: string
  bc_version :: string
  bc_node_id :: string
  bc_name :: string
  bc_http_port :: u16
  bc_fingerprint :: string

definition beacon_new :: "string \<Rightarrow> string \<Rightarrow> u16 \<Rightarrow> string \<Rightarrow> beacon" where
  "beacon_new nid nm port fp = \<lparr>bc_magic = BEACON_MAGIC, bc_version = PROTOCOL_VERSION,
     bc_node_id = nid, bc_name = nm, bc_http_port = port, bc_fingerprint = fp\<rparr>"

definition beacon_is_valid :: "beacon \<Rightarrow> bool" where
  "beacon_is_valid b \<longleftrightarrow> bc_magic b = BEACON_MAGIC"

record node_info =
  ni_node_id :: string
  ni_name :: string
  ni_version :: string
  ni_fingerprint :: string
  ni_app_version :: string

datatype entry_kind = File | Dir

record dir_entry =
  de_name :: string
  de_path :: string
  de_kind :: entry_kind
  de_size :: u64
  de_modified_unix :: "u64 option"

record list_response =
  lr_path :: string
  lr_entries :: "dir_entry list"

record search_response =
  sr_query :: string
  sr_truncated :: bool
  sr_results :: "dir_entry list"

record peer =
  p_node_id :: string
  p_name :: string
  p_addr :: string
  p_http_port :: u16
  p_fingerprint :: string
  p_last_seen_unix :: u64

record error_response =
  er_error :: string
  er_code :: "string option"

definition error_new :: "string \<Rightarrow> error_response" where
  "error_new e = \<lparr>er_error = e, er_code = None\<rparr>"

definition error_coded :: "string \<Rightarrow> string \<Rightarrow> error_response" where
  "error_coded e c = \<lparr>er_error = e, er_code = Some c\<rparr>"

definition peer_base_url :: "string \<Rightarrow> u16 \<Rightarrow> string" where
  "peer_base_url addr port = (if contains '':'' addr
     then ''https://['' @ addr @ '']:'' @ show_nat (unat port)
     else ''https://'' @ addr @ '':'' @ show_nat (unat port))"

record pair_request =
  pr_node_id :: string
  pr_name :: string
  pr_pubkey_hex :: string
  pr_requested_duration_secs :: u64
  pr_signature :: string

record pair_decision =
  pd_requester_node_id :: string
  pd_decision :: string
  pd_duration_secs :: u64
  pd_pubkey_hex :: string
  pd_signature :: string

datatype pair_status = Pending | Approved | Denied | Unknown

record pair_status_response =
  ps_status :: pair_status
  ps_expires_unix :: "u64 option"

record grant_info =
  gi_fingerprint :: string
  gi_node_id :: string
  gi_name :: string
  gi_granted_unix :: u64
  gi_expires_unix :: "u64 option"
  gi_paths :: "string list"
  gi_allow_files :: bool
  gi_allow_print :: bool

record contact_info =
  ci_node_id :: string
  ci_alias :: string
  ci_host :: "string option"
  ci_online :: bool
  ci_status :: string

record inbox_entry =
  ie_name :: string
  ie_size :: u64
  ie_modified_unix :: u64
  ie_from :: "string option"
  ie_from_node_id :: "string option"
  ie_received_unix :: "u64 option"

record upload_result =
  ur_name :: string
  ur_size :: u64

section \<open>Canonical strings\<close>

definition canonical_request_string :: "pair_request \<Rightarrow> string" where
  "canonical_request_string r =
     ''doclink-pair-v1'' @ [nl] @ pr_node_id r @ [nl] @ pr_name r @ [nl] @ pr_pubkey_hex r
     @ [nl] @ show_u64 (pr_requested_duration_secs r)"

definition canonical_decision_string :: "pair_decision \<Rightarrow> string" where
  "canonical_decision_string d =
     ''doclink-decision-v1'' @ [nl] @ pd_requester_node_id d @ [nl] @ pd_decision d @ [nl]
     @ show_u64 (pd_duration_secs d) @ [nl] @ pd_pubkey_hex d"

lemma request_fields:
  assumes eq: "canonical_request_string r = canonical_request_string s"
    and nid: "nl \<notin> set (pr_node_id r)" "nl \<notin> set (pr_node_id s)"
    and pub: "nl \<notin> set (pr_pubkey_hex r)" "nl \<notin> set (pr_pubkey_hex s)"
  shows "pr_node_id r = pr_node_id s \<and> pr_name r = pr_name s
    \<and> pr_pubkey_hex r = pr_pubkey_hex s
    \<and> pr_requested_duration_secs r = pr_requested_duration_secs s"
proof -
  let ?mid = "\<lambda>q. pr_name q @ nl # pr_pubkey_hex q @ nl # show_u64 (pr_requested_duration_secs q)"
  have "pr_node_id r @ nl # ?mid r = pr_node_id s @ nl # ?mid s"
    using eq by (simp add: canonical_request_string_def)
  then have 1: "pr_node_id r = pr_node_id s" "?mid r = ?mid s"
    using field_eq nid by blast+
  have "(pr_name r @ nl # pr_pubkey_hex r) @ nl # show_u64 (pr_requested_duration_secs r)
      = (pr_name s @ nl # pr_pubkey_hex s) @ nl # show_u64 (pr_requested_duration_secs s)"
    using 1(2) by simp
  then have 2: "pr_name r @ nl # pr_pubkey_hex r = pr_name s @ nl # pr_pubkey_hex s"
      "show_u64 (pr_requested_duration_secs r) = show_u64 (pr_requested_duration_secs s)"
    using last_field_eq nl_notin_show_u64 by blast+
  have 3: "pr_name r = pr_name s \<and> pr_pubkey_hex r = pr_pubkey_hex s"
    by (rule last_field_eq [OF pub 2(1)])
  show ?thesis using 1(1) 2(2) 3 show_u64_inj by blast
qed

lemma decision_fields:
  assumes eq: "canonical_decision_string d = canonical_decision_string e"
    and nid: "nl \<notin> set (pd_requester_node_id d)" "nl \<notin> set (pd_requester_node_id e)"
    and pub: "nl \<notin> set (pd_pubkey_hex d)" "nl \<notin> set (pd_pubkey_hex e)"
  shows "pd_requester_node_id d = pd_requester_node_id e \<and> pd_decision d = pd_decision e
    \<and> pd_duration_secs d = pd_duration_secs e \<and> pd_pubkey_hex d = pd_pubkey_hex e"
proof -
  let ?mid = "\<lambda>q. pd_decision q @ nl # show_u64 (pd_duration_secs q) @ nl # pd_pubkey_hex q"
  have "pd_requester_node_id d @ nl # ?mid d = pd_requester_node_id e @ nl # ?mid e"
    using eq by (simp add: canonical_decision_string_def)
  then have 1: "pd_requester_node_id d = pd_requester_node_id e" "?mid d = ?mid e"
    using field_eq nid by blast+
  have "(pd_decision d @ nl # show_u64 (pd_duration_secs d)) @ nl # pd_pubkey_hex d
      = (pd_decision e @ nl # show_u64 (pd_duration_secs e)) @ nl # pd_pubkey_hex e"
    using 1(2) by simp
  then have 2: "pd_decision d @ nl # show_u64 (pd_duration_secs d)
      = pd_decision e @ nl # show_u64 (pd_duration_secs e)"
      "pd_pubkey_hex d = pd_pubkey_hex e"
    using last_field_eq pub by blast+
  have 3: "pd_decision d = pd_decision e \<and> show_u64 (pd_duration_secs d) = show_u64 (pd_duration_secs e)"
    by (rule last_field_eq [OF _ _ 2(1)]) simp_all
  show ?thesis using 1(1) 2(2) 3 show_u64_inj by blast
qed

end
