(* ===== verification/Identity.thy ===== *)
theory Identity
  imports Prelude Utf8 Externals Protocol
begin

text \<open>The machine identity of @<doclink-core/src/identity.rs> and the certificate pinning of
  @<doclink-core/src/cert.rs>: the fingerprint and node id of a key, the signature headers of a
  request, the verification of a hex signature, the key file, and the fixed DER templates.\<close>

section \<open>The key pair\<close>

record node_identity =
  signing_key :: bytes

definition verifying_key :: "ext \<Rightarrow> node_identity \<Rightarrow> bytes" where
  "verifying_key x i = x_public_of x (signing_key i)"

definition fingerprint :: "ext \<Rightarrow> node_identity \<Rightarrow> string" where
  "fingerprint x i = x_hex_encode x (x_sha256 x (verifying_key x i))"

definition node_id :: "ext \<Rightarrow> node_identity \<Rightarrow> string" where
  "node_id x i = take 16 (fingerprint x i)"

definition sign :: "ext \<Rightarrow> node_identity \<Rightarrow> bytes \<Rightarrow> bytes" where
  "sign x i m = x_sign x (signing_key i) m"

definition fingerprint_from_pubkey_hex :: "ext \<Rightarrow> string \<Rightarrow> string option" where
  "fingerprint_from_pubkey_hex x ph =
     map_option (\<lambda>b. x_hex_encode x (x_sha256 x b)) (x_hex_decode x ph)"

datatype verify_error = Bad_Hex | Bad_Pubkey_Length | Bad_Pubkey | Bad_Signature_Length | Bad_Signature

definition verify :: "ext \<Rightarrow> string \<Rightarrow> bytes \<Rightarrow> string \<Rightarrow> verify_error + unit" where
  "verify x pubkey_hex msg signature_hex = (case x_hex_decode x pubkey_hex of
     None \<Rightarrow> Inl Bad_Hex
   | Some pk \<Rightarrow>
     if length pk \<noteq> 32 then Inl Bad_Pubkey_Length
     else if \<not> x_vk_ok x pk then Inl Bad_Pubkey
     else (case x_hex_decode x signature_hex of
       None \<Rightarrow> Inl Bad_Hex
     | Some sg \<Rightarrow>
       if length sg \<noteq> 64 then Inl Bad_Signature_Length
       else if x_verify_strict x pk msg sg then Inr () else Inl Bad_Signature))"

section \<open>Signature headers\<close>

definition request_canonical :: "string \<Rightarrow> string \<Rightarrow> string \<Rightarrow> string \<Rightarrow> bytes \<Rightarrow> string" where
  "request_canonical method path_q ts nonce body =
     method @ [nl] @ path_q @ [nl] @ ts @ [nl] @ nonce @ [nl] @ from_utf8_lossy body"

text \<open>The clock reading and the eight random bytes of the nonce are arguments.\<close>

definition auth_headers_body ::
    "ext \<Rightarrow> node_identity \<Rightarrow> u64 \<Rightarrow> bytes \<Rightarrow> string \<Rightarrow> string \<Rightarrow> bytes \<Rightarrow> (string \<times> string) list" where
  "auth_headers_body x i now nb method path_q body = (let
     ts = show_u64 now;
     nonce = x_hex_encode x nb;
     sg = sign x i (request_canonical method path_q ts nonce body)
   in [(''x-doclink-node'', node_id x i),
       (''x-doclink-pub'', x_hex_encode x (verifying_key x i)),
       (''x-doclink-ts'', ts),
       (''x-doclink-nonce'', nonce),
       (''x-doclink-sig'', x_hex_encode x sg)])"

definition auth_headers ::
    "ext \<Rightarrow> node_identity \<Rightarrow> u64 \<Rightarrow> bytes \<Rightarrow> string \<Rightarrow> string \<Rightarrow> (string \<times> string) list" where
  "auth_headers x i now nb method path_q = auth_headers_body x i now nb method path_q []"

lemma verify_Inr: "verify x ph m sh = Inr u \<longleftrightarrow>
    (\<exists>pk sg. x_hex_decode x ph = Some pk \<and> length pk = 32 \<and> x_vk_ok x pk
      \<and> x_hex_decode x sh = Some sg \<and> length sg = 64 \<and> x_verify_strict x pk m sg)"
  by (auto simp: verify_def split: option.splits if_splits)

lemma verify_own:
  "hex_laws x \<Longrightarrow> sig_laws x \<Longrightarrow>
    verify x (x_hex_encode x (verifying_key x i)) m (x_hex_encode x (sign x i m)) = Inr ()"
  by (simp add: verify_def hex_decode_encode sig_laws_def verifying_key_def sign_def)

lemma fingerprint_of_own_pubkey:
  "hex_laws x \<Longrightarrow>
    fingerprint_from_pubkey_hex x (x_hex_encode x (verifying_key x i)) = Some (fingerprint x i)"
  by (simp add: fingerprint_from_pubkey_hex_def fingerprint_def hex_decode_encode)

lemma fingerprint_length: "hex_laws x \<Longrightarrow> sha_laws x \<Longrightarrow> length (fingerprint x i) = 64"
  by (simp add: fingerprint_def hex_encode_shape sha_laws_def)

lemma request_canonical_inj:
  assumes "request_canonical m p t n b = request_canonical m' p' t' n' b'"
    and "nl \<notin> set m" "nl \<notin> set m'" "nl \<notin> set p" "nl \<notin> set p'"
    and "nl \<notin> set t" "nl \<notin> set t'" "nl \<notin> set n" "nl \<notin> set n'"
  shows "m = m' \<and> p = p' \<and> t = t' \<and> n = n' \<and> from_utf8_lossy b = from_utf8_lossy b'"
  using assms unfolding request_canonical_def append_Cons append_Nil
  by (metis field_eq)

section \<open>The key file\<close>

text \<open>The key file holds the raw seed: absent, or some bytes. Loading an existing file needs a
  successful read of exactly 32 bytes; otherwise a fresh seed is written (the permission
  tightening is best-effort and changes neither).\<close>

datatype key_error = Key_Read | Key_Length | Key_Dir | Key_Write

definition load_or_generate ::
    "bytes option \<Rightarrow> bool \<Rightarrow> bool \<Rightarrow> bool \<Rightarrow> bytes \<Rightarrow> (key_error + node_identity) \<times> bytes option" where
  "load_or_generate file read_ok dir_ok write_ok fresh = (case file of
     Some b \<Rightarrow> (if \<not> read_ok then Inl Key_Read
               else if length b \<noteq> 32 then Inl Key_Length
               else Inr \<lparr>signing_key = b\<rparr>, file)
   | None \<Rightarrow> (if \<not> dir_ok then (Inl Key_Dir, None)
             else if \<not> write_ok then (Inl Key_Write, None)
             else (Inr \<lparr>signing_key = fresh\<rparr>, Some fresh)))"

lemma generated_key_reloads:
  assumes "load_or_generate file rd dir wr fresh = (Inr i, file')" "length fresh = 32"
  shows "load_or_generate file' True dir' wr' fresh' = (Inr i, file')"
  using assms by (auto simp: load_or_generate_def split: option.splits if_splits)

section \<open>Certificates\<close>

definition ED25519_PKCS8_PREFIX :: bytes where
  "ED25519_PKCS8_PREFIX = map char_of [0x30 :: nat, 0x2e, 0x02, 0x01, 0x00, 0x30, 0x05, 0x06, 0x03,
     0x2b, 0x65, 0x70, 0x04, 0x22, 0x04, 0x20]"

definition pkcs8_from_seed :: "bytes \<Rightarrow> bytes" where
  "pkcs8_from_seed seed = ED25519_PKCS8_PREFIX @ seed"

definition ED25519_SPKI_HEADER :: bytes where
  "ED25519_SPKI_HEADER = map char_of [0x30 :: nat, 0x2a, 0x30, 0x05, 0x06, 0x03, 0x2b, 0x65, 0x70,
     0x03, 0x21, 0x00]"

text \<open>The X.509 parser yields the raw SubjectPublicKeyInfo of a certificate or fails.\<close>

definition spki_sha256 :: "ext \<Rightarrow> bytes \<Rightarrow> bytes option" where
  "spki_sha256 x cert = (case x_cert_spki x cert of
     None \<Rightarrow> None
   | Some spki \<Rightarrow>
     if length spki \<noteq> 44 \<or> take 12 spki \<noteq> ED25519_SPKI_HEADER then None
     else Some (x_sha256 x (drop 12 spki)))"

lemma length_spki_header [simp]: "length ED25519_SPKI_HEADER = 12"
  by (simp add: ED25519_SPKI_HEADER_def)

lemma spki_pin:
  assumes "sig_laws x" "x_cert_spki x cert = Some (ED25519_SPKI_HEADER @ verifying_key x i)"
  shows "map_option (x_hex_encode x) (spki_sha256 x cert) = Some (fingerprint x i)"
  using assms by (simp add: spki_sha256_def sig_laws_def verifying_key_def fingerprint_def)

end
