(* ===== verification/Events.thy ===== *)
theory Events
  imports Prelude
begin

text \<open>The notification ring of @<doclinkd/src/events.rs>: ids grow by one, at most @<CAP> events
  are kept, and each approaching expiry is claimed once.\<close>

section \<open>State and operations\<close>

definition CAP :: nat where "CAP = 100"

record event =
  ev_id :: u64
  ev_kind :: string
  ev_title :: string
  ev_body :: string
  ev_unix :: u64

record events =
  next_id :: u64
  items :: "event list"
  expiry_announced :: "(string \<times> u64) list"

definition events_default :: events where
  "events_default = \<lparr>next_id = 0, items = [], expiry_announced = []\<rparr>"

fun pop_to_cap :: "event list \<Rightarrow> event list" where
  "pop_to_cap [] = []"
| "pop_to_cap (e # es) = (if CAP < length (e # es) then pop_to_cap es else e # es)"

text \<open>The clock is read once per push: @<now> is that reading.\<close>

definition push :: "u64 \<Rightarrow> string \<Rightarrow> string \<Rightarrow> string \<Rightarrow> events \<Rightarrow> event \<times> events" where
  "push now kind title body e = (let
     i = next_id e + 1;
     ev = \<lparr>ev_id = i, ev_kind = kind, ev_title = title, ev_body = body, ev_unix = now\<rparr>
   in (ev, e\<lparr>next_id := i, items := pop_to_cap (items e @ [ev])\<rparr>))"

definition since :: "u64 \<Rightarrow> events \<Rightarrow> event list" where
  "since s e = filter (\<lambda>ev. s < ev_id ev) (items e)"

definition claim_expiry :: "string \<Rightarrow> u64 \<Rightarrow> events \<Rightarrow> bool \<times> events" where
  "claim_expiry fp ex e = (if (fp, ex) \<in> set (expiry_announced e) then (False, e)
     else (True, e\<lparr>expiry_announced := (fp, ex) # expiry_announced e\<rparr>))"

section \<open>The ring\<close>

text \<open>The kept ids are the last ones handed out, consecutive and ascending.\<close>

definition ring_ok :: "events \<Rightarrow> bool" where
  "ring_ok e \<longleftrightarrow> length (items e) \<le> CAP \<and> length (items e) \<le> unat (next_id e)
     \<and> map (\<lambda>v. unat (ev_id v)) (items e)
       = [Suc (unat (next_id e)) - length (items e) ..< Suc (unat (next_id e))]"

lemma pop_to_cap_drop: "pop_to_cap es = drop (length es - CAP) es"
proof (induction es)
  case (Cons e es)
  then show ?case by (cases "CAP < length (e # es)") (auto simp: Suc_diff_le)
qed simp

lemma ring_ok_default: "ring_ok events_default"
  by (simp add: ring_ok_def events_default_def)

lemma unat_succ: "w + 1 \<noteq> (0 :: u64) \<Longrightarrow> unat (w + 1) = Suc (unat w)"
  by (metis add.commute unatSuc)

lemma push_ids:
  assumes "next_id e + 1 \<noteq> 0"
  shows "unat (next_id (snd (push now k t b e))) = Suc (unat (next_id e))"
  using assms by (simp add: push_def Let_def unat_succ)

lemma ring_ok_push:
  assumes ok: "ring_ok e" and ov: "next_id e + 1 \<noteq> 0"
  shows "ring_ok (snd (push now k t b e))"
proof -
  let ?n = "unat (next_id e)" and ?l = "length (items e)"
  have ids: "map (\<lambda>v. unat (ev_id v)) (items e) = [Suc ?n - ?l ..< Suc ?n]"
    and l: "?l \<le> CAP" "?l \<le> ?n" using ok by (auto simp: ring_ok_def)
  have u: "unat (next_id e + 1) = Suc ?n" by (rule unat_succ [OF ov])
  let ?ev = "\<lparr>ev_id = next_id e + 1, ev_kind = k, ev_title = t, ev_body = b, ev_unix = now\<rparr>"
  let ?k = "Suc ?l - CAP"
  have st: "next_id (snd (push now k t b e)) = next_id e + 1"
      "items (snd (push now k t b e)) = drop ?k (items e @ [?ev])"
    by (simp_all add: push_def Let_def pop_to_cap_drop)
  have all: "map (\<lambda>v. unat (ev_id v)) (items e @ [?ev]) = [Suc ?n - ?l ..< Suc (Suc ?n)]"
    using ids u by simp
  have len: "length (drop ?k (items e @ [?ev])) = Suc ?l - ?k" by simp
  have "map (\<lambda>v. unat (ev_id v)) (drop ?k (items e @ [?ev]))
      = [Suc ?n - ?l + ?k ..< Suc (Suc ?n)]"
    unfolding drop_map [symmetric] all by (rule drop_upt)
  moreover have "Suc ?n - ?l + ?k = Suc (Suc ?n) - (Suc ?l - ?k)" "Suc ?l - ?k \<le> CAP"
      "Suc ?l - ?k \<le> Suc ?n"
    using l by (auto simp: CAP_def)
  ultimately show ?thesis unfolding ring_ok_def st u len by simp
qed

lemma since_ids:
  assumes "ring_ok e"
  shows "map (\<lambda>v. unat (ev_id v)) (since s e)
    = [max (Suc (unat s)) (Suc (unat (next_id e)) - length (items e)) ..< Suc (unat (next_id e))]"
proof -
  have f: "filter (\<lambda>i. s < i) [m ..< n] = [max (Suc s) m ..< n]" for s m n :: nat
    by (induction n) (auto simp: max_def)
  have "map (\<lambda>v. unat (ev_id v)) (since s e)
    = filter (\<lambda>i. unat s < i) (map (\<lambda>v. unat (ev_id v)) (items e))"
    by (simp add: since_def filter_map o_def word_less_nat_alt)
  then show ?thesis using assms by (simp add: ring_ok_def f)
qed

lemma claim_once: "fst (claim_expiry fp ex e) \<Longrightarrow> \<not> fst (claim_expiry fp ex (snd (claim_expiry fp ex e)))"
  by (simp add: claim_expiry_def split: if_splits)

lemma claim_items [simp]: "items (snd (claim_expiry fp ex e)) = items e"
    "next_id (snd (claim_expiry fp ex e)) = next_id e"
    "set (expiry_announced (snd (claim_expiry fp ex e))) = insert (fp, ex) (set (expiry_announced e))"
  by (auto simp: claim_expiry_def)

lemma push_announced [simp]: "expiry_announced (snd (push now k t b e)) = expiry_announced e"
  by (simp add: push_def Let_def)

text \<open>A run of pushes onto a ring that has room for the ids.\<close>

fun push_all :: "(u64 \<times> string \<times> string \<times> string) list \<Rightarrow> events \<Rightarrow> events" where
  "push_all [] e = e"
| "push_all ((now, k, t, b) # ps) e = push_all ps (snd (push now k t b e))"

lemma unat_no_wrap: "unat (w :: u64) + 1 < u64_limit \<Longrightarrow> w + 1 \<noteq> 0"
proof
  assume "unat w + 1 < u64_limit" "w + 1 = 0"
  moreover from this have "w = - 1" by (simp add: eq_neg_iff_add_eq_0)
  ultimately show False by (simp add: unsigned_minus_1_eq_mask mask_eq_exp_minus_1)
qed

lemma push_all_ring:
  "ring_ok e \<Longrightarrow> unat (next_id e) + length ps < u64_limit \<Longrightarrow>
    ring_ok (push_all ps e) \<and> unat (next_id (push_all ps e)) = unat (next_id e) + length ps"
proof (induction ps arbitrary: e)
  case (Cons p ps)
  obtain now k t b where p: "p = (now, k, t, b)" by (metis prod.collapse)
  have "next_id e + 1 \<noteq> 0" by (rule unat_no_wrap) (use Cons.prems(2) in simp)
  then have "ring_ok (snd (push now k t b e))" "unat (next_id (snd (push now k t b e))) = Suc (unat (next_id e))"
    using ring_ok_push [OF Cons.prems(1)] push_ids by blast+
  then show ?case using Cons.IH [of "snd (push now k t b e)"] Cons.prems(2) p by simp
qed simp

lemma push_all_items: "length (items e) \<le> CAP \<Longrightarrow>
    length (items (push_all ps e)) = min CAP (length (items e) + length ps)"
  by (induction ps e rule: push_all.induct) (auto simp: push_def Let_def pop_to_cap_drop)

lemma push_items_cap: "length (items (snd (push now k t b e))) \<le> CAP"
  by (simp add: push_def Let_def pop_to_cap_drop)

end
