(* ===== verification/Store.thy ===== *)
theory Store
  imports Prelude Utf8 Externals Protocol Events
begin

text \<open>The JSON stores of @<doclinkd/src/store.rs>: the grants (who may read this share) and the
  contacts, each a vector replaced by key, persisted by writing a temporary file, syncing it and
  renaming it over the old one; and the two background loops that keep them current.\<close>

section \<open>Grants\<close>

record grant =
  g_fingerprint :: string
  g_node_id :: string
  g_name :: string
  g_granted_unix :: u64
  g_expires_unix :: "u64 option"
  g_paths :: "string list"
  g_allow_files :: bool
  g_allow_print :: bool

type_synonym grants_file = "grant list"

definition grants_upsert :: "grant \<Rightarrow> grants_file \<Rightarrow> grants_file" where
  "grants_upsert g gs = filter (\<lambda>y. g_fingerprint y \<noteq> g_fingerprint g) gs @ [g]"

definition grant_live :: "u64 \<Rightarrow> grant \<Rightarrow> bool" where
  "grant_live now g \<longleftrightarrow> is_none_or (\<lambda>e. now < e) (g_expires_unix g)"

definition prune_expired :: "u64 \<Rightarrow> grants_file \<Rightarrow> bool \<times> grants_file" where
  "prune_expired now gs = (let gs' = filter (grant_live now) gs in (length gs' \<noteq> length gs, gs'))"

definition find_grant :: "string \<Rightarrow> grants_file \<Rightarrow> grant option" where
  "find_grant fp gs = List.find (\<lambda>g. g_fingerprint g = fp) gs"

section \<open>Contacts\<close>

record contact =
  c_node_id :: string
  c_alias :: string
  c_fingerprint :: string
  c_host :: "string option"
  c_status :: string

type_synonym contacts_file = "contact list"

definition contacts_upsert :: "contact \<Rightarrow> contacts_file \<Rightarrow> contacts_file" where
  "contacts_upsert c cs = filter (\<lambda>y. c_node_id y \<noteq> c_node_id c) cs @ [c]"

definition contacts_remove :: "string \<Rightarrow> contacts_file \<Rightarrow> bool \<times> contacts_file" where
  "contacts_remove nid cs =
     (let cs' = filter (\<lambda>c. c_node_id c \<noteq> nid) cs in (length cs' \<noteq> length cs, cs'))"

definition find_contact :: "string \<Rightarrow> contacts_file \<Rightarrow> contact option" where
  "find_contact nid cs = List.find (\<lambda>c. c_node_id c = nid) cs"

lemma gf_keyed: "find_grant k xs = find_key g_fingerprint k xs" "grants_upsert v xs = upsert_by g_fingerprint v xs"
  by (simp_all add: find_grant_def grants_upsert_def find_key_def upsert_by_def)

interpretation gf: keyed_store g_fingerprint "\<lambda>s k. find_grant k s" grants_upsert filter
    "\<lambda>s. distinct (map g_fingerprint s)"
  unfolding gf_keyed by (rule vector_keyed_store)

lemma cf_keyed: "find_contact k xs = find_key c_node_id k xs" "contacts_upsert v xs = upsert_by c_node_id v xs"
  by (simp_all add: find_contact_def contacts_upsert_def find_key_def upsert_by_def)

interpretation cf: keyed_store c_node_id "\<lambda>s k. find_contact k s" contacts_upsert filter
    "\<lambda>s. distinct (map c_node_id s)"
  unfolding cf_keyed by (rule vector_keyed_store)

lemma filter_length_less: "length (filter P xs) \<noteq> length xs \<longleftrightarrow> (\<exists>x \<in> set xs. \<not> P x)"
proof (induction xs)
  case (Cons x xs)
  moreover have "length (filter P xs) \<noteq> Suc (length xs)"
    using length_filter_le [of P xs] by linarith
  ultimately show ?case by auto
qed simp

lemma prune_iff: "fst (prune_expired now gs) \<longleftrightarrow> (\<exists>g \<in> set gs. \<not> grant_live now g)"
  by (simp add: prune_expired_def Let_def filter_length_less)

lemma prune_set: "set (snd (prune_expired now gs)) = {g \<in> set gs. grant_live now g}"
  by (simp add: prune_expired_def Let_def)

section \<open>The file behind a store\<close>

record disk =
  main_file :: "bytes option"
  tmp_file :: "bytes option"

datatype disk_op = Create_Tmp | Write_Tmp bytes | Sync_Tmp | Rename_Tmp

fun disk_step :: "disk_op \<Rightarrow> disk \<Rightarrow> disk" where
  "disk_step Create_Tmp d = d\<lparr>tmp_file := Some []\<rparr>"
| "disk_step (Write_Tmp b) d = d\<lparr>tmp_file := Some b\<rparr>"
| "disk_step Sync_Tmp d = d"
| "disk_step Rename_Tmp d = d\<lparr>main_file := tmp_file d, tmp_file := None\<rparr>"

text \<open>A failing write leaves a prefix of the payload; the other operations fail without effect.\<close>

fun disk_fail :: "nat \<Rightarrow> disk_op \<Rightarrow> disk \<Rightarrow> disk" where
  "disk_fail k (Write_Tmp b) d = d\<lparr>tmp_file := Some (take k b)\<rparr>"
| "disk_fail k _ d = d"

text \<open>@<faults n> tells whether the n-th operation of a save fails, and after how many bytes.\<close>

fun run_disk :: "(nat \<Rightarrow> nat option) \<Rightarrow> nat \<Rightarrow> disk_op list \<Rightarrow> disk \<Rightarrow> bool \<times> disk" where
  "run_disk faults n [] d = (True, d)"
| "run_disk faults n (p # ps) d = (case faults n of
     None \<Rightarrow> run_disk faults (Suc n) ps (disk_step p d)
   | Some k \<Rightarrow> (False, disk_fail k p d))"

definition save_ops :: "bytes \<Rightarrow> disk_op list" where
  "save_ops payload = [Create_Tmp, Write_Tmp payload, Sync_Tmp, Rename_Tmp]"

text \<open>The JSON codec of a store's contents is a parameter.\<close>

record 't codec =
  cd_ser :: "'t \<Rightarrow> string option"
  cd_de :: "string \<Rightarrow> 't option"
  cd_default :: 't

definition codec_ok :: "'t codec \<Rightarrow> bool" where
  "codec_ok c \<longleftrightarrow>
     (\<forall>t. \<exists>s. cd_ser c t = Some s \<and> valid_utf8 s \<and> cd_de c s = Some t)"

record 't store =
  st_data :: 't
  st_disk :: disk

datatype open_error = Store_Read | Store_Parse

definition store_open :: "'t codec \<Rightarrow> bool \<Rightarrow> disk \<Rightarrow> open_error + 't store" where
  "store_open c readable d = (case main_file d of
     None \<Rightarrow> Inr \<lparr>st_data = cd_default c, st_disk = d\<rparr>
   | Some text \<Rightarrow>
     if \<not> readable \<or> \<not> valid_utf8 text then Inl Store_Read
     else (case cd_de c text of
       None \<Rightarrow> Inl Store_Parse
     | Some t \<Rightarrow> Inr \<lparr>st_data = t, st_disk = d\<rparr>))"

definition store_save :: "'t codec \<Rightarrow> (nat \<Rightarrow> nat option) \<Rightarrow> 't store \<Rightarrow> bool \<times> 't store" where
  "store_save c faults st = (case cd_ser c (st_data st) of
     None \<Rightarrow> (False, st)
   | Some payload \<Rightarrow> (let (ok, d) = run_disk faults 0 (save_ops payload) (st_disk st)
       in (ok, st\<lparr>st_disk := d\<rparr>)))"

definition no_faults :: "nat \<Rightarrow> nat option" where
  "no_faults = (\<lambda>n. None)"

text \<open>At every point of a save the main file is the old one or the whole new payload.\<close>

lemma save_prefix_atomic:
  "main_file (fold disk_step (take k (save_ops p)) d) \<in> {main_file d, Some p}"
proof -
  have "k = 0 \<or> k = 1 \<or> k = 2 \<or> k = 3 \<or> 4 \<le> k" by arith
  then show ?thesis by (elim disjE) (simp_all add: save_ops_def take_Cons')
qed

lemma run_save:
  "run_disk faults 0 (save_ops p) d = (ok, d') \<Longrightarrow>
     main_file d' = (if ok then Some p else main_file d)"
  by (auto simp: save_ops_def split: option.splits)

lemma run_save_ok:
  "fst (run_disk faults 0 (save_ops p) d) \<longleftrightarrow> (\<forall>n < 4. faults n = None)"
  by (auto simp: save_ops_def less_Suc_eq numeral_eq_Suc split: option.splits)

lemma store_save_data [simp]: "st_data (snd (store_save c faults st)) = st_data st"
  by (auto simp: store_save_def split: option.split prod.split)

lemma save_then_open:
  assumes "codec_ok c"
  shows "store_open c True (st_disk (snd (store_save c no_faults st)))
    = Inr \<lparr>st_data = st_data st, st_disk = st_disk (snd (store_save c no_faults st))\<rparr>"
proof -
  obtain s where s: "cd_ser c (st_data st) = Some s" "valid_utf8 s" "cd_de c s = Some (st_data st)"
    using assms unfolding codec_ok_def by blast
  then show ?thesis
    by (simp add: store_save_def store_open_def save_ops_def no_faults_def)
qed

lemma failed_save_keeps_file:
  "store_save c faults st = (False, st') \<Longrightarrow> main_file (st_disk st') = main_file (st_disk st)"
  by (auto simp: store_save_def split: option.splits prod.splits dest: run_save)

section \<open>The expiry sweeper\<close>

definition EXPIRING_SOON_SECS :: u64 where "EXPIRING_SOON_SECS = 24 * 3600"

definition expiring_soon :: "u64 \<Rightarrow> u64 \<Rightarrow> bool" where
  "expiring_soon now ex \<longleftrightarrow> now < ex \<and> ex - now \<le> EXPIRING_SOON_SECS"

text \<open>One grant of the announcement loop; @<clk> gives the clock reading of the push of an id.\<close>

definition announce :: "u64 \<Rightarrow> (u64 \<Rightarrow> u64) \<Rightarrow> grant \<Rightarrow> events \<Rightarrow> events" where
  "announce now clk gr e = (case g_expires_unix gr of
     None \<Rightarrow> e
   | Some ex \<Rightarrow>
     if expiring_soon now ex then
       (let (first, e') = claim_expiry (g_fingerprint gr) ex e in
        if first then snd (push (clk (next_id e' + 1)) ''grant-expiring''
            (''Access for '' @ g_name gr @ '' expires soon'')
            ''Renew it from Granted access, or let it lapse.'' e')
        else e')
     else e)"

definition sweep_tick :: "grants_file codec \<Rightarrow> (nat \<Rightarrow> nat option) \<Rightarrow> u64 \<Rightarrow> u64 \<Rightarrow> (u64 \<Rightarrow> u64)
    \<Rightarrow> grants_file store \<Rightarrow> events \<Rightarrow> grants_file store \<times> events" where
  "sweep_tick c faults now now2 clk st e = (let
     e' = fold (announce now clk) (st_data st) e;
     (changed, gs) = prune_expired now2 (st_data st);
     st' = st\<lparr>st_data := gs\<rparr>
   in (if changed then snd (store_save c faults st') else st', e'))"

definition due_pair :: "u64 \<Rightarrow> grant \<Rightarrow> (string \<times> u64) option" where
  "due_pair now g = (case g_expires_unix g of
     None \<Rightarrow> None
   | Some ex \<Rightarrow> if expiring_soon now ex then Some (g_fingerprint g, ex) else None)"

definition due_pairs :: "u64 \<Rightarrow> grants_file \<Rightarrow> (string \<times> u64) set" where
  "due_pairs now gs = set (List.map_filter (due_pair now) gs)"

lemma due_pairs_simps [simp]:
  "due_pairs now [] = {}"
  "due_pairs now (g # gs) = set_option (due_pair now g) \<union> due_pairs now gs"
  by (auto simp: due_pairs_def List.map_filter_def split: option.splits)

lemma announce_effect:
  "next_id (announce now clk g e) =
     next_id e + of_nat (card (set_option (due_pair now g) - set (expiry_announced e)))"
  "set (expiry_announced (announce now clk g e)) =
     set_option (due_pair now g) \<union> set (expiry_announced e)"
  by (auto simp: announce_def due_pair_def claim_expiry_def push_def Let_def insert_Diff_if
      split: option.split)

lemma fold_announce_effect:
  "next_id (fold (announce now clk) gs e) =
     next_id e + of_nat (card (due_pairs now gs - set (expiry_announced e)))
   \<and> set (expiry_announced (fold (announce now clk) gs e)) =
     due_pairs now gs \<union> set (expiry_announced e)"
proof (induction gs arbitrary: e)
  case (Cons g gs)
  let ?A = "set (expiry_announced e)" and ?d = "set_option (due_pair now g)"
  have fin: "finite (due_pairs now gs)" "finite ?d" by (simp_all add: due_pairs_def)
  have "(?d \<union> due_pairs now gs) - ?A = (?d - ?A) \<union> (due_pairs now gs - (?d \<union> ?A))" by blast
  then have "card ((?d \<union> due_pairs now gs) - ?A)
      = card (?d - ?A) + card (due_pairs now gs - (?d \<union> ?A))"
    using fin by (subst card_Un_disjoint [symmetric]) auto
  then show ?case using Cons [of "announce now clk g e"] by (auto simp: announce_effect)
qed simp

section \<open>The pair verifier\<close>

text \<open>@<fetch base path_q fp> is the signed status request to a peer, its pin check against the
  recorded fingerprint and the parse of its answer: @<None> when any of them fails.\<close>

definition status_label :: "pair_status \<Rightarrow> string option" where
  "status_label s = (case s of Approved \<Rightarrow> Some ''approved'' | Denied \<Rightarrow> Some ''denied'' | _ \<Rightarrow> None)"

definition verifier_poll :: "ext \<Rightarrow> (string \<Rightarrow> string \<Rightarrow> string \<Rightarrow> pair_status option) \<Rightarrow> peer list
    \<Rightarrow> string \<Rightarrow> contacts_file \<Rightarrow> string \<Rightarrow> string option" where
  "verifier_poll x fetch peers my_id cs nid =
     (case List.find (\<lambda>p. p_node_id p = nid) peers of
       None \<Rightarrow> None
     | Some p \<Rightarrow> (case find_contact nid cs of
         None \<Rightarrow> None
       | Some c \<Rightarrow> (case fetch (peer_base_url (p_addr p) (p_http_port p))
             (''/v1/pair/status?node_id='' @ x_url_encode x my_id) (c_fingerprint c) of
           None \<Rightarrow> None
         | Some s \<Rightarrow> status_label s)))"

definition set_contact_status :: "string \<Rightarrow> string \<Rightarrow> contacts_file \<Rightarrow> contacts_file" where
  "set_contact_status nid label cs =
     update_first (\<lambda>c. c_node_id c = nid) (\<lambda>c. c\<lparr>c_status := label\<rparr>) cs"

definition verifier_apply :: "contacts_file codec \<Rightarrow> (nat \<Rightarrow> nat option) \<Rightarrow> string \<Rightarrow> string option
    \<Rightarrow> contacts_file store \<Rightarrow> contacts_file store" where
  "verifier_apply cd faults nid res st = (case res of
     None \<Rightarrow> st
   | Some label \<Rightarrow> (case find_contact nid (st_data st) of
       None \<Rightarrow> st
     | Some c \<Rightarrow> if c_status c \<noteq> label
         then snd (store_save cd faults (st\<lparr>st_data := set_contact_status nid label (st_data st)\<rparr>))
         else st))"

definition verifier_step :: "ext \<Rightarrow> contacts_file codec \<Rightarrow> (nat \<Rightarrow> nat option)
    \<Rightarrow> (string \<Rightarrow> string \<Rightarrow> string \<Rightarrow> pair_status option) \<Rightarrow> peer list \<Rightarrow> string
    \<Rightarrow> string \<Rightarrow> contacts_file store \<Rightarrow> contacts_file store" where
  "verifier_step x cd faults fetch peers my_id nid st =
     verifier_apply cd faults nid (verifier_poll x fetch peers my_id (st_data st) nid) st"

definition verifier_tick :: "ext \<Rightarrow> contacts_file codec \<Rightarrow> (nat \<Rightarrow> nat option)
    \<Rightarrow> (string \<Rightarrow> string \<Rightarrow> string \<Rightarrow> pair_status option) \<Rightarrow> peer list \<Rightarrow> string
    \<Rightarrow> contacts_file store \<Rightarrow> contacts_file store" where
  "verifier_tick x cd faults fetch peers my_id st =
     fold (verifier_step x cd faults fetch peers my_id)
       (map c_node_id (filter (\<lambda>c. c_status c = ''pending'') (st_data st))) st"

lemma set_contact_status_keys [simp]:
  "map c_node_id (set_contact_status nid label cs) = map c_node_id cs"
  unfolding set_contact_status_def by (rule update_first_key) simp

lemma set_contact_status_settled:
  "c \<in> set cs \<Longrightarrow> c_node_id c \<noteq> nid \<Longrightarrow> c \<in> set (set_contact_status nid label cs)"
  unfolding set_contact_status_def by (rule update_first_other)

lemma verifier_apply_other:
  "c \<in> set (st_data st) \<Longrightarrow> c_node_id c \<noteq> nid \<Longrightarrow>
    c \<in> set (st_data (verifier_apply cd faults nid res st))"
  by (auto simp: verifier_apply_def set_contact_status_settled split: option.split)

lemma verifier_tick_keeps:
  assumes "c \<in> set (st_data st)" "distinct (map c_node_id (st_data st))" "c_status c \<noteq> ''pending''"
  shows "c \<in> set (st_data (verifier_tick x cd faults fetch peers my_id st))"
proof -
  let ?ids = "map c_node_id (filter (\<lambda>c. c_status c = ''pending'') (st_data st))"
  have nid: "c_node_id c \<notin> set ?ids"
    using assms by (auto simp: distinct_map inj_on_def)
  have "c \<in> set (st_data st') \<Longrightarrow> c_node_id c \<notin> set ids \<Longrightarrow>
      c \<in> set (st_data (fold (verifier_step x cd faults fetch peers my_id) ids st'))" for ids st'
    by (induction ids arbitrary: st') (auto simp: verifier_step_def verifier_apply_other)
  then show ?thesis using assms(1) nid by (simp add: verifier_tick_def)
qed

text \<open>A pending contact whose peer answers is settled within one tick, whatever the others answer.\<close>

lemma find_contact_set_status: "find_contact nid (set_contact_status nid' l cs) =
    (if nid = nid' then map_option (\<lambda>c. c\<lparr>c_status := l\<rparr>) (find_contact nid cs) else find_contact nid cs)"
  by (induction cs) (auto simp: find_contact_def set_contact_status_def)

lemma verifier_apply_find: "find_contact nid (st_data (verifier_apply cd faults nid' res st)) =
    (case res of None \<Rightarrow> find_contact nid (st_data st)
     | Some l \<Rightarrow> if nid = nid' then map_option (\<lambda>c. c\<lparr>c_status := l\<rparr>) (find_contact nid (st_data st))
       else find_contact nid (st_data st))"
  by (auto simp: verifier_apply_def find_contact_set_status split: option.split)

lemma verifier_tick_settles:
  assumes "find_contact nid (st_data st) = Some c" "c_status c = ''pending''"
    and "List.find (\<lambda>p. p_node_id p = nid) peers = Some p"
    and "fetch (peer_base_url (p_addr p) (p_http_port p)) (''/v1/pair/status?node_id='' @ x_url_encode x my_id)
        (c_fingerprint c) = Some ps" "status_label ps = Some label"
  shows "find_contact nid (st_data (verifier_tick x cd faults fetch peers my_id st)) = Some (c\<lparr>c_status := label\<rparr>)"
proof -
  let ?step = "verifier_step x cd faults fetch peers my_id" and ?c = "c\<lparr>c_status := label\<rparr>"
  have own: "find_contact nid (st_data (?step nid st')) = Some ?c"
    if "find_contact nid (st_data st') \<in> {Some c, Some ?c}" for st'
    using that assms(3-5) by (auto simp: verifier_step_def verifier_apply_find verifier_poll_def)
  have other: "find_contact nid (st_data (?step i st')) = find_contact nid (st_data st')" if "i \<noteq> nid" for i st'
    using that by (auto simp: verifier_step_def verifier_apply_find split: option.split)
  have keep: "find_contact nid (st_data st') = Some ?c \<Longrightarrow> find_contact nid (st_data (fold ?step ids st')) = Some ?c"
    for ids st'
  proof (induction ids arbitrary: st')
    case (Cons i ids)
    then show ?case using own [of st'] other [of i st'] by (cases "i = nid") auto
  qed simp
  have reach: "nid \<in> set ids \<Longrightarrow> find_contact nid (st_data st') = Some c \<Longrightarrow>
      find_contact nid (st_data (fold ?step ids st')) = Some ?c" for ids st'
  proof (induction ids arbitrary: st')
    case (Cons i ids)
    then show ?case using own [of st'] other [of i st'] keep by (cases "i = nid") auto
  qed simp
  have "c \<in> set (st_data st) \<and> c_node_id c = nid"
    using assms(1) by (auto simp: find_contact_def find_Some_iff)
  then have "nid \<in> set (map c_node_id (filter (\<lambda>c. c_status c = ''pending'') (st_data st)))"
    using assms(2) by force
  then show ?thesis unfolding verifier_tick_def using reach assms(1) by blast
qed

end
