(* ===== verification/Files.thy ===== *)
theory Files
  imports Prelude
begin

text \<open>The file system the sources see through @<std::fs>: a finite map from absolute paths (lists
  of names, the drive prefix being the first) to files, directories and links, with the
  operations the share, the inbox and the stores use, and the parsing of a relative path into
  components as @<std::path> does it on Windows. Names compare exactly; a link holds the absolute
  path it leads to; @<fs_denied> lists the paths the operating system refuses to read.\<close>

type_synonym path = "string list"

datatype fnode = FFile bytes "u64 option" | FDir "u64 option" | FLink path

record fsys =
  fs_nodes :: "(path \<times> fnode) list"
  fs_denied :: "path list"

definition fs_get :: "fsys \<Rightarrow> path \<Rightarrow> fnode option" where
  "fs_get fs p = (if p = [] then Some (FDir None) else map_of (fs_nodes fs) p)"

definition fs_ok :: "fsys \<Rightarrow> bool" where
  "fs_ok fs \<longleftrightarrow> distinct (map fst (fs_nodes fs))"

section \<open>Path components\<close>

datatype component = Prefix string | RootDir | CurDir | ParentDir | Normal string

definition is_sep :: "char \<Rightarrow> bool" where
  "is_sep c \<longleftrightarrow> c = CHR ''/'' \<or> c = CHR 0x5C"

fun segments :: "string \<Rightarrow> string list" where
  "segments [] = [[]]"
| "segments (c # s) = (if is_sep c then [] # segments s
     else (case segments s of [] \<Rightarrow> [[c]] | w # ws \<Rightarrow> (c # w) # ws))"

definition seg_component :: "string \<Rightarrow> component list" where
  "seg_component w = (if w = [] \<or> w = ''.'' then []
     else if w = ''..'' then [ParentDir] else [Normal w])"

definition body_components :: "string \<Rightarrow> component list" where
  "body_components s = concat (map seg_component (segments s))"

definition is_letter :: "char \<Rightarrow> bool" where
  "is_letter c \<longleftrightarrow> (65 \<le> byte_of c \<and> byte_of c \<le> 90) \<or> (97 \<le> byte_of c \<and> byte_of c \<le> 122)"

text \<open>A path may open with a drive letter or two separators (a prefix) and then a separator (the
  root); a leading dot segment is kept, inner ones vanish with empty segments.\<close>

definition components :: "string \<Rightarrow> component list" where
  "components s = (case s of
     c # d # r \<Rightarrow>
       if is_letter c \<and> d = CHR '':'' then
         Prefix [c, d] # (case r of e # r' \<Rightarrow> if is_sep e then RootDir # body_components r'
                                              else body_components r | [] \<Rightarrow> [])
       else if is_sep c \<and> is_sep d then Prefix [c, d] # body_components r
       else if is_sep c then RootDir # body_components (d # r)
       else if hd (segments s) = ''.'' then CurDir # body_components s
       else body_components s
   | [c] \<Rightarrow> if is_sep c then [RootDir] else if s = ''.'' then [CurDir] else body_components s
   | [] \<Rightarrow> [])"

definition is_absolute :: "string \<Rightarrow> bool" where
  "is_absolute s = (case components s of
     Prefix p # RootDir # _ \<Rightarrow> True | Prefix p # _ \<Rightarrow> p \<noteq> [] \<and> is_sep (hd p) | _ \<Rightarrow> False)"

fun normals :: "component list \<Rightarrow> path" where
  "normals [] = []"
| "normals (Normal w # cs) = w # normals cs"
| "normals (_ # cs) = normals cs"

section \<open>Canonical paths\<close>

text \<open>@<canonicalize>: every component is looked up, links are followed (with a budget, as the
  operating system has), and the result exists and goes through no link.\<close>

definition LINK_BUDGET :: nat where "LINK_BUDGET = 40"

function walk :: "fsys \<Rightarrow> nat \<Rightarrow> path \<Rightarrow> path \<Rightarrow> path option" where
  "walk fs n done [] = Some done"
| "walk fs n done (c # cs) = (case fs_get fs (done @ [c]) of
     None \<Rightarrow> None
   | Some (FLink t) \<Rightarrow> (if n = 0 then None else walk fs (n - 1) [] (t @ cs))
   | Some (FDir m) \<Rightarrow> walk fs n (done @ [c]) cs
   | Some (FFile b m) \<Rightarrow> if cs = [] then Some (done @ [c]) else None)"
  by pat_completeness auto
termination
  by (relation "measures [\<lambda>(fs, n, done, cs). n, \<lambda>(fs, n, done, cs). length cs]") auto

definition canon :: "fsys \<Rightarrow> path \<Rightarrow> path option" where
  "canon fs p = walk fs LINK_BUDGET [] p"

text \<open>Every proper prefix of the path is a directory and the path itself is no link.\<close>

definition dirs_to :: "fsys \<Rightarrow> path \<Rightarrow> bool" where
  "dirs_to fs p \<longleftrightarrow> (\<forall>k < length p. \<exists>m. fs_get fs (take k p) = Some (FDir m))"

definition solid :: "fsys \<Rightarrow> path \<Rightarrow> bool" where
  "solid fs p \<longleftrightarrow> dirs_to fs p \<and> (\<exists>n. fs_get fs p = Some n \<and> (\<forall>t. n \<noteq> FLink t))"

lemma solid_Nil [simp]: "solid fs []"
  by (simp add: solid_def dirs_to_def fs_get_def)

lemma dirs_to_snoc: "dirs_to fs (p @ [c]) \<longleftrightarrow> dirs_to fs p \<and> (\<exists>m. fs_get fs p = Some (FDir m))"
  by (auto simp: dirs_to_def less_Suc_eq)

lemma walk_solid:
  "walk fs n done cs = Some q \<Longrightarrow> solid fs done \<Longrightarrow>
    (\<exists>m. fs_get fs done = Some (FDir m)) \<Longrightarrow> solid fs q"
proof (induction fs n "done" cs rule: walk.induct)
  case (2 fs n "done" c cs)
  have d: "dirs_to fs (done @ [c])" using 2 by (simp add: dirs_to_snoc solid_def)
  show ?case
  proof (cases "fs_get fs (done @ [c])")
    case (Some nd)
    show ?thesis
    proof (cases nd)
      case (FFile b m)
      then show ?thesis using 2 Some d by (auto simp: solid_def split: if_splits)
    next
      case (FDir m)
      then show ?thesis using 2 Some d by (auto simp: solid_def)
    next
      case (FLink t)
      then show ?thesis using 2 Some by (auto simp: fs_get_def split: if_splits)
    qed
  qed (use 2 in simp)
qed simp

lemma canon_solid: "canon fs p = Some q \<Longrightarrow> solid fs q"
  unfolding canon_def by (erule walk_solid) (simp_all add: fs_get_def)

lemma walk_dirs:
  "dirs_to fs (done @ cs) \<Longrightarrow> walk fs n done (cs @ es) = walk fs n (done @ cs) es
     \<or> (cs \<noteq> [] \<and> \<not> (\<exists>m. fs_get fs (done @ cs) = Some (FDir m)))"
proof (induction cs arbitrary: "done")
  case (Cons c cs)
  show ?case
  proof (cases "\<exists>m. fs_get fs (done @ [c]) = Some (FDir m)")
    case True
    then show ?thesis using Cons.IH [of "done @ [c]"] Cons.prems by auto
  next
    case False
    then have "cs = []"
      using Cons.prems unfolding dirs_to_def
      by (cases cs) (auto dest!: spec [where x = "Suc (length done)"])
    then show ?thesis using False by simp
  qed
qed simp

lemma walk_prefix_dir:
  assumes "dirs_to fs p" "fs_get fs p = Some (FDir m)"
  shows "walk fs n [] (p @ es) = walk fs n p es"
  using walk_dirs [of fs "[]" p n es] assms by auto

lemma solid_canon: "solid fs p \<Longrightarrow> canon fs p = Some p"
proof (cases p rule: rev_cases)
  case (snoc q c)
  assume "solid fs p"
  then have d: "dirs_to fs q" "\<exists>m. fs_get fs q = Some (FDir m)"
    and n: "\<exists>n. fs_get fs (q @ [c]) = Some n \<and> (\<forall>t. n \<noteq> FLink t)"
    using snoc by (auto simp: solid_def dirs_to_snoc)
  have "canon fs p = walk fs LINK_BUDGET q [c]"
    using walk_prefix_dir d snoc unfolding canon_def by blast
  then show ?thesis using n snoc by (auto split: fnode.split)
qed (simp add: canon_def)

text \<open>What the users of @<canonicalize> rely on.\<close>

locale canonical_paths =
  fixes canonicalize :: "path \<Rightarrow> path option"
  assumes canon_idem: "canonicalize p = Some q \<Longrightarrow> canonicalize q = Some q"
begin

definition confined :: "path \<Rightarrow> path \<Rightarrow> path option" where
  "confined root p = (case canonicalize p of
     None \<Rightarrow> None | Some q \<Rightarrow> if prefix root q then Some q else None)"

lemma confined_inside: "confined root p = Some q \<Longrightarrow> prefix root q"
  by (auto simp: confined_def split: option.splits if_splits)

lemma confined_stable: "confined root p = Some q \<Longrightarrow> confined root q = Some q"
  using canon_idem by (auto simp: confined_def split: option.splits if_splits)

lemma confined_below: "confined root p = Some q \<Longrightarrow> prefix r root \<Longrightarrow> confined r p = Some q"
  by (auto simp: confined_def split: option.splits if_splits)

end

interpretation cp: canonical_paths "canon fs" for fs
  by unfold_locales (blast dest: canon_solid intro: solid_canon)

section \<open>Reading\<close>

definition path_exists :: "fsys \<Rightarrow> path \<Rightarrow> bool" where
  "path_exists fs p \<longleftrightarrow> canon fs p \<noteq> None"

definition metadata :: "fsys \<Rightarrow> path \<Rightarrow> fnode option" where
  "metadata fs p = (case canon fs p of
     None \<Rightarrow> None | Some q \<Rightarrow> if q \<in> set (fs_denied fs) then None else fs_get fs q)"

definition symlink_metadata :: "fsys \<Rightarrow> path \<Rightarrow> fnode option" where
  "symlink_metadata fs p = (if p = [] then fs_get fs p
     else (case canon fs (butlast p) of
       None \<Rightarrow> None
     | Some d \<Rightarrow> if d @ [last p] \<in> set (fs_denied fs) then None else fs_get fs (d @ [last p])))"

fun node_is_dir :: "fnode \<Rightarrow> bool" where
  "node_is_dir (FDir m) = True"
| "node_is_dir _ = False"

fun node_is_file :: "fnode \<Rightarrow> bool" where
  "node_is_file (FFile b m) = True"
| "node_is_file _ = False"

fun node_is_link :: "fnode \<Rightarrow> bool" where
  "node_is_link (FLink t) = True"
| "node_is_link _ = False"

fun node_len :: "fnode \<Rightarrow> u64" where
  "node_len (FFile b m) = of_nat (length b)"
| "node_len _ = 0"

fun node_mtime :: "fnode \<Rightarrow> u64 option" where
  "node_mtime (FFile b m) = m"
| "node_mtime (FDir m) = m"
| "node_mtime (FLink t) = None"

definition read_file :: "fsys \<Rightarrow> path \<Rightarrow> bytes option" where
  "read_file fs p = (case metadata fs p of Some (FFile b m) \<Rightarrow> Some b | _ \<Rightarrow> None)"

text \<open>The entries of a directory, in the order the file system yields them: name and node, links
  not followed. @<None> when the directory cannot be read. Asking an entry for its metadata is a
  second step, which may be refused.\<close>

definition child_of :: "path \<Rightarrow> path \<Rightarrow> bool" where
  "child_of d p \<longleftrightarrow> p \<noteq> [] \<and> butlast p = d"

definition children :: "fsys \<Rightarrow> path \<Rightarrow> (string \<times> fnode) list" where
  "children fs d = map (\<lambda>(p, n). (last p, n)) (filter (\<lambda>(p, n). child_of d p) (fs_nodes fs))"

definition read_dir :: "fsys \<Rightarrow> path \<Rightarrow> (string \<times> fnode) list option" where
  "read_dir fs p = (case canon fs p of
     None \<Rightarrow> None
   | Some d \<Rightarrow>
     if d \<in> set (fs_denied fs) then None
     else (case fs_get fs d of
       Some (FDir m) \<Rightarrow> Some (children fs d)
     | _ \<Rightarrow> None))"

definition entries_readable :: "fsys \<Rightarrow> path \<Rightarrow> (string \<times> fnode) list \<Rightarrow> bool" where
  "entries_readable fs d es = list_all (\<lambda>e. d @ [fst e] \<notin> set (fs_denied fs)) es"

lemma children_get:
  assumes "fs_ok fs" "(w, n) \<in> set (children fs d)"
  shows "fs_get fs (d @ [w]) = Some n"
proof -
  obtain p where p: "(p, n) \<in> set (fs_nodes fs)" "p \<noteq> []" "butlast p = d" "last p = w"
    using assms(2) by (auto simp: children_def child_of_def)
  have "p = d @ [w]" using p by (metis append_butlast_last_id)
  then show ?thesis
    using p(1) assms(1) by (simp add: fs_get_def fs_ok_def)
qed

section \<open>Writing\<close>

text \<open>The outcome of one operation that changes the disk: done, or refused with the error code of
  the operating system after @<torn> bytes of a write.\<close>

datatype io_out = Done | Refused "int option" nat

definition fs_put :: "path \<Rightarrow> fnode \<Rightarrow> fsys \<Rightarrow> fsys" where
  "fs_put p n fs = fs\<lparr>fs_nodes := AList.update p n (fs_nodes fs)\<rparr>"

definition fs_del :: "path \<Rightarrow> fsys \<Rightarrow> fsys" where
  "fs_del p fs = fs\<lparr>fs_nodes := filter (\<lambda>e. fst e \<noteq> p) (fs_nodes fs)\<rparr>"

definition fs_del_tree :: "path \<Rightarrow> fsys \<Rightarrow> fsys" where
  "fs_del_tree p fs = fs\<lparr>fs_nodes := filter (\<lambda>e. \<not> prefix p (fst e)) (fs_nodes fs)\<rparr>"

text \<open>Where a write to a path goes: the file it leads to, or a new file in its directory.\<close>

definition write_target :: "fsys \<Rightarrow> path \<Rightarrow> path option" where
  "write_target fs p = (case canon fs p of
     Some q \<Rightarrow> (case fs_get fs q of Some (FFile b m) \<Rightarrow> Some q | _ \<Rightarrow> None)
   | None \<Rightarrow> (if p = [] then None else (case canon fs (butlast p) of
       None \<Rightarrow> None
     | Some d \<Rightarrow> (case fs_get fs d of
         Some (FDir m) \<Rightarrow> if fs_get fs (d @ [last p]) = None then Some (d @ [last p]) else None
       | _ \<Rightarrow> None))))"

definition fs_write :: "io_out \<Rightarrow> u64 \<Rightarrow> path \<Rightarrow> bytes \<Rightarrow> fsys \<Rightarrow> bool \<times> fsys" where
  "fs_write io now p b fs = (case write_target fs p of
     None \<Rightarrow> (False, fs)
   | Some q \<Rightarrow> (case io of
       Done \<Rightarrow> (True, fs_put q (FFile b (Some now)) fs)
     | Refused c torn \<Rightarrow>
         if torn = 0 then (False, fs)
         else (False, fs_put q (FFile (take torn b) (Some now)) fs)))"

definition fs_rename :: "io_out \<Rightarrow> path \<Rightarrow> path \<Rightarrow> fsys \<Rightarrow> (int option + unit) \<times> fsys" where
  "fs_rename io p q fs = (case io of
     Refused c torn \<Rightarrow> (Inl c, fs)
   | Done \<Rightarrow> (case fs_get fs p of
       Some (FFile b m) \<Rightarrow>
         (case fs_get fs q of
           Some (FDir m') \<Rightarrow> (Inl (Some 5), fs)
         | _ \<Rightarrow> (Inr (), fs_put q (FFile b m) (fs_del p fs)))
     | _ \<Rightarrow> (Inl (Some 2), fs)))"

definition fs_remove_file :: "io_out \<Rightarrow> path \<Rightarrow> fsys \<Rightarrow> bool \<times> fsys" where
  "fs_remove_file io p fs = (case io of
     Refused c torn \<Rightarrow> (False, fs)
   | Done \<Rightarrow> (case fs_get fs p of
       Some (FDir m) \<Rightarrow> (False, fs) | None \<Rightarrow> (False, fs) | _ \<Rightarrow> (True, fs_del p fs)))"

text \<open>Creating a directory with its missing parents, and removing one with all it holds: a removal
  that fails has already removed @<torn> of the entries.\<close>

definition fs_create_dir_all :: "io_out \<Rightarrow> u64 \<Rightarrow> path \<Rightarrow> fsys \<Rightarrow> bool \<times> fsys" where
  "fs_create_dir_all io now p fs = (case io of
     Refused c torn \<Rightarrow> (False, fs)
   | Done \<Rightarrow>
     if \<exists>k \<in> set [1 ..< Suc (length p)]. (case fs_get fs (take k p) of
          Some (FFile b m) \<Rightarrow> True | _ \<Rightarrow> False) then (False, fs)
     else (True, fold (\<lambda>k f. if fs_get f (take k p) = None
          then fs_put (take k p) (FDir (Some now)) f else f) [1 ..< Suc (length p)] fs))"

definition fs_remove_dir_all :: "io_out \<Rightarrow> path \<Rightarrow> fsys \<Rightarrow> bool \<times> fsys" where
  "fs_remove_dir_all io p fs = (case io of
     Done \<Rightarrow> (True, fs_del_tree p fs)
   | Refused c torn \<Rightarrow>
     (False, fold fs_del (take torn (filter (\<lambda>q. prefix p q \<and> q \<noteq> p) (map fst (fs_nodes fs)))) fs))"

lemma fs_get_put [simp]:
  "q \<noteq> [] \<Longrightarrow> fs_get (fs_put q n fs) p = (if p = q then Some n else fs_get fs p)"
  by (simp add: fs_get_def fs_put_def update_conv)

lemma map_of_filter_key: "map_of (filter (\<lambda>e. P (fst e)) xs) k = (if P k then map_of xs k else None)"
  by (induction xs) auto

lemma fs_get_del [simp]: "p \<noteq> [] \<Longrightarrow> fs_get (fs_del p fs) q = (if q = p then None else fs_get fs q)"
  by (simp add: fs_get_def fs_del_def map_of_filter_key [where P = "\<lambda>k. k \<noteq> p"])

lemma fs_get_del_tree [simp]:
  "p \<noteq> [] \<Longrightarrow> fs_get (fs_del_tree p fs) q = (if prefix p q then None else fs_get fs q)"
  by (auto simp: fs_get_def fs_del_tree_def map_of_filter_key [where P = "\<lambda>k. \<not> prefix p k"])

lemma fs_get_fold_del:
  "[] \<notin> set ps \<Longrightarrow> fs_get (fold fs_del ps fs) q = (if q \<in> set ps then None else fs_get fs q)"
proof (induction ps arbitrary: fs)
  case (Cons p ps)
  then have "p \<noteq> []" "[] \<notin> set ps" by auto
  then show ?case using Cons.IH [of "fs_del p fs"] by auto
qed simp

lemma fs_remove_dir_all_frame:
  "p \<noteq> [] \<Longrightarrow> \<not> prefix p q \<Longrightarrow> fs_get (snd (fs_remove_dir_all io p fs)) q = fs_get fs q"
proof (cases io)
  case (Refused c torn)
  assume p: "p \<noteq> []" "\<not> prefix p q"
  let ?ps = "take torn (filter (\<lambda>q. prefix p q \<and> q \<noteq> p) (map fst (fs_nodes fs)))"
  have "[] \<notin> set ?ps" "q \<notin> set ?ps" using p by (auto dest!: in_set_takeD)
  then show ?thesis by (simp add: fs_remove_dir_all_def Refused fs_get_fold_del)
qed (simp add: fs_remove_dir_all_def)

lemma fs_remove_file_frame:
  "p \<noteq> [] \<Longrightarrow> q \<noteq> p \<Longrightarrow> fs_get (snd (fs_remove_file io p fs)) q = fs_get fs q"
  by (auto simp: fs_remove_file_def split: io_out.split option.split fnode.split)

lemma fs_ok_put [simp]: "fs_ok fs \<Longrightarrow> fs_ok (fs_put p n fs)"
  by (simp add: fs_ok_def fs_put_def distinct_update)

lemma fs_ok_del [simp]: "fs_ok fs \<Longrightarrow> fs_ok (fs_del p fs)"
  by (simp add: fs_ok_def fs_del_def distinct_map_filter)

lemma fs_ok_del_tree [simp]: "fs_ok fs \<Longrightarrow> fs_ok (fs_del_tree p fs)"
  by (simp add: fs_ok_def fs_del_tree_def distinct_map_filter)

lemma fs_denied_simps [simp]:
  "fs_denied (fs_put p n fs) = fs_denied fs" "fs_denied (fs_del p fs) = fs_denied fs"
  "fs_denied (fs_del_tree p fs) = fs_denied fs"
  by (simp_all add: fs_put_def fs_del_def fs_del_tree_def)

lemma canon_child:
  assumes "solid fs d" "fs_get fs d = Some (FDir m)"
  shows "canon fs (d @ [w]) = (case fs_get fs (d @ [w]) of
    None \<Rightarrow> None | Some (FLink t) \<Rightarrow> walk fs (LINK_BUDGET - 1) [] t | Some n \<Rightarrow> Some (d @ [w]))"
proof -
  have "canon fs (d @ [w]) = walk fs LINK_BUDGET d [w]"
    using assms walk_prefix_dir unfolding canon_def solid_def by blast
  then show ?thesis by (auto simp: LINK_BUDGET_def split: option.split fnode.split)
qed

section \<open>Directories without links\<close>

definition no_links_below :: "fsys \<Rightarrow> path \<Rightarrow> bool" where
  "no_links_below fs root \<longleftrightarrow> list_all (\<lambda>(p, n). prefix root p \<longrightarrow> \<not> node_is_link n) (fs_nodes fs)"

lemma no_links_get:
  "no_links_below fs root \<Longrightarrow> prefix root p \<Longrightarrow> fs_get fs p = Some n \<Longrightarrow> \<not> node_is_link n"
proof (cases "p = []")
  case False
  assume l: "no_links_below fs root" and p: "prefix root p" and g: "fs_get fs p = Some n"
  have "(p, n) \<in> set (fs_nodes fs)" using g False by (simp add: fs_get_def map_of_SomeD)
  with l have "prefix root p \<longrightarrow> \<not> node_is_link n"
    unfolding no_links_below_def list_all_iff by (drule_tac bspec) auto
  with p show ?thesis by simp
qed (auto simp: fs_get_def)

lemma walk_no_links:
  "no_links_below fs root \<Longrightarrow> prefix root done \<Longrightarrow> walk fs n done cs = Some q \<Longrightarrow> q = done @ cs"
proof (induction fs n "done" cs rule: walk.induct)
  case (2 fs n "done" c cs)
  have pre: "prefix root (done @ [c])" using 2(4) by (rule prefix_prefix)
  show ?case
  proof (cases "fs_get fs (done @ [c])")
    case (Some nd)
    then have "\<not> node_is_link nd" using no_links_get 2(3) pre by blast
    then show ?thesis using 2 Some pre by (cases nd) (auto split: if_splits)
  qed (use 2 in simp)
qed simp

lemma write_target_child:
  assumes "solid fs d" "fs_get fs d = Some (FDir m)" "no_links_below fs d"
    "write_target fs (d @ [w]) = Some q"
  shows "q = d @ [w]"
proof -
  have d: "canon fs d = Some d" by (rule solid_canon [OF assms(1)])
  have "\<not> node_is_link n" if "fs_get fs (d @ [w]) = Some n" for n
    using no_links_get [OF assms(3) _ that] by simp
  then show ?thesis
    using assms(4) d canon_child [OF assms(1,2), of w]
    by (auto simp: write_target_def split: option.splits fnode.splits if_splits)
qed

lemma write_child_frame:
  assumes "solid fs d" "fs_get fs d = Some (FDir m)" "no_links_below fs d" "q \<noteq> d @ [w]"
  shows "fs_get (snd (fs_write io now (d @ [w]) b fs)) q = fs_get fs q"
  using assms(4)
  by (auto simp: fs_write_def dest!: write_target_child [OF assms(1-3)] split: option.split io_out.split)

lemma write_ok_get:
  assumes "solid fs d" "fs_get fs d = Some (FDir m)" "no_links_below fs d"
    "fs_write io now (d @ [w]) b fs = (True, fs')"
  shows "fs_get fs' (d @ [w]) = Some (FFile b (Some now))"
  using write_target_child [OF assms(1-3)] assms(4)
  by (fastforce simp: fs_write_def split: option.splits io_out.splits if_splits)

lemma rename_frame:
  "p \<noteq> [] \<Longrightarrow> p' \<noteq> [] \<Longrightarrow> q \<noteq> p \<Longrightarrow> q \<noteq> p' \<Longrightarrow>
    fs_get (snd (fs_rename io p p' fs)) q = fs_get fs q"
  by (auto simp: fs_rename_def split: io_out.split option.split fnode.split)

lemma rename_ok:
  "p \<noteq> [] \<Longrightarrow> p' \<noteq> [] \<Longrightarrow> fs_rename io p p' fs = (Inr u, fs') \<Longrightarrow>
    \<exists>b m. fs_get fs p = Some (FFile b m) \<and> fs_get fs' p' = Some (FFile b m)"
  by (auto simp: fs_rename_def split: io_out.splits option.splits fnode.splits)

text \<open>Changing only files directly below a directory keeps it a directory reached without links.\<close>

lemma no_links_put: "no_links_below fs d \<Longrightarrow> no_links_below (fs_put p (FFile b m) fs) d"
proof -
  have "set (AList.update p (FFile b m) xs) \<subseteq> insert (p, FFile b m) (set xs)" for xs
    by (induction xs) auto
  then show "no_links_below fs d \<Longrightarrow> no_links_below (fs_put p (FFile b m) fs) d"
    by (fastforce simp: no_links_below_def list_all_iff fs_put_def)
qed

lemma no_links_del: "no_links_below fs d \<Longrightarrow> no_links_below (fs_del p fs) d"
  by (auto simp: no_links_below_def list_all_iff fs_del_def)

lemma no_links_write:
  "no_links_below fs d \<Longrightarrow> no_links_below (snd (fs_write io now p b fs)) d"
  by (auto simp: fs_write_def no_links_put split: option.split io_out.split)

lemma no_links_rename:
  "no_links_below fs d \<Longrightarrow> no_links_below (snd (fs_rename io p q fs)) d"
  by (auto simp: fs_rename_def no_links_put no_links_del split: io_out.split option.split fnode.split)

lemma solid_frame:
  assumes "solid fs d" "\<And>k. k \<le> length d \<Longrightarrow> fs_get fs' (take k d) = fs_get fs (take k d)"
  shows "solid fs' d"
  using assms(1) assms(2) assms(2) [of "length d"] unfolding solid_def dirs_to_def by auto

lemma take_neq_child: "take k d \<noteq> d @ [w]"
proof
  assume "take k d = d @ [w]"
  then have "length (take k d) = Suc (length d)" by simp
  then show False by simp
qed

section \<open>Reading back what was written\<close>

lemma walk_then:
  "walk fs n done cs = Some d \<Longrightarrow> fs_get fs d = Some (FDir m) \<Longrightarrow>
    \<exists>n'. walk fs n done (cs @ es) = walk fs n' d es"
proof (induction fs n "done" cs rule: walk.induct)
  case (2 fs n "done" c cs)
  then show ?case by (auto split: option.splits fnode.splits if_splits)
qed auto

text \<open>A change that keeps directories and links and replaces files by files only keeps every path.\<close>

definition grows :: "fsys \<Rightarrow> fsys \<Rightarrow> bool" where
  "grows fs fs' \<longleftrightarrow> (\<forall>p n. fs_get fs p = Some n \<longrightarrow>
     (if node_is_file n then \<exists>b m. fs_get fs' p = Some (FFile b m) else fs_get fs' p = Some n))"

lemma growsD:
  "grows fs fs' \<Longrightarrow> fs_get fs p = Some (FDir m) \<Longrightarrow> fs_get fs' p = Some (FDir m)"
  "grows fs fs' \<Longrightarrow> fs_get fs p = Some (FLink t) \<Longrightarrow> fs_get fs' p = Some (FLink t)"
  "grows fs fs' \<Longrightarrow> fs_get fs p = Some (FFile b k) \<Longrightarrow> \<exists>b' k'. fs_get fs' p = Some (FFile b' k')"
  unfolding grows_def by (drule spec, drule spec, drule (1) mp, simp)+

lemma grows_refl [simp]: "grows fs fs"
  by (auto simp: grows_def elim: node_is_file.elims)

lemma grows_trans:
  assumes "grows fs fs'" "grows fs' fs''"
  shows "grows fs fs''"
  unfolding grows_def
proof (intro allI impI)
  fix p n assume "fs_get fs p = Some n"
  then show "if node_is_file n then \<exists>b m. fs_get fs'' p = Some (FFile b m) else fs_get fs'' p = Some n"
    by (cases n) (auto dest!: growsD [OF assms(1)] growsD [OF assms(2)])
qed

lemma grows_put_file:
  "q \<noteq> [] \<Longrightarrow> (\<And>nd. fs_get fs q = Some nd \<Longrightarrow> node_is_file nd) \<Longrightarrow> grows fs (fs_put q (FFile b m) fs)"
  unfolding grows_def by (auto elim: node_is_file.elims)

lemma grows_put_new: "q \<noteq> [] \<Longrightarrow> fs_get fs q = None \<Longrightarrow> grows fs (fs_put q n fs)"
  unfolding grows_def by (auto elim: node_is_file.elims)

lemma walk_grows:
  "walk fs n done cs = Some r \<Longrightarrow> grows fs fs' \<Longrightarrow> walk fs' n done cs = Some r"
proof (induction fs n "done" cs rule: walk.induct)
  case (2 fs n "done" c cs)
  then show ?case
    by (cases "fs_get fs (done @ [c])") (auto split: fnode.splits if_splits dest: growsD)
qed simp

lemma canon_grows: "canon fs p = Some q \<Longrightarrow> grows fs fs' \<Longrightarrow> canon fs' p = Some q"
  unfolding canon_def by (rule walk_grows)

lemma write_target_file:
  assumes "write_target fs p = Some q"
  shows "q \<noteq> []" "fs_get fs q = Some nd \<Longrightarrow> node_is_file nd"
    "canon (fs_put q (FFile b m) fs) p = Some q"
proof -
  show q: "q \<noteq> []" using assms
    by (auto simp: write_target_def fs_get_def split: option.splits fnode.splits if_splits)
  have f: "node_is_file nd" if "fs_get fs q = Some nd" for nd using assms that
    by (auto simp: write_target_def split: option.splits fnode.splits if_splits)
  then show "fs_get fs q = Some nd \<Longrightarrow> node_is_file nd" .
  let ?fs = "fs_put q (FFile b m) fs"
  have g: "grows fs ?fs" by (rule grows_put_file [OF q f])
  show "canon ?fs p = Some q"
  proof (cases "canon fs p")
    case None
    then obtain d mt where d: "p \<noteq> []" "canon fs (butlast p) = Some d" "fs_get fs d = Some (FDir mt)"
      "q = d @ [last p]" "fs_get fs q = None"
      using assms by (auto simp: write_target_def split: option.splits fnode.splits if_splits)
    have "d \<noteq> q" using d(4) by simp
    then have "fs_get ?fs d = Some (FDir mt)" using q d(3) by simp
    moreover have "walk ?fs LINK_BUDGET [] (butlast p) = Some d"
      using canon_grows [OF d(2) g] by (simp add: canon_def)
    ultimately obtain n' where "walk ?fs LINK_BUDGET [] (butlast p @ [last p]) = walk ?fs n' d [last p]"
      using walk_then by blast
    then show ?thesis using d(1,4) q by (simp add: canon_def)
  next
    case (Some r)
    then have "r = q" using assms by (auto simp: write_target_def split: option.splits fnode.splits)
    then show ?thesis using canon_grows [OF Some g] by simp
  qed
qed

lemma read_after_write:
  assumes "fs_write io now p b fs = (True, fs')" "fs_denied fs = []"
  shows "read_file fs' p = Some b" "canon fs' p \<noteq> None"
proof -
  obtain q where q: "write_target fs p = Some q" "fs' = fs_put q (FFile b (Some now)) fs"
    using assms(1) by (auto simp: fs_write_def split: option.splits io_out.splits if_splits)
  then show "read_file fs' p = Some b" "canon fs' p \<noteq> None"
    using write_target_file [OF q(1)] assms(2) by (simp_all add: read_file_def metadata_def)
qed

lemma grows_write: "grows fs (snd (fs_write io now p b fs))"
  using write_target_file(1,2) [of fs p]
  by (auto simp: fs_write_def intro!: grows_put_file split: option.split io_out.split)

text \<open>Creating directories adds nodes and changes none.\<close>

lemma create_dirs_keeps:
  "fs_get fs q = Some n \<Longrightarrow> fs_get (snd (fs_create_dir_all io now p fs)) q = Some n"
  "fs_denied (snd (fs_create_dir_all io now p fs)) = fs_denied fs"
proof -
  let ?add = "\<lambda>k f. if fs_get f (take k p) = None then fs_put (take k p) (FDir (Some now)) f else f"
  have one: "fs_get (?add k fs) q = Some n" if "fs_get fs q = Some n" for k fs
  proof (rule case_split [of "fs_get fs (take k p) = None"])
    assume t: "fs_get fs (take k p) = None"
    then have "take k p \<noteq> []" "take k p \<noteq> q" using that by (metis fs_get_def option.distinct(1))+
    then show ?thesis using t that by simp
  next
    assume "fs_get fs (take k p) \<noteq> None"
    then show ?thesis using that by (simp only: if_False)
  qed
  have f: "fs_get fs q = Some n \<Longrightarrow> fs_get (fold ?add ks fs) q = Some n" for ks
    by (induction ks arbitrary: fs) (simp, metis (no_types, lifting) fold_simps(2) one)
  show "fs_get fs q = Some n \<Longrightarrow> fs_get (snd (fs_create_dir_all io now p fs)) q = Some n"
    using f [of "[1 ..< Suc (length p)]"] by (cases io) (simp_all add: fs_create_dir_all_def del: upt_Suc)
  have d: "fs_denied (fold ?add ks fs) = fs_denied fs" for ks
    by (induction ks arbitrary: fs) auto
  show "fs_denied (snd (fs_create_dir_all io now p fs)) = fs_denied fs"
    using d [of "[1 ..< Suc (length p)]"] by (cases io) (simp_all add: fs_create_dir_all_def del: upt_Suc)
qed

lemma grows_create_dirs: "grows fs (snd (fs_create_dir_all io now p fs))"
  using create_dirs_keeps(1) by (auto simp: grows_def elim: node_is_file.elims)

end
