(* ===== verification/Share.thy ===== *)
theory Share
  imports Prelude Externals Protocol Files
begin

text \<open>The published folder of @<doclinkd/src/share.rs>: resolving a relative path under the share
  root, listing one directory, deleting an entry. The root is canonical by construction.\<close>

section \<open>Operations\<close>

datatype share_error = OutsideRoot | NotFound string | IsRoot | Io

record share_root =
  sh_root :: path

definition share_new :: "io_out \<Rightarrow> u64 \<Rightarrow> path \<Rightarrow> fsys \<Rightarrow> (share_error + share_root) \<times> fsys" where
  "share_new io now p fs = (let (ok, fs') = fs_create_dir_all io now p fs in
     if \<not> ok then (Inl Io, fs')
     else (case canon fs' p of
       None \<Rightarrow> (Inl Io, fs') | Some q \<Rightarrow> (Inr \<lparr>sh_root = q\<rparr>, fs')))"

fun escapes :: "component \<Rightarrow> bool" where
  "escapes ParentDir = True"
| "escapes RootDir = True"
| "escapes (Prefix p) = True"
| "escapes _ = False"

definition resolve :: "fsys \<Rightarrow> share_root \<Rightarrow> string \<Rightarrow> share_error + path" where
  "resolve fs r rel = (let
     suspicious = CHR '':'' \<in> set rel \<or> is_absolute rel \<or> list_ex escapes (components rel)
   in if suspicious then Inl OutsideRoot
      else (case canon fs (sh_root r @ normals (components rel)) of
        None \<Rightarrow> Inl (NotFound rel)
      | Some candidate \<Rightarrow>
        if \<not> prefix (sh_root r) candidate then Inl OutsideRoot else Inr candidate))"

definition entry_of :: "string \<Rightarrow> string \<times> fnode \<Rightarrow> dir_entry" where
  "entry_of rel e = (let (w, nd) = e in
     \<lparr>de_name = w, de_path = (if rel = [] then w else rel @ ''/'' @ w),
      de_kind = (if node_is_dir nd then Dir else File),
      de_size = node_len nd, de_modified_unix = node_mtime nd\<rparr>)"

definition listing_key :: "ext \<Rightarrow> dir_entry \<Rightarrow> bool \<times> string" where
  "listing_key x e = (de_kind e = File, x_to_lower x (de_name e))"

definition share_list :: "ext \<Rightarrow> fsys \<Rightarrow> share_root \<Rightarrow> string \<Rightarrow> share_error + dir_entry list" where
  "share_list x fs r rel = (case resolve fs r rel of
     Inl e \<Rightarrow> Inl e
   | Inr dir \<Rightarrow> (case read_dir fs dir of
       None \<Rightarrow> Inl Io
     | Some es \<Rightarrow>
       if \<not> entries_readable fs dir es then Inl Io
       else Inr (sort_key (listing_key x) (map (entry_of rel) es))))"

definition share_list_sync :: "ext \<Rightarrow> fsys \<Rightarrow> share_root \<Rightarrow> string \<Rightarrow> share_error + dir_entry list" where
  "share_list_sync x fs r rel = (case resolve fs r rel of
     Inl e \<Rightarrow> Inl e
   | Inr dir \<Rightarrow> (case read_dir fs dir of
       None \<Rightarrow> Inl Io
     | Some es \<Rightarrow>
       if \<not> entries_readable fs dir es then Inl Io
       else Inr (sort_key (listing_key x) (map (entry_of rel) es))))"

definition share_delete :: "io_out \<Rightarrow> share_root \<Rightarrow> string \<Rightarrow> fsys \<Rightarrow> (share_error + unit) \<times> fsys" where
  "share_delete io r rel fs =
     (if rel = [] then (Inl IsRoot, fs)
      else (case resolve fs r rel of
        Inl e \<Rightarrow> (Inl e, fs)
      | Inr p \<Rightarrow>
        if p = sh_root r then (Inl IsRoot, fs)
        else (case metadata fs p of
          None \<Rightarrow> (Inl Io, fs)
        | Some nd \<Rightarrow>
          let (ok, fs') = (if node_is_dir nd then fs_remove_dir_all io p fs
                           else fs_remove_file io p fs)
          in (if ok then Inr () else Inl Io, fs'))))"

section \<open>Confinement\<close>

lemma resolve_Inr: "resolve fs r rel = Inr p \<Longrightarrow>
    cp.confined fs (sh_root r) (sh_root r @ normals (components rel)) = Some p
    \<and> CHR '':'' \<notin> set rel \<and> \<not> list_ex escapes (components rel)"
  by (auto simp: resolve_def Let_def cp.confined_def split: option.splits if_splits)

lemma resolve_inside: "resolve fs r rel = Inr p \<Longrightarrow> prefix (sh_root r) p"
  using resolve_Inr cp.confined_inside by blast

lemma resolve_solid: "resolve fs r rel = Inr p \<Longrightarrow> solid fs p"
  using resolve_Inr by (fastforce simp: cp.confined_def dest: canon_solid split: option.splits if_splits)

lemma resolve_canon: "resolve fs r rel = Inr p \<Longrightarrow> canon fs p = Some p"
  by (rule solid_canon) (rule resolve_solid)

text \<open>Without links under the root, a resolved path is exactly the root followed by the names of
  the request.\<close>

lemma resolve_no_links:
  assumes "resolve fs r rel = Inr p" "solid fs (sh_root r)" "no_links_below fs (sh_root r)"
    "\<exists>m. fs_get fs (sh_root r) = Some (FDir m)"
  shows "p = sh_root r @ normals (components rel)"
proof -
  have c: "canon fs (sh_root r @ normals (components rel)) = Some p"
    using resolve_Inr [OF assms(1)] by (auto simp: cp.confined_def split: option.splits if_splits)
  have "walk fs LINK_BUDGET (sh_root r) (normals (components rel)) = Some p"
    using c assms(2,4) walk_prefix_dir unfolding canon_def solid_def by metis
  then show ?thesis using walk_no_links assms(3) by blast
qed

lemma parent_dir_refused: "ParentDir \<in> set (components rel) \<Longrightarrow> resolve fs r rel = Inl OutsideRoot"
  by (auto simp: resolve_def Let_def list_ex_iff)

lemma delete_frame:
  assumes "\<not> prefix (sh_root r) q \<or> q = sh_root r"
  shows "fs_get (snd (share_delete io r rel fs)) q = fs_get fs q"
proof (cases "resolve fs r rel")
  case (Inr p)
  note pre = resolve_inside [OF Inr]
  show ?thesis
  proof (cases "p = sh_root r")
    case False
    then have "p \<noteq> []" "\<not> prefix p q" using pre assms
      by (auto dest: prefix_order.trans prefix_order.antisym)
    moreover from this have "q \<noteq> p" by auto
    ultimately show ?thesis using Inr False
      by (auto simp: share_delete_def Let_def case_prod_beta fs_remove_dir_all_frame
          fs_remove_file_frame split: option.split)
  qed (use Inr in \<open>simp add: share_delete_def\<close>)
qed (simp add: share_delete_def)

section \<open>Listing\<close>

lemma share_list_Inr: "share_list x fs r rel = Inr es \<longleftrightarrow>
    (\<exists>dir cs. resolve fs r rel = Inr dir \<and> read_dir fs dir = Some cs
      \<and> entries_readable fs dir cs
      \<and> es = sort_key (listing_key x) (map (entry_of rel) cs))"
  by (auto simp: share_list_def split: sum.splits option.splits if_splits)

lemma list_sync_eq: "share_list_sync = share_list"
  by (intro ext) (simp add: share_list_def share_list_sync_def)

lemma read_dir_get:
  assumes "fs_ok fs" "read_dir fs p = Some cs" "(w, n) \<in> set cs"
  shows "\<exists>d m. canon fs p = Some d \<and> fs_get fs d = Some (FDir m) \<and> fs_get fs (d @ [w]) = Some n"
  using assms children_get
  by (fastforce simp: read_dir_def split: option.splits if_splits fnode.splits)

lemma share_list_entry:
  assumes ok: "fs_ok fs" and l: "share_list x fs r rel = Inr es" and e: "e \<in> set es"
  shows "\<exists>dir m n. resolve fs r rel = Inr dir \<and> fs_get fs dir = Some (FDir m)
    \<and> fs_get fs (dir @ [de_name e]) = Some n \<and> e = entry_of rel (de_name e, n)"
proof -
  obtain dir cs where d: "resolve fs r rel = Inr dir" "read_dir fs dir = Some cs"
    and es: "es = sort_key (listing_key x) (map (entry_of rel) cs)"
    using l by (auto simp: share_list_Inr)
  obtain w n where w: "(w, n) \<in> set cs" "e = entry_of rel (w, n)" using e es by auto
  have "de_name e = w" by (simp add: w entry_of_def)
  then show ?thesis
    using read_dir_get [OF ok d(2) w(1)] resolve_canon [OF d(1)] d(1) w(2) by auto
qed

lemma share_list_sorted:
  "share_list x fs r rel = Inr es \<Longrightarrow> sorted (map (listing_key x) es)"
  by (auto simp: share_list_Inr)

end
