(* ===== verification/Inbox.thy ===== *)
theory Inbox
  imports Prelude Protocol Files Store
begin

text \<open>The drop folder of @<doclinkd/src/inbox.rs>: the names it accepts, the search for a free
  name, storing an upload with its sidecar, listing, accepting into the share and removing.\<close>

section \<open>Names\<close>

definition SIDECAR_SUFFIX :: string where "SIDECAR_SUFFIX = ''.doclink.json''"

datatype inbox_error = InvalidName | InboxNotFound string | InboxIo

record inbox_meta =
  im_from :: "string option"
  im_from_node_id :: "string option"
  im_received_unix :: "u64 option"

definition reserved_chars :: "char list" where
  "reserved_chars = [CHR ''/'', CHR 0x5C, CHR '':'', CHR ''*'', CHR ''?'', CHR 0x22, CHR ''<'',
     CHR ''>'', CHR ''|'', CHR 0x00]"

fun is_normal :: "component \<Rightarrow> bool" where
  "is_normal (Normal w) = True"
| "is_normal _ = False"

definition valid_name :: "string \<Rightarrow> bool" where
  "valid_name nm \<longleftrightarrow> nm \<noteq> [] \<and> \<not> prefix ''.'' nm \<and> \<not> suffix ''.'' nm \<and> nm = trim nm
     \<and> \<not> suffix SIDECAR_SUFFIX nm \<and> list_all (\<lambda>c. c \<notin> set reserved_chars) nm
     \<and> list_all is_normal (components nm)"

text \<open>The candidates @<stem (n).ext> are tried for n = 1, 2, ...; the number of tries is bounded by
  the number of files there are, which @<first_free_fresh> below shows is always enough.\<close>

fun first_free :: "(string \<Rightarrow> bool) \<Rightarrow> (nat \<Rightarrow> string) \<Rightarrow> nat \<Rightarrow> nat \<Rightarrow> string" where
  "first_free taken cand 0 n = cand n"
| "first_free taken cand (Suc fuel) n =
     (if taken (cand n) then first_free taken cand fuel (Suc n) else cand n)"

definition numbered :: "string \<Rightarrow> nat \<Rightarrow> string" where
  "numbered nm n = (case rsplit_once (CHR ''.'') nm of
     Some (stem, ex) \<Rightarrow>
       if stem \<noteq> [] then stem @ '' ('' @ show_nat n @ '').'' @ ex
       else nm @ '' ('' @ show_nat n @ '')''
   | None \<Rightarrow> nm @ '' ('' @ show_nat n @ '')'')"

definition dedupe_in_dir :: "fsys \<Rightarrow> path \<Rightarrow> string \<Rightarrow> string" where
  "dedupe_in_dir fs dir nm = (if \<not> path_exists fs (dir @ [nm]) then nm
     else first_free (\<lambda>w. path_exists fs (dir @ [w])) (numbered nm) (length (fs_nodes fs)) 1)"

section \<open>Operations\<close>

record inbox_root =
  ib_root :: path

definition inbox_new :: "io_out \<Rightarrow> u64 \<Rightarrow> path \<Rightarrow> fsys \<Rightarrow> (inbox_error + inbox_root) \<times> fsys" where
  "inbox_new io now p fs = (let (ok, fs') = fs_create_dir_all io now p fs in
     if \<not> ok then (Inl InboxIo, fs')
     else (case canon fs' p of
       None \<Rightarrow> (Inl InboxIo, fs') | Some q \<Rightarrow> (Inr \<lparr>ib_root = q\<rparr>, fs')))"

definition sidecar_path :: "inbox_root \<Rightarrow> string \<Rightarrow> path" where
  "sidecar_path r nm = ib_root r @ [nm @ SIDECAR_SUFFIX]"

definition inbox_resolve :: "fsys \<Rightarrow> inbox_root \<Rightarrow> string \<Rightarrow> inbox_error + path" where
  "inbox_resolve fs r nm =
     (if \<not> valid_name nm then Inl InvalidName
      else let candidate = ib_root r @ [nm] in
      if (case symlink_metadata fs candidate of None \<Rightarrow> False | Some nd \<Rightarrow> node_is_link nd)
      then Inl (InboxNotFound nm)
      else (case metadata fs candidate of
        Some nd \<Rightarrow> if node_is_file nd then Inr candidate else Inl (InboxNotFound nm)
      | None \<Rightarrow> Inl (InboxNotFound nm)))"

text \<open>@<io n> is the outcome of the n-th disk operation, @<now> the modification time it sets.\<close>

definition write_file :: "inbox_meta codec \<Rightarrow> (nat \<Rightarrow> io_out) \<Rightarrow> u64 \<Rightarrow> inbox_root \<Rightarrow> string \<Rightarrow> bytes
    \<Rightarrow> inbox_meta \<Rightarrow> fsys \<Rightarrow> (inbox_error + string) \<times> fsys" where
  "write_file mc io now r raw_name b m fs = (let nm = trim raw_name in
     if \<not> valid_name nm then (Inl InvalidName, fs)
     else let
       stored = dedupe_in_dir fs (ib_root r) nm;
       target = ib_root r @ [stored];
       tmp = ib_root r @ [''.'' @ stored @ ''.part''];
       (ok1, fs1) = fs_write (io 0) now tmp b fs
     in if \<not> ok1 then (Inl InboxIo, fs1)
     else (case fs_rename (io 1) tmp target fs1 of
       (Inl c, fs2) \<Rightarrow> (Inl InboxIo, fs2)
     | (Inr _, fs2) \<Rightarrow> (case cd_ser mc m of
         None \<Rightarrow> (Inr stored, fs2)
       | Some raw \<Rightarrow>
         let (ok3, fs3) = fs_write (io 2) now (sidecar_path r stored) raw fs2
         in (if ok3 then Inr stored else Inl InboxIo, fs3))))"

definition read_meta :: "inbox_meta codec \<Rightarrow> fsys \<Rightarrow> inbox_root \<Rightarrow> string \<Rightarrow> inbox_meta" where
  "read_meta mc fs r nm = (case read_file fs (sidecar_path r nm) of
     None \<Rightarrow> cd_default mc
   | Some raw \<Rightarrow> (case cd_de mc raw of None \<Rightarrow> cd_default mc | Some m \<Rightarrow> m))"

definition inbox_entry_of :: "inbox_meta codec \<Rightarrow> fsys \<Rightarrow> inbox_root \<Rightarrow> string \<times> fnode \<Rightarrow> inbox_entry" where
  "inbox_entry_of mc fs r e = (let (w, nd) = e; m = read_meta mc fs r w in
     \<lparr>ie_name = w, ie_size = node_len nd,
      ie_modified_unix = (case node_mtime nd of None \<Rightarrow> 0 | Some t \<Rightarrow> t),
      ie_from = im_from m, ie_from_node_id = im_from_node_id m,
      ie_received_unix = im_received_unix m\<rparr>)"

definition entry_time :: "inbox_entry \<Rightarrow> u64" where
  "entry_time e = (case ie_received_unix e of None \<Rightarrow> ie_modified_unix e | Some t \<Rightarrow> t)"

text \<open>A stable sort on the complement of the time is the stable sort by descending time.\<close>

definition inbox_list :: "inbox_meta codec \<Rightarrow> fsys \<Rightarrow> inbox_root \<Rightarrow> inbox_error + inbox_entry list" where
  "inbox_list mc fs r = (case read_dir fs (ib_root r) of
     None \<Rightarrow> Inl InboxIo
   | Some es \<Rightarrow>
     let payloads = filter (\<lambda>e. \<not> suffix SIDECAR_SUFFIX (fst e)) es in
     if \<not> entries_readable fs (ib_root r) payloads then Inl InboxIo
     else Inr (sort_key (\<lambda>e. u64_limit - unat (entry_time e))
       (map (inbox_entry_of mc fs r) (filter (\<lambda>e. node_is_file (snd e)) payloads))))"

definition EXDEV :: int where "EXDEV = 18"

text \<open>Moving a file: a rename, or, when the rename reports another volume, a copy through a
  temporary file after which the source is dropped.\<close>

definition move_file :: "(nat \<Rightarrow> io_out) \<Rightarrow> u64 \<Rightarrow> path \<Rightarrow> path \<Rightarrow> path \<Rightarrow> fsys \<Rightarrow> bool \<times> fsys" where
  "move_file io now src dest dest_tmp fs = (case fs_rename (io 0) src dest fs of
     (Inr _, fs1) \<Rightarrow> (True, fs1)
   | (Inl c, fs1) \<Rightarrow>
     if c = Some EXDEV then
       (case read_file fs1 src of
         None \<Rightarrow> (False, fs1)
       | Some b \<Rightarrow> let (ok2, fs2) = fs_write (io 1) now dest_tmp b fs1 in
         if \<not> ok2 then (False, fs2)
         else (case fs_rename (io 2) dest_tmp dest fs2 of
           (Inl _, fs3) \<Rightarrow> (False, fs3)
         | (Inr _, fs3) \<Rightarrow> fs_remove_file (io 3) src fs3))
     else (False, fs1))"

definition inbox_accept :: "(nat \<Rightarrow> io_out) \<Rightarrow> u64 \<Rightarrow> inbox_root \<Rightarrow> string \<Rightarrow> path \<Rightarrow> fsys
    \<Rightarrow> (inbox_error + string) \<times> fsys" where
  "inbox_accept io now r nm dest_dir fs = (case inbox_resolve fs r nm of
     Inl e \<Rightarrow> (Inl e, fs)
   | Inr src \<Rightarrow> let
       final_name = dedupe_in_dir fs dest_dir nm;
       (moved, fs') = move_file io now src (dest_dir @ [final_name])
         (dest_dir @ [''.'' @ final_name @ ''.part'']) fs
     in if \<not> moved then (Inl InboxIo, fs')
        else (Inr final_name, snd (fs_remove_file (io 4) (sidecar_path r nm) fs')))"

definition inbox_remove :: "(nat \<Rightarrow> io_out) \<Rightarrow> inbox_root \<Rightarrow> string \<Rightarrow> fsys \<Rightarrow> (inbox_error + unit) \<times> fsys" where
  "inbox_remove io r nm fs = (case inbox_resolve fs r nm of
     Inl e \<Rightarrow> (Inl e, fs)
   | Inr p \<Rightarrow> let (ok, fs1) = fs_remove_file (io 0) p fs in
     if \<not> ok then (Inl InboxIo, fs1)
     else (Inr (), snd (fs_remove_file (io 1) (sidecar_path r nm) fs1)))"

section \<open>Names that stay valid\<close>

lemma numbered_inj: "numbered nm i = numbered nm j \<Longrightarrow> i = j"
  by (auto simp: numbered_def dest: show_nat_inj split: option.splits prod.splits if_splits)

lemma segments_no_sep: "list_all (\<lambda>c. \<not> is_sep c) s \<Longrightarrow> segments s = [s]"
  by (induction s) auto

lemma plain_components:
  assumes "list_all (\<lambda>c. \<not> is_sep c) s" "CHR '':'' \<notin> set s" "s \<noteq> []" "s \<noteq> ''.''" "s \<noteq> ''..''"
  shows "components s = [Normal s]"
proof -
  have b: "body_components s = [Normal s]"
    using assms by (simp add: body_components_def segments_no_sep seg_component_def)
  have "hd (segments s) = s" using assms(1) by (simp add: segments_no_sep)
  with b show ?thesis using assms unfolding components_def
    by (cases s; cases "tl s") auto
qed

lemma reserved_not_sep: "list_all (\<lambda>c. c \<notin> set reserved_chars) s \<Longrightarrow>
    list_all (\<lambda>c. \<not> is_sep c) s \<and> CHR '':'' \<notin> set s"
  by (auto simp: list_all_iff reserved_chars_def is_sep_def)

lemma valid_name_iff: "valid_name nm \<longleftrightarrow> nm \<noteq> [] \<and> \<not> prefix ''.'' nm \<and> \<not> suffix ''.'' nm
    \<and> (\<forall>w \<in> set ws_chars. \<not> prefix w nm \<and> \<not> suffix w nm)
    \<and> \<not> suffix SIDECAR_SUFFIX nm \<and> list_all (\<lambda>c. c \<notin> set reserved_chars) nm" (is "_ \<longleftrightarrow> ?R")
proof -
  have "?R \<Longrightarrow> components nm = [Normal nm]"
    by (rule plain_components) (auto dest: reserved_not_sep simp: prefix_def)
  then show ?thesis unfolding valid_name_def using trim_id [of nm] by auto
qed

lemma valid_components: "valid_name nm \<Longrightarrow> components nm = [Normal nm]"
  unfolding valid_name_iff by (rule plain_components) (auto dest: reserved_not_sep simp: prefix_def)

lemma digits_not_reserved: "list_all (\<lambda>c. c \<notin> set reserved_chars) (show_nat n)"
proof -
  have "is_digit c \<Longrightarrow> c \<notin> set reserved_chars" for c
    by (auto simp: reserved_chars_def is_digit_def)
  then show ?thesis using show_nat_digits by (auto simp: list_all_iff)
qed

lemma ws_not_across:
  assumes "w \<in> set ws_chars" "\<not> is_cont c" "s \<noteq> []" "prefix w (s @ c # t)"
  shows "prefix w s"
proof (rule ccontr)
  assume "\<not> prefix w s"
  then obtain u where u: "w = s @ u" "u \<noteq> []" "prefix u (c # t)"
    using assms(4) by (auto simp: prefix_append)
  then have "hd u = c" by (cases u) auto
  then have "c \<in> set (tl w)" using u assms(3) by (cases s; cases u) auto
  then show False using ws_chars_tail assms(1,2) by blast
qed

lemma ws_not_across_end:
  assumes "w \<in> set ws_chars" "\<not> is_cont c" "\<forall>v \<in> set ws_chars. hd v \<noteq> c" "t \<noteq> []"
    "suffix w (s @ c # t)"
  shows "suffix w t"
proof (rule ccontr)
  assume "\<not> suffix w t"
  then obtain u where u: "w = u @ t" "u \<noteq> []" "suffix u (s @ [c])"
    using assms(5) suffix_append [of w "s @ [c]" t] by auto
  then have "last u = c" by (metis last_snoc suffix_def last_appendR)
  then have "c \<in> set w" using u last_in_set [of u] by auto
  then show False using ws_chars_ascii assms(1,2,3) by blast
qed

lemma rsplit_once_Some: "rsplit_once c s = Some (a, b) \<Longrightarrow> s = a @ c # b \<and> c \<notin> set b"
proof -
  assume "rsplit_once c s = Some (a, b)"
  then have "split_once c (rev s) = Some (rev b, rev a)"
    by (auto simp: rsplit_once_def)
  then have "rev s = rev b @ c # rev a \<and> c \<notin> set b" by (simp add: split_once_Some)
  then have "rev (rev s) = a @ c # b" "c \<notin> set b" by simp_all
  then show "s = a @ c # b \<and> c \<notin> set b" by simp
qed

lemma ws_ends: "w \<in> set ws_chars \<Longrightarrow> hd w \<noteq> CHR ''.'' \<and> last w \<noteq> CHR '')'' \<and> w \<noteq> []"
  by (auto simp: ws_chars_def dest!: arg_cong [where f = byte_of])

lemma numbered_plain_valid:
  assumes v: "valid_name nm"
  shows "valid_name (nm @ '' ('' @ show_nat n @ '')'')"
proof -
  let ?c = "nm @ '' ('' @ show_nat n @ '')''"
  have lst: "last ?c = CHR '')''" by simp
  have suf: "\<not> suffix w ?c" if "w \<in> set ws_chars" for w
    using lst ws_ends [OF that] by (metis last_appendR suffix_def)
  have pre: "\<not> prefix w ?c" if "w \<in> set ws_chars" for w
    using ws_not_across [of w "CHR '' ''" nm "''('' @ show_nat n @ '')''"] that v
    by (auto simp: valid_name_iff is_cont_def)
  have "\<not> suffix ''.'' ?c" "\<not> suffix SIDECAR_SUFFIX ?c"
    using lst by (auto simp: suffix_def SIDECAR_SUFFIX_def)
  moreover have "\<not> prefix ''.'' ?c" using v by (cases nm) (auto simp: valid_name_iff)
  moreover have "list_all (\<lambda>c. c \<notin> set reserved_chars) ?c"
    using v digits_not_reserved by (auto simp: valid_name_iff reserved_chars_def)
  ultimately show ?thesis using v suf pre by (simp add: valid_name_iff)
qed

lemma numbered_valid:
  assumes v: "valid_name nm"
  shows "valid_name (numbered nm n)"
proof (cases "\<exists>stem ex. rsplit_once (CHR ''.'') nm = Some (stem, ex) \<and> stem \<noteq> []")
  case False
  then have "numbered nm n = nm @ '' ('' @ show_nat n @ '')''"
    by (auto simp: numbered_def split: option.split)
  then show ?thesis using numbered_plain_valid [OF v] by simp
next
  case True
  then obtain stem ex where r: "rsplit_once (CHR ''.'') nm = Some (stem, ex)" "stem \<noteq> []" by blast
  have nm: "nm = stem @ CHR ''.'' # ex" "CHR ''.'' \<notin> set ex"
    using rsplit_once_Some [OF r(1)] by auto
  have ex: "ex \<noteq> []" using v nm by (auto simp: valid_name_iff suffix_def)
  let ?c = "stem @ '' ('' @ show_nat n @ '').'' @ ex"
  have num: "numbered nm n = ?c" using r by (simp add: numbered_def)
  have pre: "\<not> prefix w ?c" if w: "w \<in> set ws_chars" for w
  proof
    assume "prefix w ?c"
    then have "prefix w stem"
      using ws_not_across [of w "CHR '' ''" stem "''('' @ show_nat n @ '').'' @ ex"] w r(2)
      by (simp add: is_cont_def)
    then show False using v w nm by (auto simp: valid_name_iff)
  qed
  have suf: "\<not> suffix w ?c" if w: "w \<in> set ws_chars" for w
  proof
    assume s: "suffix w ?c"
    have "\<forall>v \<in> set ws_chars. hd v \<noteq> CHR ''.''" using ws_ends by blast
    with s have "suffix w ex"
      using ws_not_across_end [of w "CHR ''.''" ex "stem @ '' ('' @ show_nat n @ '')''"] w ex
      by (simp add: is_cont_def)
    then have "suffix w nm" using nm by (metis suffix_appendI suffix_Cons)
    then show False using v w by (simp add: valid_name_iff)
  qed
  have side: "\<not> suffix SIDECAR_SUFFIX ?c"
  proof
    assume "suffix SIDECAR_SUFFIX ?c"
    then obtain z where "?c = z @ SIDECAR_SUFFIX" by (auto simp: suffix_def)
    then have "(stem @ '' ('' @ show_nat n @ '')'') @ CHR ''.'' # ex
        = (z @ ''.doclink'') @ CHR ''.'' # ''json''"
      by (simp add: SIDECAR_SUFFIX_def)
    then have "stem @ '' ('' @ show_nat n @ '')'' = z @ ''.doclink''"
      using last_field_eq [OF nm(2), of "''json''"] by simp
    then have "last (stem @ '' ('' @ show_nat n @ '')'') = last (z @ ''.doclink'')" by simp
    then show False by simp
  qed
  have dot: "\<not> suffix ''.'' ?c"
    using ex nm(2) by (auto simp: suffix_def append_eq_append_conv2 Cons_eq_append_conv)
  have hd: "\<not> prefix ''.'' ?c" using v nm r(2) by (cases stem) (auto simp: valid_name_iff)
  have "list_all (\<lambda>c. c \<notin> set reserved_chars) ?c"
    using v nm digits_not_reserved by (auto simp: valid_name_iff reserved_chars_def)
  then show ?thesis unfolding num using pre suf side dot hd by (simp add: valid_name_iff)
qed

lemma first_free_fresh:
  "\<exists>k. n \<le> k \<and> k \<le> n + fuel \<and> \<not> taken (cand k) \<Longrightarrow> \<not> taken (first_free taken cand fuel n)"
proof (induction fuel arbitrary: n)
  case (Suc fuel)
  then obtain k where k: "n \<le> k" "k \<le> n + Suc fuel" "\<not> taken (cand k)" by blast
  show ?case
  proof (cases "taken (cand n)")
    case True
    then have "n \<noteq> k" using k by auto
    then have "Suc n \<le> k" "k \<le> Suc n + fuel" using k by auto
    then show ?thesis using Suc.IH [of "Suc n"] True k by auto
  qed simp
qed auto

lemma first_free_form: "\<exists>k \<ge> n. first_free taken cand fuel n = cand k"
proof (induction fuel arbitrary: n)
  case (Suc fuel)
  then show ?case by (auto intro: Suc_leD)
qed auto

lemma some_candidate_free:
  assumes s: "solid fs d" "fs_get fs d = Some (FDir m)"
    and inj: "\<And>i j. cand i = cand j \<Longrightarrow> i = j"
  shows "\<exists>k. 1 \<le> k \<and> k \<le> 1 + length (fs_nodes fs) \<and> \<not> path_exists fs (d @ [cand k])"
proof (rule ccontr)
  let ?L = "length (fs_nodes fs)" and ?f = "\<lambda>k. d @ [cand k]"
  assume "\<not> ?thesis"
  then have taken: "path_exists fs (?f k)" if "k \<in> {1..1 + ?L}" for k using that by auto
  have "?f k \<in> set (map fst (fs_nodes fs))" if "k \<in> {1..1 + ?L}" for k
    using taken [OF that] canon_child [OF s, of "cand k"]
    by (auto simp: path_exists_def fs_get_def dest!: map_of_SomeD split: option.splits)
       (metis fst_conv image_eqI)
  then have sub: "?f ` {1..1 + ?L} \<subseteq> set (map fst (fs_nodes fs))" by blast
  have "inj_on ?f {1..1 + ?L}" using inj by (auto simp: inj_on_def)
  then have "card (?f ` {1..1 + ?L}) = 1 + ?L" by (simp add: card_image)
  moreover have "card (?f ` {1..1 + ?L}) \<le> ?L"
    using card_mono [OF _ sub] card_length [of "map fst (fs_nodes fs)"] by simp
  ultimately show False by simp
qed

lemma dedupe_fresh:
  assumes "solid fs d" "fs_get fs d = Some (FDir m)"
  shows "\<not> path_exists fs (d @ [dedupe_in_dir fs d nm])"
proof (cases "path_exists fs (d @ [nm])")
  case True
  then show ?thesis
    using first_free_fresh [of 1 "length (fs_nodes fs)" "\<lambda>w. path_exists fs (d @ [w])" "numbered nm"]
      some_candidate_free [OF assms, of "numbered nm"] numbered_inj
    by (simp add: dedupe_in_dir_def)
qed (simp add: dedupe_in_dir_def)

lemma dedupe_valid: "valid_name nm \<Longrightarrow> valid_name (dedupe_in_dir fs d nm)"
  using first_free_form [of 1 _ "numbered nm"] numbered_valid
  by (auto simp: dedupe_in_dir_def) (metis numbered_valid)

section \<open>Storing an upload\<close>

text \<open>The inbox directory is reached without links, and holds none.\<close>

definition inbox_ok :: "fsys \<Rightarrow> inbox_root \<Rightarrow> bool" where
  "inbox_ok fs r \<longleftrightarrow> solid fs (ib_root r) \<and> (\<exists>m. fs_get fs (ib_root r) = Some (FDir m))
     \<and> no_links_below fs (ib_root r)"

lemma inbox_ok_frame:
  assumes "inbox_ok fs r" "no_links_below fs' (ib_root r)"
    and "\<And>q. q \<noteq> ib_root r @ [w] \<Longrightarrow> q \<noteq> ib_root r @ [w'] \<Longrightarrow> fs_get fs' q = fs_get fs q"
  shows "inbox_ok fs' r"
proof -
  have k: "fs_get fs' (take k (ib_root r)) = fs_get fs (take k (ib_root r))" for k
    using assms(3) take_neq_child by metis
  have "fs_get fs' (ib_root r) = fs_get fs (ib_root r)" using k [of "length (ib_root r)"] by simp
  then show ?thesis using assms(1,2) solid_frame [of fs "ib_root r" fs'] k
    unfolding inbox_ok_def by auto
qed

lemma tmp_name_invalid: "\<not> valid_name (''.'' @ w @ ''.part'')"
  by (simp add: valid_name_iff)

lemma sidecar_name_invalid: "\<not> valid_name (w @ SIDECAR_SUFFIX)"
  using suffixI [of "w @ SIDECAR_SUFFIX" w SIDECAR_SUFFIX] unfolding valid_name_iff by blast

text \<open>Whatever the disk does, an upload touches three names of the inbox only: the free name it
  chose, its temporary file and its sidecar.\<close>

lemma write_stages:
  assumes ok: "inbox_ok fs r"
    and w1: "fs_write io1 now (ib_root r @ [tmp]) b fs = (ok1, fs1)"
    and w2: "fs_rename io2 (ib_root r @ [tmp]) (ib_root r @ [st]) fs1 = (res, fs2)"
  shows "p \<noteq> ib_root r @ [tmp] \<Longrightarrow> fs_get fs1 p = fs_get fs p"
    and "p \<noteq> ib_root r @ [tmp] \<Longrightarrow> p \<noteq> ib_root r @ [st] \<Longrightarrow> fs_get fs2 p = fs_get fs p"
    and "inbox_ok fs2 r"
    and "ok1 \<Longrightarrow> res = Inr u \<Longrightarrow> fs_get fs2 (ib_root r @ [st]) = Some (FFile b (Some now))"
proof -
  let ?d = "ib_root r"
  obtain md where s0: "solid fs ?d" "fs_get fs ?d = Some (FDir md)" "no_links_below fs ?d"
    using ok by (auto simp: inbox_ok_def)
  have f1: "fs_get fs1 p = fs_get fs p" if "p \<noteq> ?d @ [tmp]" for p
    using write_child_frame [OF s0 that, of io1 now b] w1 by simp
  have f2: "fs_get fs2 p = fs_get fs1 p" if "p \<noteq> ?d @ [tmp]" "p \<noteq> ?d @ [st]" for p
    using rename_frame [of "?d @ [tmp]" "?d @ [st]" p io2 fs1] that w2 by simp
  have "no_links_below fs1 ?d" using no_links_write [OF s0(3)] w1 by (metis snd_conv)
  then have nl2: "no_links_below fs2 ?d" using no_links_rename w2 by (metis snd_conv)
  show "p \<noteq> ?d @ [tmp] \<Longrightarrow> fs_get fs1 p = fs_get fs p" by (rule f1)
  show "p \<noteq> ?d @ [tmp] \<Longrightarrow> p \<noteq> ?d @ [st] \<Longrightarrow> fs_get fs2 p = fs_get fs p" using f1 f2 by simp
  show "inbox_ok fs2 r"
    by (rule inbox_ok_frame [OF ok nl2, where w = tmp and w' = st]) (metis f1 f2)
  show "ok1 \<Longrightarrow> res = Inr u \<Longrightarrow> fs_get fs2 (?d @ [st]) = Some (FFile b (Some now))"
    using write_ok_get [OF s0, of io1 now tmp b fs1] w1
      rename_ok [of "?d @ [tmp]" "?d @ [st]" io2 fs1 u fs2] w2 by auto
qed

lemma sidecar_write_frame:
  "inbox_ok fs r \<Longrightarrow> q \<noteq> sidecar_path r w \<Longrightarrow>
    fs_get (snd (fs_write io now (sidecar_path r w) raw fs)) q = fs_get fs q"
  unfolding inbox_ok_def sidecar_path_def using write_child_frame by blast

lemma write_file_cases:
  assumes "valid_name (trim nm)" "st = dedupe_in_dir fs (ib_root r) (trim nm)"
    "fs_write (io 0) now (ib_root r @ [''.'' @ st @ ''.part'']) b fs = (ok1, fs1)"
    "fs_rename (io 1) (ib_root r @ [''.'' @ st @ ''.part'']) (ib_root r @ [st]) fs1 = (res, fs2)"
    "write_file mc io now r nm b m fs = (out, fs')"
  shows "if \<not> ok1 then out = Inl InboxIo \<and> fs' = fs1
    else if (\<exists>c. res = Inl c) then out = Inl InboxIo \<and> fs' = fs2
    else (out = Inr st \<or> out = Inl InboxIo)
      \<and> (fs' = fs2 \<or> (\<exists>raw. fs' = snd (fs_write (io 2) now (sidecar_path r st) raw fs2)))"
  using assms(1,3-5) unfolding assms(2)
  by (auto simp: write_file_def Let_def case_prod_beta split: sum.splits option.splits if_splits)

lemma write_file_frame:
  assumes ok: "inbox_ok fs r" and v: "valid_name (trim nm)"
    and st: "st = dedupe_in_dir fs (ib_root r) (trim nm)"
    and q: "q \<noteq> ib_root r @ [st]" "q \<noteq> ib_root r @ [''.'' @ st @ ''.part'']" "q \<noteq> sidecar_path r st"
  shows "fs_get (snd (write_file mc io now r nm b m fs)) q = fs_get fs q"
proof -
  obtain out fs' where w: "write_file mc io now r nm b m fs = (out, fs')" by force
  obtain ok1 fs1 where w1:
    "fs_write (io 0) now (ib_root r @ [''.'' @ st @ ''.part'']) b fs = (ok1, fs1)" by force
  obtain res fs2 where w2:
    "fs_rename (io 1) (ib_root r @ [''.'' @ st @ ''.part'']) (ib_root r @ [st]) fs1 = (res, fs2)" by force
  note stages = write_stages [OF ok w1 w2]
  show ?thesis
    using write_file_cases [OF v st w1 w2 w] stages(1) [OF q(2)] stages(2) [OF q(2,1)]
      sidecar_write_frame [OF stages(3) q(3)] w
    by (auto split: if_splits)
qed

text \<open>A name chosen by @<dedupe_in_dir> is free: no entry of the directory has it.\<close>

lemma free_child:
  assumes "inbox_ok fs r"
  shows "fs_get fs (ib_root r @ [dedupe_in_dir fs (ib_root r) nm]) = None"
proof (rule ccontr)
  let ?p = "ib_root r @ [dedupe_in_dir fs (ib_root r) nm]"
  obtain md where s0: "solid fs (ib_root r)" "fs_get fs (ib_root r) = Some (FDir md)"
      "no_links_below fs (ib_root r)"
    using assms by (auto simp: inbox_ok_def)
  assume "fs_get fs ?p \<noteq> None"
  then obtain nd where nd: "fs_get fs ?p = Some nd" by blast
  then have "\<not> node_is_link nd" using no_links_get [OF s0(3) _ nd] by simp
  then have "path_exists fs ?p"
    using canon_child [OF s0(1,2), of "dedupe_in_dir fs (ib_root r) nm"] nd by (cases nd) (auto simp: path_exists_def)
  then show False using dedupe_fresh [OF s0(1,2)] by blast
qed

lemma write_file_stored:
  assumes ok: "inbox_ok fs r" and w: "write_file mc io now r nm b m fs = (Inr stored, fs')"
  shows "valid_name stored \<and> fs_get fs (ib_root r @ [stored]) = None
    \<and> fs_get fs' (ib_root r @ [stored]) = Some (FFile b (Some now))"
proof -
  define st where st: "st = dedupe_in_dir fs (ib_root r) (trim nm)"
  have v: "valid_name (trim nm)" using w by (auto simp: write_file_def Let_def split: if_splits)
  obtain ok1 fs1 where w1:
    "fs_write (io 0) now (ib_root r @ [''.'' @ st @ ''.part'']) b fs = (ok1, fs1)" by force
  obtain res fs2 where w2:
    "fs_rename (io 1) (ib_root r @ [''.'' @ st @ ''.part'']) (ib_root r @ [st]) fs1 = (res, fs2)" by force
  note stages = write_stages [OF ok w1 w2]
  note c = write_file_cases [OF v st w1 w2 w]
  have r: "ok1" "\<exists>u. res = Inr u" "stored = st"
    using c by (cases res; auto split: if_splits)+
  have "ib_root r @ [st] \<noteq> sidecar_path r st" by (simp add: sidecar_path_def SIDECAR_SUFFIX_def)
  then have "fs_get fs' (ib_root r @ [st]) = Some (FFile b (Some now))"
    using c r stages(4) sidecar_write_frame [OF stages(3)] by (auto split: if_splits)
  moreover have "fs_get fs (ib_root r @ [st]) = None" unfolding st by (rule free_child [OF ok])
  ultimately show ?thesis using r(3) dedupe_valid [OF v] st by blast
qed

lemma inbox_list_entry:
  assumes "fs_ok fs" "inbox_ok fs r" "inbox_list mc fs r = Inr es" "e \<in> set es"
  shows "\<not> suffix SIDECAR_SUFFIX (ie_name e)
    \<and> (\<exists>b m. fs_get fs (ib_root r @ [ie_name e]) = Some (FFile b m) \<and> ie_size e = of_nat (length b))"
proof -
  obtain cs w n where c: "read_dir fs (ib_root r) = Some cs" "(w, n) \<in> set cs"
    "\<not> suffix SIDECAR_SUFFIX w" "node_is_file n" "e = inbox_entry_of mc fs r (w, n)"
    using assms(3,4) by (fastforce simp: inbox_list_def Let_def split: option.splits if_splits)
  have "canon fs (ib_root r) = Some (ib_root r)" using assms(2) by (intro solid_canon) (simp add: inbox_ok_def)
  then have "(w, n) \<in> set (children fs (ib_root r))" using c(1,2)
    by (auto simp: read_dir_def split: option.splits if_splits fnode.splits)
  then have "fs_get fs (ib_root r @ [w]) = Some n" by (rule children_get [OF assms(1)])
  then show ?thesis using c(3-5) by (cases n) (auto simp: inbox_entry_of_def Let_def)
qed

lemma inbox_list_sorted:
  "inbox_list mc fs r = Inr es \<Longrightarrow> sorted (rev (map (\<lambda>e. unat (entry_time e)) es))"
proof -
  assume "inbox_list mc fs r = Inr es"
  then obtain ys where "es = sort_key (\<lambda>e. u64_limit - unat (entry_time e)) ys"
    by (auto simp: inbox_list_def Let_def split: option.splits if_splits)
  then have s: "sorted (map (\<lambda>e. u64_limit - unat (entry_time e)) es)" by simp
  have lt: "unat (w :: u64) < u64_limit" for w
    using unsigned_less [of w, where ?'a = nat] by simp
  have le: "unat (entry_time b) \<le> unat (entry_time a)"
    if "u64_limit - unat (entry_time a) \<le> u64_limit - unat (entry_time b)" for a b
    using that lt [of "entry_time a"] lt [of "entry_time b"] by linarith
  have "sorted_wrt (\<lambda>a b. unat (entry_time b) \<le> unat (entry_time a)) es"
    by (rule sorted_wrt_mono_rel [OF _ s [unfolded sorted_map]]) (rule le)
  then show ?thesis by (simp add: sorted_map rev_map [symmetric] sorted_wrt_rev sorted_wrt_map)
qed

section \<open>Accepting\<close>

lemma inbox_resolve_Inr: "inbox_ok fs r \<Longrightarrow> inbox_resolve fs r nm = Inr p \<Longrightarrow>
    p = ib_root r @ [nm] \<and> valid_name nm \<and> (\<exists>b m. fs_get fs p = Some (FFile b m))"
proof -
  assume ok: "inbox_ok fs r" and r: "inbox_resolve fs r nm = Inr p"
  obtain md where s0: "solid fs (ib_root r)" "fs_get fs (ib_root r) = Some (FDir md)"
      "no_links_below fs (ib_root r)"
    using ok by (auto simp: inbox_ok_def)
  have p: "p = ib_root r @ [nm]" "valid_name nm"
      "\<exists>nd. metadata fs (ib_root r @ [nm]) = Some nd \<and> node_is_file nd"
    using r by (auto simp: inbox_resolve_def Let_def split: if_splits option.splits)
  have "\<not> node_is_link n" if "fs_get fs (ib_root r @ [nm]) = Some n" for n
    using no_links_get [OF s0(3) _ that] by simp
  then have "\<exists>b m. fs_get fs p = Some (FFile b m)"
    using p canon_child [OF s0(1,2), of nm]
    by (auto simp: metadata_def split: option.splits fnode.splits if_splits elim!: node_is_file.elims)
  then show ?thesis using p by blast
qed

lemma rename_fails_same: "fs_rename io p q fs = (Inl c, fs') \<Longrightarrow> fs' = fs"
  by (auto simp: fs_rename_def split: io_out.splits option.splits fnode.splits)

lemma rename_file:
  "p \<noteq> [] \<Longrightarrow> q \<noteq> [] \<Longrightarrow> p \<noteq> q \<Longrightarrow> fs_get fs p = Some (FFile b m) \<Longrightarrow>
    fs_rename io p q fs = (Inr u, fs') \<Longrightarrow>
    fs_get fs' q = Some (FFile b m) \<and> fs_get fs' p = None"
  by (auto simp: fs_rename_def split: io_out.splits option.splits fnode.splits)

lemma read_file_child:
  assumes "inbox_ok fs r" "fs_get fs (ib_root r @ [nm]) = Some (FFile b m)"
    "read_file fs (ib_root r @ [nm]) = Some b'"
  shows "b' = b"
  using assms canon_child [of fs "ib_root r" _ nm]
  by (auto simp: read_file_def metadata_def inbox_ok_def split: option.splits fnode.splits if_splits)

lemma move_file_content:
  assumes ok: "inbox_ok fs r" and dok: "inbox_ok fs \<lparr>ib_root = dest\<rparr>"
    and src: "fs_get fs (ib_root r @ [nm]) = Some (FFile b m)"
    and neq: "ib_root r @ [nm] \<noteq> dest @ [w]" "ib_root r @ [nm] \<noteq> dest @ [tmp]"
    and mv: "move_file io now (ib_root r @ [nm]) (dest @ [w]) (dest @ [tmp]) fs = (moved, fs')"
  shows "if moved then fs_get fs' (ib_root r @ [nm]) = None
       \<and> (\<exists>m'. fs_get fs' (dest @ [w]) = Some (FFile b m'))
     else fs_get fs' (ib_root r @ [nm]) = Some (FFile b m)"
proof -
  let ?src = "ib_root r @ [nm]"
  obtain res fs1 where w1: "fs_rename (io 0) ?src (dest @ [w]) fs = (res, fs1)" by force
  show ?thesis
  proof (cases res)
    case (Inr u)
    then show ?thesis using mv w1 rename_file [OF _ _ neq(1) src, of "io 0" u fs1]
      by (auto simp: move_file_def)
  next
    case (Inl c)
    then have fs1: "fs1 = fs" using w1 rename_fails_same by blast
    obtain ok2 fs2 where w2: "fs_write (io 1) now (dest @ [tmp]) b fs = (ok2, fs2)" by force
    obtain res3 fs3 where w3: "fs_rename (io 2) (dest @ [tmp]) (dest @ [w]) fs2 = (res3, fs3)" by force
    note stages = write_stages [OF dok, unfolded inbox_root.simps, OF w2 w3]
    have g: "fs_get fs2 ?src = Some (FFile b m)" "fs_get fs3 ?src = Some (FFile b m)"
      using stages(1,2) neq src by auto
    have c: "(moved, fs') = (False, fs) \<or> (moved, fs') = (False, fs2) \<and> \<not> ok2
        \<or> (\<exists>e. res3 = Inl e) \<and> (moved, fs') = (False, fs3)
        \<or> ok2 \<and> (\<exists>u. res3 = Inr u) \<and> (moved, fs') = fs_remove_file (io 3) ?src fs3"
      using mv w1 w2 w3 Inl fs1 read_file_child [OF ok src]
      by (auto simp: move_file_def split: if_splits option.splits sum.splits)
    have r: "fs_remove_file (io 3) ?src fs3 = (True, fs_del ?src fs3)
        \<or> fs_remove_file (io 3) ?src fs3 = (False, fs3)"
      using g(2) by (auto simp: fs_remove_file_def split: io_out.split)
    show ?thesis using c r g src neq(1) stages(4) by (elim disjE) auto
  qed
qed

lemma accept_keeps_content:
  assumes ok: "inbox_ok fs r" and dok: "inbox_ok fs \<lparr>ib_root = dest\<rparr>" and ne: "dest \<noteq> ib_root r"
    and src: "fs_get fs (ib_root r @ [nm]) = Some (FFile b m)"
    and a: "inbox_accept io now r nm dest fs = (out, fs')"
  shows "(\<forall>e. out = Inl e \<longrightarrow> fs_get fs' (ib_root r @ [nm]) = Some (FFile b m))
    \<and> (\<forall>w. out = Inr w \<longrightarrow> fs_get fs' (ib_root r @ [nm]) = None
         \<and> (\<exists>m'. fs_get fs' (dest @ [w]) = Some (FFile b m')))"
proof (cases "inbox_resolve fs r nm")
  case (Inl e)
  then show ?thesis using a src by (auto simp: inbox_accept_def)
next
  case (Inr p)
  then have p: "p = ib_root r @ [nm]" using inbox_resolve_Inr [OF ok] by blast
  let ?w = "dedupe_in_dir fs dest nm"
  obtain moved fs1 where mv: "move_file io now p (dest @ [?w]) (dest @ [''.'' @ ?w @ ''.part'']) fs
      = (moved, fs1)" by force
  have neq: "ib_root r @ [nm] \<noteq> dest @ [v]" "sidecar_path r nm \<noteq> dest @ [v]"
      "ib_root r @ [nm] \<noteq> sidecar_path r nm" for v
    using ne by (auto simp: sidecar_path_def SIDECAR_SUFFIX_def)
  note mc = move_file_content [OF ok dok src neq(1) neq(1) mv [unfolded p]]
  have side: "fs_get (snd (fs_remove_file io' (sidecar_path r nm) fs1)) q = fs_get fs1 q"
    if "q \<noteq> sidecar_path r nm" for q io'
    using fs_remove_file_frame that by (simp add: sidecar_path_def)
  show ?thesis
    using a mc Inr mv side [OF neq(3)] side [OF neq(2) [symmetric]]
    by (auto simp: inbox_accept_def split: if_splits)
qed

end
