(* ===== verification/RateLimit.thy ===== *)
theory RateLimit
  imports Prelude
begin

text \<open>The fixed-window limiter of @<doclinkd/src/server.rs> in front of the pairing endpoints: one
  counter and window start per address. An @<Instant> is a number of nanoseconds that never
  decreases from one call to the next.\<close>

definition PAIR_RATE_PER_MIN :: nat where "PAIR_RATE_PER_MIN = 20"

record limiter =
  lm_buckets :: "(string \<times> (nat \<times> nat)) list"
  lm_max :: nat
  lm_window :: nat

definition limiter_new :: "nat \<Rightarrow> limiter" where
  "limiter_new m = \<lparr>lm_buckets = [], lm_max = m, lm_window = 60 * 10 ^ 9\<rparr>"

definition limiter_default :: limiter where
  "limiter_default = limiter_new PAIR_RATE_PER_MIN"

definition allow :: "nat \<Rightarrow> string \<Rightarrow> limiter \<Rightarrow> bool \<times> limiter" where
  "allow now ip l = (let
     entry = (case map_of (lm_buckets l) ip of None \<Rightarrow> (0, now) | Some e \<Rightarrow> e);
     entry = (if lm_window l \<le> now - snd entry then (0, now) else entry);
     put = (\<lambda>e. l\<lparr>lm_buckets := AList.update ip e (lm_buckets l)\<rparr>)
   in if lm_max l \<le> fst entry then (False, put entry)
      else (True, put (Suc (fst entry), snd entry)))"

text \<open>A sequence of calls, each with its clock reading: how many calls of one address pass.\<close>

fun passed :: "string \<Rightarrow> (nat \<times> string) list \<Rightarrow> limiter \<Rightarrow> nat" where
  "passed ip [] l = 0"
| "passed ip ((now, a) # cs) l = (let (ok, l') = allow now a l in
     (if ok \<and> a = ip then 1 else 0) + passed ip cs l')"

lemma allow_keeps [simp]: "lm_max (snd (allow now ip l)) = lm_max l"
    "lm_window (snd (allow now ip l)) = lm_window l"
  by (simp_all add: allow_def Let_def)

lemma allow_other: "a \<noteq> ip \<Longrightarrow> map_of (lm_buckets (snd (allow now a l))) ip = map_of (lm_buckets l) ip"
  by (simp add: allow_def Let_def update_conv)

lemma allow_same_window:
  assumes "map_of (lm_buckets l) ip = Some (c, s)" "now - s < lm_window l"
  shows "fst (allow now ip l) = (c < lm_max l)"
    "map_of (lm_buckets (snd (allow now ip l))) ip =
       Some (if c < lm_max l then Suc c else c, s)"
  using assms by (auto simp: allow_def Let_def update_conv)

lemma allow_fresh:
  assumes "map_of (lm_buckets l) ip = None
    \<or> (\<exists>c s. map_of (lm_buckets l) ip = Some (c, s) \<and> lm_window l \<le> now - s)"
  shows "fst (allow now ip l) = (0 < lm_max l)"
    "map_of (lm_buckets (snd (allow now ip l))) ip = Some (if 0 < lm_max l then 1 else 0, now)"
  using assms by (auto simp: allow_def Let_def update_conv)

text \<open>As long as the window of an address does not end, only the rest of its quota passes.\<close>

lemma passed_in_window:
  assumes "map_of (lm_buckets l) ip = Some (c, s)" "\<forall>x \<in> set cs. fst x < s + lm_window l" "0 < lm_window l"
  shows "passed ip cs l \<le> lm_max l - c"
  using assms
proof (induction cs arbitrary: l c)
  case (Cons x cs)
  obtain now a where x: "x = (now, a)" by force
  let ?l = "snd (allow now a l)"
  have w: "\<forall>x \<in> set cs. fst x < s + lm_window ?l" "0 < lm_window ?l" using Cons.prems by auto
  show ?case
  proof (cases "a = ip")
    case True
    have lt: "now - s < lm_window l" using Cons.prems x by auto
    note st = allow_same_window [OF Cons.prems(1) lt]
    have "passed ip cs ?l \<le> lm_max ?l - (if c < lm_max l then Suc c else c)"
      using Cons.IH [of ?l] st(2) w True by simp
    then show ?thesis using x True st(1) by (auto simp: case_prod_beta)
  next
    case False
    then have "passed ip cs ?l \<le> lm_max ?l - c"
      using Cons.IH [of ?l c] allow_other [OF False] Cons.prems(1) w by simp
    then show ?thesis using x False by (simp add: case_prod_beta)
  qed
qed simp

text \<open>Calls that span less than a window cross at most one window boundary.\<close>

definition quota_left :: "string \<Rightarrow> limiter \<Rightarrow> nat" where
  "quota_left ip l = (case map_of (lm_buckets l) ip of None \<Rightarrow> 0 | Some e \<Rightarrow> lm_max l - fst e)"

lemma passed_in_span:
  assumes "\<forall>x \<in> set cs. t \<le> fst x \<and> fst x < t + lm_window l" "0 < lm_window l"
  shows "passed ip cs l \<le> lm_max l + quota_left ip l"
  using assms
proof (induction cs arbitrary: l)
  case (Cons x cs)
  obtain now a where x: "x = (now, a)" by force
  let ?l = "snd (allow now a l)" and ?b = "map_of (lm_buckets l) ip"
  have w: "\<forall>x \<in> set cs. t \<le> fst x \<and> fst x < t + lm_window ?l" "0 < lm_window ?l"
    using Cons.prems by auto
  note IH = Cons.IH [OF w]
  show ?case
  proof (cases "a = ip")
    case False
    then have "quota_left ip ?l = quota_left ip l" by (simp add: quota_left_def allow_other split: option.split)
    then show ?thesis using IH x False by (simp add: case_prod_beta)
  next
    case a: True
    show ?thesis
    proof (cases "?b = None \<or> (\<exists>c s. ?b = Some (c, s) \<and> lm_window l \<le> now - s)")
      case True
      note st = allow_fresh [OF True]
      have now: "t \<le> now" using Cons.prems x by simp
      have "passed ip cs ?l \<le> lm_max ?l - (if 0 < lm_max l then 1 else 0)"
        by (rule passed_in_window [where s = now]) (use st(2) a w now in auto)
      then show ?thesis using x a st(1) by (auto simp: case_prod_beta)
    next
      case False
      then obtain c s where b: "?b = Some (c, s)" "now - s < lm_window l"
        by (cases ?b) (auto simp: not_le)
      note st = allow_same_window [OF b]
      show ?thesis using x a st IH b(1) by (auto simp: case_prod_beta quota_left_def)
    qed
  qed
qed simp

end
