(* ===== verification/Pairing.thy ===== *)
theory Pairing
  imports Prelude Externals Protocol Identity Store
begin

text \<open>The pairing state of @<doclinkd/src/server.rs>: requests waiting for the owner and recent
  decisions, both bounded, and what deciding a request does to them and to the grants. A clock
  reading is an argument @<now> of the function that takes it.\<close>

section \<open>State\<close>

definition MAX_PENDING :: nat where "MAX_PENDING = 64"
definition PENDING_TTL_SECS :: u64 where "PENDING_TTL_SECS = 600"
definition MAX_DECISIONS :: nat where "MAX_DECISIONS = 256"

record pair_entry =
  pe_request :: pair_request
  pe_received_unix :: u64

record pairing =
  pending :: "(string \<times> pair_entry) list"
  decisions :: "(string \<times> (pair_status_response \<times> u64)) list"

definition pairing_default :: pairing where
  "pairing_default = \<lparr>pending = [], decisions = []\<rparr>"

section \<open>Operations\<close>

definition prune_pending :: "u64 \<Rightarrow> pairing \<Rightarrow> pairing" where
  "prune_pending now p = (let cutoff = sat_sub now PENDING_TTL_SECS in
     p\<lparr>pending := filter (\<lambda>e. cutoff < pe_received_unix (snd e)) (pending p)\<rparr>)"

definition admit_pending :: "u64 \<Rightarrow> u64 \<Rightarrow> pair_request \<Rightarrow> pairing \<Rightarrow> (string + unit) \<times> pairing" where
  "admit_pending now now2 req p = (let p = prune_pending now p in
     if map_of (pending p) (pr_node_id req) = None \<and> MAX_PENDING \<le> length (pending p)
     then (Inl (''too many pending pairing requests right now '' @ em_dash @ '' try again later''), p)
     else (Inr (), p\<lparr>pending := AList.update (pr_node_id req)
             \<lparr>pe_request = req, pe_received_unix = now2\<rparr> (pending p)\<rparr>))"

definition remember_decision :: "u64 \<Rightarrow> string \<Rightarrow> pair_status_response \<Rightarrow> pairing \<Rightarrow> pairing" where
  "remember_decision now nid resp p = (let
     d = decisions p;
     d = (if map_of d nid = None \<and> MAX_DECISIONS \<le> length d
          then (if d = [] then d
                else AList.delete (fst (arg_min_list (\<lambda>e. snd (snd e)) d)) d)
          else d)
   in p\<lparr>decisions := AList.update nid (resp, now) d\<rparr>)"

definition granted :: "u64 \<Rightarrow> u64 \<Rightarrow> bool \<Rightarrow> bool \<Rightarrow> string \<Rightarrow> pair_request \<Rightarrow> grant" where
  "granted now duration files print fp req = \<lparr>g_fingerprint = fp, g_node_id = pr_node_id req,
     g_name = pr_name req, g_granted_unix = now,
     g_expires_unix = (if duration = 0 then None else Some (now + duration)),
     g_paths = [], g_allow_files = files, g_allow_print = print\<rparr>"

definition apply_decision_with_perms :: "ext \<Rightarrow> grants_file codec \<Rightarrow> (nat \<Rightarrow> nat option) \<Rightarrow> u64
    \<Rightarrow> string \<Rightarrow> string \<Rightarrow> u64 \<Rightarrow> bool option \<Rightarrow> bool option \<Rightarrow> pairing \<Rightarrow> grants_file store
    \<Rightarrow> (string + pair_status_response) \<times> pairing \<times> grants_file store" where
  "apply_decision_with_perms x cd faults now nid decision duration allow_files allow_print p st =
     (case map_of (pending p) nid of
       None \<Rightarrow> (Inl ''no pending request from this node'', p, st)
     | Some entry \<Rightarrow> let
         req = pe_request entry;
         p = p\<lparr>pending := AList.delete nid (pending p)\<rparr>
       in if decision \<noteq> ''approve'' then
         (let resp = \<lparr>ps_status = Denied, ps_expires_unix = None\<rparr>
          in (Inr resp, remember_decision now nid resp p, st))
       else let
         files = (case allow_files of None \<Rightarrow> True | Some b \<Rightarrow> b);
         print = (case allow_print of None \<Rightarrow> False | Some b \<Rightarrow> b)
       in if \<not> files \<and> \<not> print then (Inl ''grant must allow at least files or printing'', p, st)
       else (case fingerprint_from_pubkey_hex x (pr_pubkey_hex req) of
         None \<Rightarrow> (Inl ''bad pubkey'', p, st)
       | Some fp \<Rightarrow> let
           g = granted now duration files print fp req;
           (ok, st') = store_save cd faults (st\<lparr>st_data := grants_upsert g (st_data st)\<rparr>)
         in (if ok then Inr \<lparr>ps_status = Approved, ps_expires_unix = g_expires_unix g\<rparr>
             else Inl ''failed to persist grant'', p, st')))"

definition apply_decision :: "ext \<Rightarrow> grants_file codec \<Rightarrow> (nat \<Rightarrow> nat option) \<Rightarrow> u64
    \<Rightarrow> string \<Rightarrow> string \<Rightarrow> u64 \<Rightarrow> pairing \<Rightarrow> grants_file store
    \<Rightarrow> (string + pair_status_response) \<times> pairing \<times> grants_file store" where
  "apply_decision x cd faults now nid decision duration p st =
     apply_decision_with_perms x cd faults now nid decision duration None None p st"

definition pair_status_lookup :: "u64 \<Rightarrow> pairing \<Rightarrow> grants_file \<Rightarrow> string \<Rightarrow> pair_status_response" where
  "pair_status_lookup now p gs nid =
     (if map_of (pending p) nid \<noteq> None then \<lparr>ps_status = Pending, ps_expires_unix = None\<rparr>
      else (case map_of (decisions p) nid of
        Some d \<Rightarrow> fst d
      | None \<Rightarrow> (case List.find (\<lambda>g. g_node_id g = nid \<and> grant_live now g) gs of
          Some g \<Rightarrow> \<lparr>ps_status = Approved, ps_expires_unix = g_expires_unix g\<rparr>
        | None \<Rightarrow> \<lparr>ps_status = Unknown, ps_expires_unix = None\<rparr>)))"

section \<open>Bounds\<close>

definition pairing_ok :: "pairing \<Rightarrow> bool" where
  "pairing_ok p \<longleftrightarrow> distinct (map fst (pending p)) \<and> distinct (map fst (decisions p))
     \<and> length (pending p) \<le> MAX_PENDING \<and> length (decisions p) \<le> MAX_DECISIONS
     \<and> list_all (\<lambda>(k, e). pr_node_id (pe_request e) = k) (pending p)"

lemma length_update_new: "map_of xs k = None \<Longrightarrow> length (AList.update k v xs) = Suc (length xs)"
  by (induction xs) (auto split: if_splits)

lemma length_update_old: "map_of xs k \<noteq> None \<Longrightarrow> length (AList.update k v xs) = length xs"
  by (induction xs) (auto split: if_splits)

lemma length_update_le: "length (AList.update k v xs) \<le> Suc (length xs)"
  by (induction xs) auto

lemma set_update_alist: "e \<in> set (AList.update k v xs) \<Longrightarrow> e = (k, v) \<or> e \<in> set xs"
  by (induction xs) (auto split: if_splits)

lemma length_delete_in: "k \<in> set (map fst xs) \<Longrightarrow> Suc (length (AList.delete k xs)) \<le> length xs"
proof (induction xs)
  case (Cons x xs)
  have "length (AList.delete k xs) \<le> length xs" by (rule length_delete_le)
  then show ?case using Cons by auto
qed simp

lemma arg_min_list_in_set: "xs \<noteq> [] \<Longrightarrow> arg_min_list f xs \<in> set xs"
  by (rule arg_min_list_in)

lemma delete_set_sub: "set (AList.delete k xs) \<subseteq> set xs"
  by (induction xs) auto

lemma pairing_ok_default: "pairing_ok pairing_default"
  by (simp add: pairing_ok_def pairing_default_def)

lemma prune_pending_ok: "pairing_ok p \<Longrightarrow> pairing_ok (prune_pending now p)"
  by (auto simp: pairing_ok_def prune_pending_def Let_def distinct_map_filter list_all_iff
      intro: order_trans [OF length_filter_le])

lemma admit_pending_ok:
  assumes "pairing_ok p"
  shows "pairing_ok (snd (admit_pending now now2 req p))"
proof -
  let ?p = "prune_pending now p" and ?e = "\<lparr>pe_request = req, pe_received_unix = now2\<rparr>"
  have p: "pairing_ok ?p" by (rule prune_pending_ok [OF assms])
  show ?thesis
  proof (cases "map_of (pending ?p) (pr_node_id req) = None \<and> MAX_PENDING \<le> length (pending ?p)")
    case True
    then show ?thesis using p by (simp add: admit_pending_def Let_def)
  next
    case False
    then have "length (AList.update (pr_node_id req) ?e (pending ?p)) \<le> MAX_PENDING"
      using p length_update_new [of "pending ?p" "pr_node_id req" ?e]
        length_update_old [of "pending ?p" "pr_node_id req" ?e]
      by (cases "map_of (pending ?p) (pr_node_id req)") (auto simp: pairing_ok_def)
    then show ?thesis using False p
      by (auto simp: admit_pending_def Let_def pairing_ok_def distinct_update list_all_iff
          dest!: set_update_alist)
  qed
qed

lemma remember_decision_ok:
  assumes "pairing_ok p"
  shows "pairing_ok (remember_decision now nid resp p)"
proof -
  let ?d = "decisions p" and ?k = "fst (arg_min_list (\<lambda>e. snd (snd e)) (decisions p))"
  have d: "distinct (map fst ?d)" "length ?d \<le> MAX_DECISIONS" using assms by (auto simp: pairing_ok_def)
  have k: "Suc (length (AList.delete ?k ?d)) \<le> length ?d" if "?d \<noteq> []"
    using arg_min_list_in [OF that] by (intro length_delete_in) auto
  have "length (AList.update nid (resp, now) (if map_of ?d nid = None \<and> MAX_DECISIONS \<le> length ?d
      then if ?d = [] then ?d else AList.delete ?k ?d else ?d)) \<le> MAX_DECISIONS"
    using k d length_update_le [of nid "(resp, now)" "AList.delete ?k ?d"]
      length_update_new [of ?d nid "(resp, now)"] length_update_old [of ?d nid "(resp, now)"]
    by (cases "map_of ?d nid = None") (auto simp: MAX_DECISIONS_def)
  then show ?thesis using assms
    by (auto simp: remember_decision_def Let_def pairing_ok_def distinct_update distinct_delete)
qed

lemma admitted_fresh:
  assumes "e \<in> set (pending (snd (admit_pending now now2 req p)))"
  shows "sat_sub now PENDING_TTL_SECS < pe_received_unix (snd e) \<or> e = (pr_node_id req, \<lparr>pe_request = req, pe_received_unix = now2\<rparr>)"
  using assms by (auto simp: admit_pending_def prune_pending_def Let_def dest!: set_update_alist split: if_splits)

lemma admit_Inr_lookup:
  "fst (admit_pending now now2 req p) = Inr () \<Longrightarrow>
    map_of (pending (snd (admit_pending now now2 req p))) (pr_node_id req)
      = Some \<lparr>pe_request = req, pe_received_unix = now2\<rparr>"
  by (auto simp: admit_pending_def Let_def update_conv split: if_splits)

lemma remember_pending [simp]: "pending (remember_decision now nid resp p) = pending p"
  by (simp add: remember_decision_def Let_def)

lemma remember_lookup: "map_of (decisions (remember_decision now nid resp p)) nid = Some (resp, now)"
  by (simp add: remember_decision_def Let_def update_conv)

lemma pairing_ok_delete: "pairing_ok p \<Longrightarrow> pairing_ok (p\<lparr>pending := AList.delete nid (pending p)\<rparr>)"
  using length_delete_le [of nid "pending p"] delete_set_sub [of nid "pending p"]
  by (auto simp: pairing_ok_def distinct_delete list_all_iff)

section \<open>What a decision does\<close>

lemma apply_pending:
  assumes "distinct (map fst (pending p))"
    "apply_decision_with_perms x cd faults now nid decision dur af ap p st = (out, p', st')"
  shows "map_of (pending p') = (map_of (pending p))(nid := None)"
  using assms delete_conv [of nid "pending p"]
  by (auto simp: apply_decision_with_perms_def Let_def split: option.splits if_splits prod.splits)

lemma apply_pairing_ok:
  assumes "pairing_ok p"
    "apply_decision_with_perms x cd faults now nid decision dur af ap p st = (out, p', st')"
  shows "pairing_ok p'"
  using assms pairing_ok_delete remember_decision_ok
  by (auto simp: apply_decision_with_perms_def Let_def split: option.splits if_splits prod.splits)

lemma apply_denied:
  assumes "apply_decision_with_perms x cd faults now nid decision dur af ap p st = (out, p', st')"
    "decision \<noteq> ''approve''"
  shows "st' = st \<and> (map_of (pending p) nid \<noteq> None \<longrightarrow>
      map_of (decisions p') nid = Some (\<lparr>ps_status = Denied, ps_expires_unix = None\<rparr>, now))"
  using assms remember_lookup
  by (auto simp: apply_decision_with_perms_def Let_def split: option.splits)

text \<open>An approval, whether or not it reaches the disk, sets exactly the grant of the waiting key.\<close>

lemma apply_approved:
  assumes "apply_decision_with_perms x cd faults now nid ''approve'' dur af ap p st = (Inr resp, p', st')"
  obtains e fp g where "map_of (pending p) nid = Some e"
    "fingerprint_from_pubkey_hex x (pr_pubkey_hex (pe_request e)) = Some fp"
    "g = granted now dur (case af of None \<Rightarrow> True | Some b \<Rightarrow> b)
       (case ap of None \<Rightarrow> False | Some b \<Rightarrow> b) fp (pe_request e)"
    "g_allow_files g \<or> g_allow_print g"
    "st_data st' = grants_upsert g (st_data st)"
    "decisions p' = decisions p" "pending p' = AList.delete nid (pending p)"
    "resp = \<lparr>ps_status = Approved, ps_expires_unix = g_expires_unix g\<rparr>"
proof -
  obtain e where e: "map_of (pending p) nid = Some e"
    using assms by (auto simp: apply_decision_with_perms_def split: option.splits)
  obtain fp where fp: "fingerprint_from_pubkey_hex x (pr_pubkey_hex (pe_request e)) = Some fp"
    using assms e by (auto simp: apply_decision_with_perms_def Let_def split: option.splits if_splits)
  define files print where d: "files = (case af of None \<Rightarrow> True | Some b \<Rightarrow> b)"
    "print = (case ap of None \<Rightarrow> False | Some b \<Rightarrow> b)"
  define g where g: "g = granted now dur files print fp (pe_request e)"
  have perm: "files \<or> print"
    using assms e d by (auto simp: apply_decision_with_perms_def Let_def split: if_splits)
  have r: "store_save cd faults (st\<lparr>st_data := grants_upsert g (st_data st)\<rparr>) = (True, st')
      \<and> resp = \<lparr>ps_status = Approved, ps_expires_unix = g_expires_unix g\<rparr>
      \<and> p' = p\<lparr>pending := AList.delete nid (pending p)\<rparr>"
    using assms e fp perm
    by (auto simp: apply_decision_with_perms_def Let_def g simp flip: d split: if_splits prod.splits)
  then have "st_data st' = grants_upsert g (st_data st)"
    using store_save_data [of cd faults "st\<lparr>st_data := grants_upsert g (st_data st)\<rparr>"] by simp
  with r perm show thesis by (intro that [OF e fp g [unfolded d]]) (auto simp: g granted_def)
qed

text \<open>Whatever comes of a decision, the grants stay or gain the one grant of the waiting key.\<close>

lemma grants_after_decision:
  assumes a: "apply_decision_with_perms x cd faults now nid decision dur af ap p st = (out, p', st')"
  shows "st_data st' = st_data st \<or> (\<exists>e fp files print. map_of (pending p) nid = Some e
    \<and> fingerprint_from_pubkey_hex x (pr_pubkey_hex (pe_request e)) = Some fp
    \<and> (files \<or> print) \<and> decision = ''approve''
    \<and> st_data st' = grants_upsert (granted now dur files print fp (pe_request e)) (st_data st))"
proof (cases "\<exists>e fp. map_of (pending p) nid = Some e \<and> decision = ''approve''
    \<and> fingerprint_from_pubkey_hex x (pr_pubkey_hex (pe_request e)) = Some fp")
  case True
  then obtain e fp where e: "map_of (pending p) nid = Some e" "decision = ''approve''"
    "fingerprint_from_pubkey_hex x (pr_pubkey_hex (pe_request e)) = Some fp" by blast
  define files print where d: "files = (case af of None \<Rightarrow> True | Some b \<Rightarrow> b)"
    "print = (case ap of None \<Rightarrow> False | Some b \<Rightarrow> b)"
  let ?st = "st\<lparr>st_data := grants_upsert (granted now dur files print fp (pe_request e)) (st_data st)\<rparr>"
  have "st' = st \<or> (files \<or> print) \<and> st' = snd (store_save cd faults ?st)"
    using a e by (auto simp: apply_decision_with_perms_def Let_def simp flip: d split: if_splits prod.splits)
  then show ?thesis using e store_save_data [of cd faults ?st] by fastforce
next
  case False
  then have "st' = st"
    using a by (auto simp: apply_decision_with_perms_def Let_def split: option.splits if_splits)
  then show ?thesis by simp
qed

text \<open>A decision recorded earlier still answers the status poll after an approval.\<close>

lemma recorded_decision_wins:
  assumes "distinct (map fst (pending p))"
    "apply_decision_with_perms x cd faults now nid ''approve'' dur af ap p st = (Inr resp, p', st')"
    "map_of (decisions p) nid = Some (old, t)"
  shows "pair_status_lookup now' p' (st_data st') nid = old"
proof -
  have "map_of (pending p') nid = None" using apply_pending [OF assms(1,2)] by simp
  moreover have "map_of (decisions p') nid = Some (old, t)"
    using assms(2,3) by (elim apply_approved) simp
  ultimately show ?thesis by (simp add: pair_status_lookup_def)
qed

end
