(* ===== verification/LocalPrint.thy ===== *)
theory LocalPrint
  imports Prelude Externals Identity Store
begin

text \<open>The client of the local PrintLink agent, @<doclinkd/src/local_print.rs>: the ports it tries,
  the persona and the token, pairing with the certificate pin, the expiry of a token, and sending
  a job. The agent's answers are functions of a record of the network; a request that fails is an
  error text, as @<anyhow> carries it.\<close>

section \<open>Ports and persona\<close>

definition PRINTLINK_LOCAL_PORT :: u16 where "PRINTLINK_LOCAL_PORT = 9100"
definition MAX_JOB_BYTES :: nat where "MAX_JOB_BYTES = 100 * 1024 * 1024"

definition local_port :: "string option \<Rightarrow> u16" where
  "local_port env = (case env of
     None \<Rightarrow> PRINTLINK_LOCAL_PORT
   | Some v \<Rightarrow> (case parse_uint (2 ^ 16) v of
       None \<Rightarrow> PRINTLINK_LOCAL_PORT | Some n \<Rightarrow> of_nat n))"

definition ports_to_try :: "string option \<Rightarrow> u16 list" where
  "ports_to_try env = (let
     primary = local_port env;
     v = [primary];
     v = (if primary \<noteq> 19100 then v @ [19100] else v)
   in if primary \<noteq> PRINTLINK_LOCAL_PORT \<and> PRINTLINK_LOCAL_PORT \<notin> set v
      then v @ [PRINTLINK_LOCAL_PORT] else v)"

definition from_be_bytes :: "bytes \<Rightarrow> nat" where
  "from_be_bytes b = foldl (\<lambda>a c. a * 256 + byte_of c) 0 b"

definition zero_pad :: "nat \<Rightarrow> string \<Rightarrow> string" where
  "zero_pad w s = replicate (w - length s) (CHR ''0'') @ s"

definition persona_id :: "ext \<Rightarrow> node_identity \<Rightarrow> string" where
  "persona_id x i = (let
     hash = x_sha256 x (fingerprint x i);
     n = from_be_bytes (take 8 (drop 24 hash)) mod 1000000000
   in zero_pad 9 (show_nat n))"

definition is_valid_id :: "string \<Rightarrow> bool" where
  "is_valid_id s \<longleftrightarrow> length s = 9 \<and> list_all is_digit s"

section \<open>Keys, signatures, sealing\<close>

definition key_from_token :: "ext \<Rightarrow> string \<Rightarrow> bytes" where
  "key_from_token x token = (let
     raw = (case x_hex_decode x token of None \<Rightarrow> token | Some b \<Rightarrow> b) in x_sha256 x raw)"

definition token_hint :: "ext \<Rightarrow> string \<Rightarrow> string" where
  "token_hint x token = take 16 (x_hex_encode x (x_sha256 x token))"

definition sign_nonce :: "ext \<Rightarrow> string \<Rightarrow> string \<Rightarrow> string" where
  "sign_nonce x token nonce = x_hex_encode x (x_hmac_sha256 x (key_from_token x token) nonce)"

definition encrypt_payload :: "ext \<Rightarrow> bytes \<Rightarrow> bytes \<Rightarrow> string \<Rightarrow> string + bytes" where
  "encrypt_payload x nonce plain token =
     (case x_aes_seal x (key_from_token x token) nonce plain of
       Inl e \<Rightarrow> Inl (''AES-GCM encrypt: '' @ e) | Inr ct \<Rightarrow> Inr (nonce @ ct))"

definition decrypt_payload :: "ext \<Rightarrow> bytes \<Rightarrow> string \<Rightarrow> string + bytes" where
  "decrypt_payload x blob token =
     (if length blob < 12 + 16 then Inl ''blob too short''
      else (case x_aes_open x (key_from_token x token) (take 12 blob) (drop 12 blob) of
        None \<Rightarrow> Inl ''decrypt failed'' | Some pt \<Rightarrow> Inr pt))"

section \<open>Token expiry\<close>

fun split_any :: "char list \<Rightarrow> string \<Rightarrow> string list" where
  "split_any seps [] = [[]]"
| "split_any seps (c # s) = (if c \<in> set seps then [] # split_any seps s
     else (case split_any seps s of [] \<Rightarrow> [[c]] | w # ws \<Rightarrow> (c # w) # ws))"

definition days_since_epoch :: "u64 \<Rightarrow> u64 \<Rightarrow> u64 \<Rightarrow> u64 option" where
  "days_since_epoch y m d =
     (if \<not> (1970 \<le> y \<and> y \<le> 2100) \<or> \<not> (1 \<le> m \<and> m \<le> 12) \<or> \<not> (1 \<le> d \<and> d \<le> 31) then None
      else let
        y = uint y; m = uint m; d = uint d;
        (y, m) = (if m \<le> 2 then (y - 1, m + 12) else (y, m));
        era = y div 400;
        yoe = y - era * 400;
        doy = (153 * (m - 3) + 2) div 5 + d - 1;
        doe = yoe * 365 + yoe div 4 - yoe div 100 + doy
      in Some (word_of_int (era * 146097 + doe - 719468)))"

definition expires_unix :: "string \<Rightarrow> u64 option" where
  "expires_unix s = (case map parse_u64 (split_any [CHR '' '', CHR ''-'', CHR '':''] s) of
     Some y # Some mo # Some d # Some h # Some mi # Some sec # _ \<Rightarrow>
       (case days_since_epoch y mo d of
         None \<Rightarrow> None
       | Some days \<Rightarrow> Some (days * 86400 + h * 3600 + mi * 60 + sec))
   | _ \<Rightarrow> None)"

definition is_expired :: "u64 \<Rightarrow> string \<Rightarrow> bool" where
  "is_expired now s = (case expires_unix s of Some u \<Rightarrow> u \<le> now | None \<Rightarrow> True)"

section \<open>The agent's answers\<close>

record local_print_token =
  lt_token :: string
  lt_expires_at :: string
  lt_pinned_fp :: string
  lt_added_unix :: u64

type_synonym local_print_file = "local_print_token option"

record host_printer =
  hp_alias :: string
  hp_offline :: bool
  hp_paused :: bool
  hp_error :: bool
  hp_jobs_queued :: u64

record share_accept =
  sa_status :: string
  sa_token :: string
  sa_expires_at :: string
  sa_tls_fp :: string

text \<open>A response: the TLS session and its certificate, if known; the status; the body, if it
  parses.\<close>

record 'b pl_resp =
  rp_tls :: "bytes option option"
  rp_status :: nat
  rp_body :: "'b option"

record share_post =
  sp_sender_id :: string
  sp_sender_name :: string
  sp_printer_alias :: string
  sp_days :: u64

record print_post =
  pp_sender_id :: string
  pp_hint :: string
  pp_nonce :: string
  pp_signature :: string
  pp_file_name :: string
  pp_payload :: bytes

record pl_net =
  nt_printers :: "u16 \<Rightarrow> string + host_printer list pl_resp"
  nt_challenge :: "u16 \<Rightarrow> string \<Rightarrow> string + string option pl_resp"
  nt_share :: "u16 \<Rightarrow> share_post \<Rightarrow> string + share_accept pl_resp"
  nt_print :: "u16 \<Rightarrow> print_post \<Rightarrow> string + string option pl_resp"
  nt_status_text :: "nat \<Rightarrow> string"

definition der_fingerprint :: "ext \<Rightarrow> 'b pl_resp \<Rightarrow> string + string" where
  "der_fingerprint x r = (case rp_tls r of
     None \<Rightarrow> Inl ''no TLS session info''
   | Some None \<Rightarrow> Inl ''no peer cert''
   | Some (Some cert) \<Rightarrow> Inr (x_hex_encode x (x_sha256 x cert)))"

definition check_pin :: "ext \<Rightarrow> 'b pl_resp \<Rightarrow> string \<Rightarrow> string + string" where
  "check_pin x r expected = (case der_fingerprint x r of
     Inl e \<Rightarrow> Inl e
   | Inr got \<Rightarrow>
     if \<not> eq_ignore_ascii_case got expected
     then Inl (''TLS pin mismatch: expected '' @ expected @ '', got '' @ got) else Inr got)"

definition success_status :: "nat \<Rightarrow> bool" where
  "success_status s \<longleftrightarrow> 200 \<le> s \<and> s < 300"

definition list_printers_on_port :: "ext \<Rightarrow> pl_net \<Rightarrow> u16 \<Rightarrow> string option
    \<Rightarrow> string + host_printer list \<times> string" where
  "list_printers_on_port x net port expected = (case nt_printers net port of
     Inl e \<Rightarrow> Inl ''connecting to local PrintLink''
   | Inr r \<Rightarrow> (case der_fingerprint x r of
       Inl e \<Rightarrow> Inl e
     | Inr fp \<Rightarrow> (case (case expected of None \<Rightarrow> Inr fp | Some want \<Rightarrow> check_pin x r want) of
         Inl e \<Rightarrow> Inl e
       | Inr _ \<Rightarrow>
         if \<not> success_status (rp_status r)
         then Inl (''local /printers returned '' @ nt_status_text net (rp_status r))
         else (case rp_body r of
           None \<Rightarrow> Inl ''parsing /printers'' | Some ps \<Rightarrow> Inr (ps, fp)))))"

definition auth_challenge_on_port :: "ext \<Rightarrow> pl_net \<Rightarrow> u16 \<Rightarrow> string \<Rightarrow> string + string" where
  "auth_challenge_on_port x net port sender_id =
     (case nt_challenge net port (x_url_encode x sender_id) of
       Inl e \<Rightarrow> Inl ''local /auth-challenge''
     | Inr r \<Rightarrow>
       if \<not> success_status (rp_status r)
       then Inl (''local /auth-challenge returned '' @ nt_status_text net (rp_status r))
       else (case rp_body r of
         None \<Rightarrow> Inl ''parsing challenge''
       | Some None \<Rightarrow> Inl ''no nonce in challenge''
       | Some (Some n) \<Rightarrow> Inr n))"

definition request_share_on_port :: "ext \<Rightarrow> pl_net \<Rightarrow> u16 \<Rightarrow> string \<Rightarrow> string \<Rightarrow> string \<Rightarrow> string
    \<Rightarrow> u64 \<Rightarrow> string + share_accept \<times> string" where
  "request_share_on_port x net port expected_fp sender_id sender_name alias days =
     (case nt_share net port \<lparr>sp_sender_id = sender_id, sp_sender_name = sender_name,
          sp_printer_alias = alias, sp_days = days\<rparr> of
       Inl e \<Rightarrow> Inl ''local /request-share''
     | Inr r \<Rightarrow> (case der_fingerprint x r of
         Inl e \<Rightarrow> Inl e
       | Inr fp \<Rightarrow> (case check_pin x r expected_fp of
           Inl e \<Rightarrow> Inl e
         | Inr _ \<Rightarrow> (case rp_body r of
             None \<Rightarrow> Inl ''parsing /request-share''
           | Some a \<Rightarrow>
             if sa_status a \<noteq> ''accepted'' then Inl (''local /request-share refused: '' @ sa_status a)
             else if rp_status r \<noteq> 200
             then Inl (''local /request-share returned '' @ nt_status_text net (rp_status r))
             else Inr (a, fp)))))"

section \<open>Pairing with the agent\<close>

text \<open>One port after the other; the last error is kept for the end.\<close>

fun pair_on_ports :: "ext \<Rightarrow> pl_net \<Rightarrow> local_print_file codec \<Rightarrow> (nat \<Rightarrow> nat option) \<Rightarrow> u64 \<Rightarrow> string
    \<Rightarrow> string \<Rightarrow> u16 list \<Rightarrow> string option \<Rightarrow> local_print_file store
    \<Rightarrow> (string + local_print_token) \<times> local_print_file store" where
  "pair_on_ports x net cd faults now persona sender_name [] last_err st =
     (Inl (case last_err of Some e \<Rightarrow> e
        | None \<Rightarrow> ''local PrintLink not reachable '' @ em_dash @ '' is it running on 9100?''), st)"
| "pair_on_ports x net cd faults now persona sender_name (port # ports) last_err st =
     (case list_printers_on_port x net port None of
       Inl e \<Rightarrow> pair_on_ports x net cd faults now persona sender_name ports (Some e) st
     | Inr (printers, fp) \<Rightarrow>
       (case printers of
         [] \<Rightarrow> pair_on_ports x net cd faults now persona sender_name ports
             (Some (''local PrintLink on '' @ show_nat (unat port) @ '' has no shared printers'')) st
       | p0 # _ \<Rightarrow> let
           pin = (case st_data st of None \<Rightarrow> fp | Some t \<Rightarrow> lt_pinned_fp t)
         in (case request_share_on_port x net port pin persona sender_name (hp_alias p0) 30 of
             Inl e \<Rightarrow> pair_on_ports x net cd faults now persona sender_name ports (Some e) st
           | Inr (a, _) \<Rightarrow>
             if \<not> eq_ignore_ascii_case (sa_tls_fp a) pin \<and> \<not> eq_ignore_ascii_case (sa_tls_fp a) fp
             then pair_on_ports x net cd faults now persona sender_name ports
               (Some (''local PrintLink tls_fp mismatch on '' @ show_nat (unat port))) st
             else let
               tok = \<lparr>lt_token = sa_token a, lt_expires_at = sa_expires_at a, lt_pinned_fp = pin,
                 lt_added_unix = now\<rparr>
             in (Inr tok, snd (store_save cd faults (st\<lparr>st_data := Some tok\<rparr>))))))"

definition ensure_paired :: "ext \<Rightarrow> pl_net \<Rightarrow> string option \<Rightarrow> local_print_file codec
    \<Rightarrow> (nat \<Rightarrow> nat option) \<Rightarrow> u64 \<Rightarrow> u64 \<Rightarrow> node_identity \<Rightarrow> string \<Rightarrow> local_print_file store
    \<Rightarrow> (string + local_print_token) \<times> local_print_file store" where
  "ensure_paired x net env cd faults now now2 i sender_name st =
     (case st_data st of
       Some t \<Rightarrow>
         if \<not> is_expired now (lt_expires_at t) \<and> lt_token t \<noteq> [] \<and> lt_pinned_fp t \<noteq> []
         then (Inr t, st)
         else pair_on_ports x net cd faults now2 (persona_id x i) sender_name (ports_to_try env) None st
     | None \<Rightarrow> pair_on_ports x net cd faults now2 (persona_id x i) sender_name (ports_to_try env) None st)"

section \<open>Sending a job\<close>

definition job_post :: "ext \<Rightarrow> local_print_token \<Rightarrow> string \<Rightarrow> string \<Rightarrow> string \<Rightarrow> bytes \<Rightarrow> print_post" where
  "job_post x t sender_id filename nonce sealed = \<lparr>pp_sender_id = sender_id,
     pp_hint = token_hint x (lt_token t), pp_nonce = nonce,
     pp_signature = sign_nonce x (lt_token t) nonce,
     pp_file_name = last (split_on (CHR ''/'') filename), pp_payload = sealed\<rparr>"

definition print_outcome :: "pl_net \<Rightarrow> nat \<Rightarrow> string \<Rightarrow> string + unit" where
  "print_outcome net status msg =
     (if status = 200 then Inr ()
      else if status = 503 then Inl ''printer is offline on this PC''
      else if status = 401 then Inl (''local PrintLink rejected the token '' @ em_dash
        @ '' re-pair by printing again'')
      else if status = 403 then Inl (''local PrintLink refused: '' @ msg)
      else if status = 413 then Inl ''file exceeds PrintLink size limit''
      else Inl (''local PrintLink returned '' @ nt_status_text net status @ '': '' @ msg))"

fun submit_on_ports :: "ext \<Rightarrow> pl_net \<Rightarrow> (u16 \<Rightarrow> bytes) \<Rightarrow> local_print_token \<Rightarrow> string \<Rightarrow> string
    \<Rightarrow> bytes \<Rightarrow> u16 list \<Rightarrow> string option \<Rightarrow> string + unit" where
  "submit_on_ports x net rnd t sender_id filename payload [] last_err =
     Inl (case last_err of Some e \<Rightarrow> e | None \<Rightarrow> ''local PrintLink not reachable'')"
| "submit_on_ports x net rnd t sender_id filename payload (port # ports) last_err =
     (case auth_challenge_on_port x net port sender_id of
       Inl e \<Rightarrow> submit_on_ports x net rnd t sender_id filename payload ports (Some e)
     | Inr nonce \<Rightarrow> (case encrypt_payload x (rnd port) payload (lt_token t) of
         Inl e \<Rightarrow> Inl e
       | Inr sealed \<Rightarrow>
         (case nt_print net port (job_post x t sender_id filename nonce sealed) of
           Inl e \<Rightarrow> submit_on_ports x net rnd t sender_id filename payload ports (Some e)
         | Inr r \<Rightarrow> (case check_pin x r (lt_pinned_fp t) of
             Inl e \<Rightarrow> submit_on_ports x net rnd t sender_id filename payload ports (Some e)
           | Inr _ \<Rightarrow> print_outcome net (rp_status r)
               (case rp_body r of Some (Some m) \<Rightarrow> m | _ \<Rightarrow> [])))))"

definition submit_job :: "ext \<Rightarrow> pl_net \<Rightarrow> string option \<Rightarrow> (u16 \<Rightarrow> bytes) \<Rightarrow> local_print_token \<Rightarrow> string
    \<Rightarrow> string \<Rightarrow> bytes \<Rightarrow> string + unit" where
  "submit_job x net env rnd t sender_id filename payload =
     submit_on_ports x net rnd t sender_id filename payload (ports_to_try env) None"

section \<open>Ports, persona, sealing\<close>

lemma ports_to_try_props:
  "distinct (ports_to_try env) \<and> hd (ports_to_try env) = local_port env
    \<and> set (ports_to_try env) = {local_port env, PRINTLINK_LOCAL_PORT, 19100}"
  by (auto simp: ports_to_try_def Let_def PRINTLINK_LOCAL_PORT_def)

lemma show_nat_length: "n < 10 ^ k \<Longrightarrow> 0 < k \<Longrightarrow> length (show_nat n) \<le> k"
proof (induction k arbitrary: n)
  case (Suc k)
  show ?case
  proof (cases "n < 10")
    case True
    then show ?thesis by (simp add: show_nat.simps [of n])
  next
    case False
    then have "0 < k" using Suc.prems by (cases k) auto
    moreover have "n div 10 < 10 ^ k" using Suc.prems by (simp add: less_mult_imp_div_less)
    ultimately show ?thesis using Suc.IH [of "n div 10"] False by (simp add: show_nat.simps [of n])
  qed
qed simp

lemma persona_valid: "is_valid_id (persona_id x i)"
proof -
  have z: "length (show_nat n) \<le> 9" if "n < 10 ^ 9" for n using show_nat_length [OF that] by simp
  have d: "is_digit (CHR ''0'')" by (simp add: is_digit_def)
  show ?thesis using z d show_nat_digits
    by (auto simp: persona_id_def Let_def is_valid_id_def zero_pad_def list_all_iff)
qed

lemma decrypt_encrypt:
  assumes "aead_laws x" "length nonce = 12" "encrypt_payload x nonce plain token = Inr blob"
  shows "decrypt_payload x blob token = Inr plain"
proof -
  obtain c where c: "x_aes_seal x (key_from_token x token) nonce plain = Inr c" "blob = nonce @ c"
    using assms(3) by (auto simp: encrypt_payload_def split: sum.splits)
  then have "x_aes_open x (key_from_token x token) nonce c = Some plain" "16 \<le> length c"
    using assms(1) unfolding aead_laws_def by blast+
  then show ?thesis using c(2) assms(2) by (simp add: decrypt_payload_def)
qed

section \<open>The calendar\<close>

definition leap :: "nat \<Rightarrow> bool" where
  "leap y \<longleftrightarrow> (4 dvd y \<and> \<not> 100 dvd y) \<or> 400 dvd y"

definition month_lengths :: "nat \<Rightarrow> nat list" where
  "month_lengths y = [31, if leap y then 29 else 28, 31, 30, 31, 30, 31, 31, 30, 31, 30, 31]"

text \<open>The number of days from 1970-01-01: whole years, whole months, days.\<close>

definition calendar_days :: "nat \<Rightarrow> nat \<Rightarrow> nat \<Rightarrow> nat" where
  "calendar_days y m d = (\<Sum>k = 1970..<y. if leap k then 366 else 365)
     + sum_list (take (m - 1) (month_lengths y)) + (d - 1)"

definition year_days :: "nat \<Rightarrow> int" where
  "year_days y = 365 * int y + int (y div 4) - int (y div 100) + int (y div 400)"

lemma year_days_step: "year_days (Suc y) = year_days y + (if leap (Suc y) then 366 else 365)"
proof -
  have "400 dvd z \<Longrightarrow> 100 dvd z" "100 dvd z \<Longrightarrow> 4 dvd z" for z :: nat
    by (rule dvd_trans [rotated], assumption, simp)+
  then show ?thesis
    by (auto simp: year_days_def leap_def div_Suc dvd_eq_mod_eq_0 [symmetric])
qed

lemma sum_years: "1969 \<le> y \<Longrightarrow>
    int (\<Sum>k = 1970..<Suc y. if leap k then 366 else 365) = year_days y - 719162"
proof (induction y rule: dec_induct)
  case base
  then show ?case by (simp add: year_days_def)
next
  case (step y)
  then show ?case using year_days_step [of y] by simp
qed

lemma hinnant_years:
  fixes y :: nat and e r :: int
  assumes "e = int y div 400" "r = int y - e * 400"
  shows "e * 146097 + (r * 365 + r div 4 - r div 100) = year_days y"
proof -
  have y: "int y = r + 400 * e" using assms by simp
  have "int y div 4 = (r + 4 * (100 * e)) div 4" "int y div 100 = (r + 100 * (4 * e)) div 100"
    using y by simp_all
  then have "int y div 4 = 100 * e + r div 4" "int y div 100 = 4 * e + r div 100"
    by (simp_all only: div_mult_self2 zero_neq_numeral not_False_eq_True)
  moreover have "int y div 400 = e" using assms(1) by simp
  ultimately have "year_days y = 365 * (r + 400 * e) + (100 * e + r div 4) - (4 * e + r div 100) + e"
    unfolding year_days_def zdiv_int of_nat_numeral y [symmetric] by (simp only:)
  then show ?thesis by (simp add: algebra_simps)
qed

lemma month_cases: "1 \<le> m \<Longrightarrow> m \<le> 12 \<Longrightarrow> m \<in> {1, 2, 3, 4, 5, 6, 7, 8, 9, 10, 11, 12 :: nat}"
  by (simp, presburger)

lemma hinnant_day:
  fixes y m d :: nat
  assumes "1970 \<le> y" "1 \<le> m" "m \<le> 12" "1 \<le> d"
  defines "Y \<equiv> (if m \<le> 2 then y - 1 else y)" and "M \<equiv> (if m \<le> 2 then int m + 12 else int m)"
  shows "year_days Y + ((153 * (M - 3) + 2) div 5 + int d - 1) - 719468 = int (calendar_days y m d)"
proof -
  obtain z where z: "y = Suc z" "1969 \<le> z" using assms(1) by (cases y) auto
  have s: "int (\<Sum>k = 1970..<y. if leap k then 366 else 365) = year_days z - 719162"
    using sum_years [OF z(2)] z(1) by simp
  have st: "year_days y = year_days z + (if leap y then 366 else 365)"
    using year_days_step [of z] z(1) by simp
  have "year_days Y + ((153 * (M - 3) + 2) div 5 + int d - 1) - 719468
      = year_days z - 719162 + int (sum_list (take (m - 1) (month_lengths y))) + int (d - 1)"
    using month_cases [OF assms(2,3)] assms(4) st z(1)
    unfolding Y_def M_def month_lengths_def
    by (elim insertE emptyE) (simp_all add: of_nat_diff)
  then show ?thesis unfolding calendar_days_def using s by simp
qed

lemma days_since_epoch_calendar:
  assumes "1970 \<le> y" "y \<le> 2100" "1 \<le> m" "m \<le> 12" "1 \<le> d" "d \<le> 31"
  shows "days_since_epoch (of_nat y) (of_nat m) (of_nat d) = Some (of_nat (calendar_days y m d))"
proof -
  have u: "uint (of_nat k :: u64) = int k" if "k \<le> 2100" for k
    using that by (simp add: unsigned_of_nat take_bit_nat_eq_self)
  have le: "(of_nat a :: u64) \<le> of_nat b \<longleftrightarrow> a \<le> b" if "a \<le> 2100" "b \<le> 2100" for a b
    using that u by (simp add: word_le_def)
  define Y where "Y = (if m \<le> 2 then y - 1 else y)"
  define M where "M = (if m \<le> 2 then int m + 12 else int m)"
  have Y: "int Y = (if int m \<le> 2 then int y - 1 else int y)"
    "M = (if int m \<le> 2 then int m + 12 else int m)"
    using assms by (auto simp: Y_def M_def of_nat_diff)
  let ?e = "int Y div 400"
  let ?r = "int Y - ?e * 400"
  have v: "?e * 146097 + (?r * 365 + ?r div 4 - ?r div 100 + ((153 * (M - 3) + 2) div 5 + int d - 1))
      - 719468 = int (calendar_days y m d)"
    using hinnant_years [of ?e Y ?r] hinnant_day [OF assms(1,3,4,5)] unfolding Y_def M_def by simp
  have "(1970 :: u64) \<le> of_nat y" "(of_nat y :: u64) \<le> 2100" "(1 :: u64) \<le> of_nat m"
      "(of_nat m :: u64) \<le> 12" "(1 :: u64) \<le> of_nat d" "(of_nat d :: u64) \<le> 31"
    using le [of 1970 y] le [of y 2100] le [of 1 m] le [of m 12] le [of 1 d] le [of d 31] assms
    by simp_all
  then have "days_since_epoch (of_nat y) (of_nat m) (of_nat d) = Some (word_of_int
      (?e * 146097 + (?r * 365 + ?r div 4 - ?r div 100 + ((153 * (M - 3) + 2) div 5 + int d - 1))
        - 719468))"
    using u [of y] u [of m] u [of d] assms Y unfolding days_since_epoch_def Let_def
    by (simp split: if_splits)
  then show ?thesis unfolding v by simp
qed

section \<open>The pin\<close>

text \<open>Once a token is stored, pairing again keeps its pin, and the answer that gave the new token
  came over a certificate with that pin.\<close>

lemma request_share_pinned:
  "request_share_on_port x net port pin sid sname alias days = Inr (a, fp) \<Longrightarrow>
    eq_ignore_ascii_case fp pin"
  by (auto simp: request_share_on_port_def check_pin_def split: sum.splits option.splits if_splits)

lemma pair_on_ports_pin:
  assumes "pair_on_ports x net cd faults now persona sname ports last_err st = (Inr t, st')"
    "st_data st = Some old"
  shows "lt_pinned_fp t = lt_pinned_fp old \<and> st_data st' = Some t"
  using assms
proof (induction ports arbitrary: last_err)
  case (Cons port ports)
  then show ?case
    by (auto simp: Let_def split: sum.splits list.splits if_splits)
qed simp

lemma pair_on_ports_stored:
  "pair_on_ports x net cd faults now persona sname ports last_err st = (Inr t, st') \<Longrightarrow> st_data st' = Some t"
proof (induction ports arbitrary: last_err)
  case (Cons port ports)
  then show ?case
    by (auto simp: Let_def split: sum.splits list.splits if_splits)
qed simp

text \<open>A job that is reported printed was accepted over the pinned certificate, and the request
  that carried it was signed with the token over the agent's nonce.\<close>

lemma submit_pinned:
  assumes "submit_on_ports x net rnd t sid fname payload ports last_err = Inr ()"
  shows "\<exists>port \<in> set ports. \<exists>nonce sealed r fp.
    auth_challenge_on_port x net port sid = Inr nonce
    \<and> encrypt_payload x (rnd port) payload (lt_token t) = Inr sealed
    \<and> nt_print net port (job_post x t sid fname nonce sealed) = Inr r
    \<and> rp_status r = 200 \<and> der_fingerprint x r = Inr fp \<and> eq_ignore_ascii_case fp (lt_pinned_fp t)"
  using assms
proof (induction ports arbitrary: last_err)
  case (Cons port ports)
  show ?case
  proof (cases "auth_challenge_on_port x net port sid")
    case (Inr nonce)
    show ?thesis
    proof (cases "encrypt_payload x (rnd port) payload (lt_token t)")
      case s: (Inr sealed)
      show ?thesis
      proof (cases "nt_print net port (job_post x t sid fname nonce sealed)")
        case r: (Inr r)
        show ?thesis
        proof (cases "check_pin x r (lt_pinned_fp t)")
          case (Inr fp)
          moreover have "rp_status r = 200"
            using Cons.prems \<open>auth_challenge_on_port x net port sid = Inr nonce\<close> s r Inr
            by (simp add: print_outcome_def split: if_splits)
          ultimately show ?thesis
            using \<open>auth_challenge_on_port x net port sid = Inr nonce\<close> s r
            by (auto simp: check_pin_def split: sum.splits if_splits)
        qed (use Cons Inr s r in auto)
      qed (use Cons Inr s in auto)
    qed (use Cons Inr in auto)
  qed (use Cons in auto)
qed simp

end
