(* ===== verification/Node.thy ===== *)
theory Node
  imports Prelude Externals Protocol Identity Events Store Files Share Inbox RateLimit Pairing LocalPrint
begin

text \<open>The state of one running node, @<Inner> of @<doclinkd/src/server.rs>, put together from the
  components; and what a handler is given from outside: the third-party code, the JSON codecs and
  parsers, the body size up to which the web framework buffers a request (all fixed), and per call the clock readings in their order, the outcomes of the disk
  operations, the answers of the local PrintLink agent and the random bytes.\<close>

record sys =
  sy_x :: ext
  sy_grants :: "grants_file codec"
  sy_contacts :: "contacts_file codec"
  sy_meta :: "inbox_meta codec"
  sy_print :: "local_print_file codec"
  sy_pair_request :: "string \<Rightarrow> pair_request option"
  sy_pair_decision :: "string \<Rightarrow> pair_decision option"
  sy_header_value :: "string \<Rightarrow> bool"
  sy_body_limit :: nat

record env =
  en_clk :: "nat \<Rightarrow> u64"
  en_instant :: nat
  en_faults :: "nat \<Rightarrow> nat option"
  en_io :: "nat \<Rightarrow> io_out"
  en_net :: pl_net
  en_port_var :: "string option"
  en_rnd :: "u16 \<Rightarrow> bytes"

type_synonym headers = "string \<Rightarrow> string option"

record node =
  nd_node :: node_info
  nd_share :: share_root
  nd_inbox :: inbox_root
  nd_inbox_max :: u64
  nd_grants :: "grants_file store"
  nd_contacts :: "contacts_file store"
  nd_pairing :: pairing
  nd_seen :: "(string \<times> u64) list"
  nd_limiter :: limiter
  nd_events :: events
  nd_print :: "local_print_file store"
  nd_identity :: node_identity
  nd_fs :: fsys

abbreviation grants_of :: "node \<Rightarrow> grants_file" where
  "grants_of s \<equiv> st_data (nd_grants s)"

abbreviation contacts_of :: "node \<Rightarrow> contacts_file" where
  "contacts_of s \<equiv> st_data (nd_contacts s)"

definition node_new :: "node_info \<Rightarrow> share_root \<Rightarrow> inbox_root \<Rightarrow> u64 \<Rightarrow> grants_file store
    \<Rightarrow> contacts_file store \<Rightarrow> pairing \<Rightarrow> events \<Rightarrow> local_print_file store \<Rightarrow> node_identity \<Rightarrow> fsys \<Rightarrow> node" where
  "node_new info sh ib imax gs cs p ev lp i fs = \<lparr>nd_node = info, nd_share = sh, nd_inbox = ib,
     nd_inbox_max = imax, nd_grants = gs, nd_contacts = cs, nd_pairing = p, nd_seen = [],
     nd_limiter = limiter_default, nd_events = ev, nd_print = lp, nd_identity = i, nd_fs = fs\<rparr>"

definition push_event :: "u64 \<Rightarrow> string \<Rightarrow> string \<Rightarrow> string \<Rightarrow> node \<Rightarrow> node" where
  "push_event now kind title body s = s\<lparr>nd_events := snd (push now kind title body (nd_events s))\<rparr>"

section \<open>Statuses\<close>

abbreviation BAD_REQUEST :: nat where "BAD_REQUEST \<equiv> 400"
abbreviation UNAUTHORIZED :: nat where "UNAUTHORIZED \<equiv> 401"
abbreviation FORBIDDEN :: nat where "FORBIDDEN \<equiv> 403"
abbreviation NOT_FOUND :: nat where "NOT_FOUND \<equiv> 404"
abbreviation PAYLOAD_TOO_LARGE :: nat where "PAYLOAD_TOO_LARGE \<equiv> 413"
abbreviation RANGE_NOT_SATISFIABLE :: nat where "RANGE_NOT_SATISFIABLE \<equiv> 416"
abbreviation TOO_MANY_REQUESTS :: nat where "TOO_MANY_REQUESTS \<equiv> 429"
abbreviation INTERNAL_SERVER_ERROR :: nat where "INTERNAL_SERVER_ERROR \<equiv> 500"
abbreviation BAD_GATEWAY :: nat where "BAD_GATEWAY \<equiv> 502"
abbreviation SERVICE_UNAVAILABLE :: nat where "SERVICE_UNAVAILABLE \<equiv> 503"

definition err :: "nat \<Rightarrow> string \<Rightarrow> http_error" where
  "err st m = \<lparr>he_status = st, he_msg = m, he_code = None\<rparr>"

end
