(* ===== verification/Auth.thy ===== *)
theory Auth
  imports Prelude Externals Protocol Identity Utf8 Store Pairing Node
begin

text \<open>Request authentication of the data plane, @<doclinkd/src/auth.rs>: the signed headers, the
  replay cache and the grant a request is answered under.\<close>

section \<open>Errors\<close>

definition MAX_SKEW_SECS :: u64 where "MAX_SKEW_SECS = 900"

record auth_error =
  ae_status :: nat
  ae_code :: string
  ae_message :: string

definition auth_error_new :: "nat \<Rightarrow> string \<Rightarrow> string \<Rightarrow> auth_error" where
  "auth_error_new st c m = \<lparr>ae_status = st, ae_code = c, ae_message = m\<rparr>"

definition auth_into_response :: "auth_error \<Rightarrow> http_error" where
  "auth_into_response e = coded_err (ae_status e) (ae_message e) (ae_code e)"

section \<open>Signed headers\<close>

text \<open>@<ts> below is the header's text: the canonical string prints the parsed number again.\<close>

definition verify_signed_headers :: "ext \<Rightarrow> u64 \<Rightarrow> headers \<Rightarrow> string \<Rightarrow> string \<Rightarrow> bytes
    \<Rightarrow> auth_error + string \<times> string \<times> string" where
  "verify_signed_headers x now h method path_q body =
     (case (h ''x-doclink-node'', h ''x-doclink-pub'', h ''x-doclink-ts'', h ''x-doclink-sig'') of
       (Some nid, Some pk, Some ts, Some sg) \<Rightarrow> (let
         nonce = (case h ''x-doclink-nonce'' of None \<Rightarrow> [] | Some n \<Rightarrow> n)
       in case parse_u64 ts of
         None \<Rightarrow> Inl (auth_error_new UNAUTHORIZED ''bad-timestamp'' ''bad timestamp header'')
       | Some t \<Rightarrow>
         if MAX_SKEW_SECS < abs_diff now t then
           Inl (auth_error_new UNAUTHORIZED ''clock-skew''
             (''request timestamp is too far from this PC's clock '' @ em_dash
               @ '' check that both PCs' clocks are in sync''))
         else (case verify x pk (request_canonical method path_q (show_u64 t) nonce body) sg of
           Inl _ \<Rightarrow> Inl (auth_error_new UNAUTHORIZED ''bad-signature'' ''bad signature'')
         | Inr _ \<Rightarrow> Inr (nid, pk, sg)))
     | _ \<Rightarrow> Inl (auth_error_new UNAUTHORIZED ''unauthenticated'' ''missing auth headers''))"

section \<open>Replays\<close>

type_synonym seen_sigs = "(string \<times> u64) list"

definition purge_seen :: "u64 \<Rightarrow> seen_sigs \<Rightarrow> seen_sigs" where
  "purge_seen now seen = filter (\<lambda>e. sat_sub now (snd e) \<le> MAX_SKEW_SECS) seen"

definition reject_replays :: "u64 \<Rightarrow> string \<Rightarrow> seen_sigs \<Rightarrow> (auth_error + unit) \<times> seen_sigs" where
  "reject_replays now sig_hex seen = (let
     seen = purge_seen now seen;
     old = map_of seen sig_hex;
     seen = AList.update sig_hex now seen
   in if old \<noteq> None
      then (Inl (auth_error_new UNAUTHORIZED ''replayed'' ''replayed request''), seen)
      else (Inr (), seen))"

section \<open>The grant of a request\<close>

definition no_grant_error :: "pairing \<Rightarrow> string \<Rightarrow> auth_error" where
  "no_grant_error p nid =
     (if map_of (pending p) nid \<noteq> None then
        auth_error_new FORBIDDEN ''pending''
          (''This PC has not approved your access request yet '' @ em_dash
            @ '' it is still waiting in the owner's Incoming list.'')
      else if (case map_of (decisions p) nid of None \<Rightarrow> False
               | Some d \<Rightarrow> ps_status (fst d) = Denied) then
        auth_error_new FORBIDDEN ''denied'' ''The owner of this PC denied your access request.''
      else auth_error_new FORBIDDEN ''unknown-node''
        (''You don't have approved access to this PC yet '' @ em_dash
          @ '' send a pair request first (Add PC by DocLink ID).''))"

definition check_grant :: "ext \<Rightarrow> u64 \<Rightarrow> pairing \<Rightarrow> grants_file \<Rightarrow> string \<Rightarrow> string \<Rightarrow> auth_error + grant" where
  "check_grant x now p gs nid pk = (case List.find (\<lambda>g. g_node_id g = nid) gs of
     None \<Rightarrow> Inl (no_grant_error p nid)
   | Some grant \<Rightarrow>
     if (case g_expires_unix grant of None \<Rightarrow> False | Some e \<Rightarrow> e \<le> now) then
       Inl (auth_error_new FORBIDDEN ''expired''
         (''Access expired '' @ em_dash @ '' send a new pair request to extend it.''))
     else (case fingerprint_from_pubkey_hex x pk of
       None \<Rightarrow> Inl (auth_error_new UNAUTHORIZED ''bad-key'' ''bad public key header'')
     | Some fp \<Rightarrow>
       if fp \<noteq> g_fingerprint grant then
         Inl (auth_error_new FORBIDDEN ''identity-changed''
           (''identity mismatch '' @ em_dash
             @ '' this PC's identity changed, ask the owner to re-approve''))
       else Inr grant))"

text \<open>The three clock readings are those of the timestamp check, of the replay cache and of the
  expiry check.\<close>

definition require_auth :: "ext \<Rightarrow> (nat \<Rightarrow> u64) \<Rightarrow> headers \<Rightarrow> string \<Rightarrow> string \<Rightarrow> bytes \<Rightarrow> node
    \<Rightarrow> (auth_error + grant) \<times> node" where
  "require_auth x clk h method path_q body s =
     (case verify_signed_headers x (clk 0) h method path_q body of
       Inl e \<Rightarrow> (Inl e, s)
     | Inr (nid, pk, sg) \<Rightarrow> (case reject_replays (clk 1) sg (nd_seen s) of
         (Inl e, seen) \<Rightarrow> (Inl e, s\<lparr>nd_seen := seen\<rparr>)
       | (Inr _, seen) \<Rightarrow>
         (check_grant x (clk 2) (nd_pairing s) (grants_of s) nid pk, s\<lparr>nd_seen := seen\<rparr>)))"

lemma verify_headers_Inr:
  "verify_signed_headers x now h method path_q body = Inr (nid, pk, sg) \<longleftrightarrow>
    (\<exists>ts t. h ''x-doclink-node'' = Some nid \<and> h ''x-doclink-pub'' = Some pk
      \<and> h ''x-doclink-ts'' = Some ts \<and> h ''x-doclink-sig'' = Some sg
      \<and> parse_u64 ts = Some t \<and> abs_diff now t \<le> MAX_SKEW_SECS
      \<and> verify x pk (request_canonical method path_q (show_u64 t)
          (case h ''x-doclink-nonce'' of None \<Rightarrow> [] | Some n \<Rightarrow> n) body) sg = Inr ())"
  by (auto simp: verify_signed_headers_def Let_def not_less split: option.splits sum.splits if_splits)

lemma check_grant_Inr:
  "check_grant x now p gs nid pk = Inr g \<longleftrightarrow>
    List.find (\<lambda>g. g_node_id g = nid) gs = Some g \<and> grant_live now g
    \<and> fingerprint_from_pubkey_hex x pk = Some (g_fingerprint g)"
  by (auto simp: check_grant_def grant_live_def is_none_or_def not_le split: option.splits if_splits)

lemma require_auth_Inr:
  assumes "require_auth x clk h method path_q body s = (Inr g, s')"
  obtains nid pk sg where "verify_signed_headers x (clk 0) h method path_q body = Inr (nid, pk, sg)"
    "fst (reject_replays (clk 1) sg (nd_seen s)) = Inr ()"
    "check_grant x (clk 2) (nd_pairing s) (grants_of s) nid pk = Inr g"
    "s' = s\<lparr>nd_seen := snd (reject_replays (clk 1) sg (nd_seen s))\<rparr>"
  using assms by (auto simp: require_auth_def split: sum.splits prod.splits)

lemma require_auth_state:
  "\<exists>seen. snd (require_auth x clk h method path_q body s) = s\<lparr>nd_seen := seen\<rparr>"
  by (auto simp: require_auth_def intro: exI [where x = "nd_seen s"] split: sum.splits prod.splits)

section \<open>The replay cache\<close>

text \<open>A cache of stamped keys: purging keeps what is younger than the time to live.\<close>

locale ttl_cache =
  fixes lookup :: "'s \<Rightarrow> 'k \<Rightarrow> u64 option"
    and stamp :: "'k \<Rightarrow> u64 \<Rightarrow> 's \<Rightarrow> 's"
    and purge :: "u64 \<Rightarrow> 's \<Rightarrow> 's"
    and ttl :: u64
    and inv :: "'s \<Rightarrow> bool"
  assumes lookup_stamp: "inv s \<Longrightarrow> lookup (stamp k t s) j = (if j = k then Some t else lookup s j)"
    and lookup_purge: "inv s \<Longrightarrow> lookup (purge now s) j =
      (case lookup s j of None \<Rightarrow> None | Some t \<Rightarrow> if sat_sub now t \<le> ttl then Some t else None)"
    and inv_stamp: "inv s \<Longrightarrow> inv (stamp k t s)"
    and inv_purge: "inv s \<Longrightarrow> inv (purge now s)"
begin

lemma kept: "inv s \<Longrightarrow> lookup s j = Some t \<Longrightarrow> sat_sub now t \<le> ttl \<Longrightarrow> lookup (purge now s) j = Some t"
  by (simp add: lookup_purge)

lemma forgotten: "inv s \<Longrightarrow> lookup s j = Some t \<Longrightarrow> \<not> sat_sub now t \<le> ttl \<Longrightarrow> lookup (purge now s) j = None"
  by (simp add: lookup_purge)

lemma purged_fresh: "inv s \<Longrightarrow> lookup (purge now s) j = Some t \<Longrightarrow> sat_sub now t \<le> ttl"
  by (auto simp: lookup_purge split: option.splits if_splits)

lemma purge_idem: "inv s \<Longrightarrow> lookup (purge now (purge now s)) j = lookup (purge now s) j"
  by (simp add: lookup_purge inv_purge split: option.split)

text \<open>A stamp survives every later visit that comes within its time to live: a visit purges
  and stamps some key, and can only renew the entry.\<close>

lemma visit_keeps:
  assumes "inv s" "lookup s j = Some t" "unat now \<le> unat t + unat ttl"
  shows "\<exists>t'. lookup (stamp k now (purge now s)) j = Some t' \<and> t' \<in> {t, now}"
  using assms by (auto simp: lookup_stamp inv_purge lookup_purge sat_sub_le)

end

interpretation seen: ttl_cache map_of AList.update purge_seen MAX_SKEW_SECS
    "\<lambda>s. distinct (map fst s)"
  by unfold_locales
    (auto simp: update_conv distinct_update purge_seen_def map_of_filter_pred distinct_map_filter
      split: option.split)

lemma reject_replays_state: "snd (reject_replays now sg seen) = AList.update sg now (purge_seen now seen)"
  by (simp add: reject_replays_def Let_def)

lemma reject_replays_fresh: "fst (reject_replays now sg seen) = Inr () \<longleftrightarrow>
    map_of (purge_seen now seen) sg = None"
  by (simp add: reject_replays_def Let_def)

text \<open>A run of accepted or refused requests as the cache sees it: signatures with the clock
  reading of their check.\<close>

fun replay_run :: "(u64 \<times> string) list \<Rightarrow> seen_sigs \<Rightarrow> bool list" where
  "replay_run [] seen = []"
| "replay_run ((now, sg) # rs) seen = (let (r, seen) = reject_replays now sg seen
     in (r = Inr ()) # replay_run rs seen)"

lemma replay_refused:
  assumes "distinct (map fst seen)" "map_of seen sg = Some t"
    "sorted (map (\<lambda>r. unat (fst r)) rs)"
    "\<forall>r \<in> set rs. unat t \<le> unat (fst r) \<and> unat (fst r) \<le> unat t + unat MAX_SKEW_SECS"
    "i < length rs" "snd (rs ! i) = sg"
  shows "\<not> replay_run rs seen ! i"
  using assms
proof (induction rs arbitrary: seen t i)
  case (Cons r rs)
  obtain now sg' where r: "r = (now, sg')" by force
  let ?s = "snd (reject_replays now sg' seen)"
  have now: "unat now \<le> unat t + unat MAX_SKEW_SECS" "unat t \<le> unat now" using Cons.prems(4) r by auto
  show ?case
  proof (cases i)
    case 0
    have "map_of (purge_seen now seen) sg = Some t"
      using seen.kept [OF Cons.prems(1,2)] now(1) by (simp add: sat_sub_le)
    then have "fst (reject_replays now sg seen) \<noteq> Inr ()" by (simp add: reject_replays_fresh)
    then show ?thesis using 0 r Cons.prems(6) by (simp add: case_prod_beta)
  next
    case (Suc j)
    obtain t1 where t1: "map_of ?s sg = Some t1" "t1 \<in> {t, now}"
      using seen.visit_keeps [OF Cons.prems(1,2) now(1), of sg'] by (auto simp: reject_replays_state)
    have d: "distinct (map fst ?s)"
      unfolding reject_replays_state using seen.inv_stamp seen.inv_purge Cons.prems(1) by blast
    have "\<forall>q \<in> set rs. unat t1 \<le> unat (fst q) \<and> unat (fst q) \<le> unat t1 + unat MAX_SKEW_SECS"
      using Cons.prems(3,4) t1(2) now r by fastforce
    then have "\<not> replay_run rs ?s ! j"
      using Cons.IH [OF d t1(1)] Cons.prems(3,5,6) Suc by simp
    then show ?thesis using r Suc by (simp add: case_prod_beta)
  qed
qed simp

lemma accepted_stamped:
  assumes "fst (reject_replays now sg seen) = Inr ()" "distinct (map fst seen)"
  shows "map_of (snd (reject_replays now sg seen)) sg = Some now"
    "distinct (map fst (snd (reject_replays now sg seen)))"
  using assms seen.inv_stamp seen.inv_purge by (simp_all add: reject_replays_state update_conv)

section \<open>An honest client\<close>

text \<open>The headers a node makes for a request are accepted by a peer that granted it access, while the
  clocks agree and the signature is new.\<close>

lemma honest_accepted:
  assumes "hex_laws x" "sig_laws x" "h = map_of (auth_headers_body x i t nb meth path_q body)"
    and "abs_diff (clk 0) t \<le> MAX_SKEW_SECS"
    and "h ''x-doclink-sig'' = Some sg" "map_of (purge_seen (clk 1) (nd_seen s)) sg = None"
    and "List.find (\<lambda>g. g_node_id g = node_id x i) (grants_of s) = Some g"
    and "g_fingerprint g = fingerprint x i" "grant_live (clk 2) g"
  shows "require_auth x clk h meth path_q body s
    = (Inr g, s\<lparr>nd_seen := AList.update sg (clk 1) (purge_seen (clk 1) (nd_seen s))\<rparr>)"
proof -
  let ?pk = "x_hex_encode x (verifying_key x i)"
  have sg: "sg = x_hex_encode x (sign x i (request_canonical meth path_q (show_u64 t) (x_hex_encode x nb) body))"
    using assms(3,5) by (simp add: auth_headers_body_def Let_def)
  have "verify x ?pk (request_canonical meth path_q (show_u64 t) (x_hex_encode x nb) body) sg = Inr ()"
    unfolding sg by (rule verify_own [OF assms(1,2)])
  then have v: "verify_signed_headers x (clk 0) h meth path_q body = Inr (node_id x i, ?pk, sg)"
    using assms(4,5) unfolding verify_headers_Inr assms(3)
    by (simp add: auth_headers_body_def Let_def)
  have c: "check_grant x (clk 2) (nd_pairing s) (grants_of s) (node_id x i) ?pk = Inr g"
    using assms(7,8,9) fingerprint_of_own_pubkey [OF assms(1), of i] by (simp add: check_grant_Inr)
  show ?thesis using v c assms(6)
    by (simp add: require_auth_def reject_replays_def Let_def)
qed

end
