(* ===== verification/Scope.thy ===== *)
theory Scope
  imports Prelude Protocol
begin

text \<open>What a grant's paths allow, and the parsing of a @<Range> header: the pure helpers of
  @<doclinkd/src/server.rs>, with the reading of a scope as a set of component lists.\<close>

section \<open>Scopes\<close>

definition within :: "string \<Rightarrow> string \<Rightarrow> bool" where
  "within path ancestor \<longleftrightarrow> ancestor \<noteq> [] \<and> length ancestor < length path \<and> prefix ancestor path
     \<and> path ! length ancestor = CHR ''/''"

definition can_list :: "string list \<Rightarrow> string \<Rightarrow> bool" where
  "can_list paths dir \<longleftrightarrow> paths = [] \<or> dir = []
     \<or> list_ex (\<lambda>p. dir = p \<or> within dir p \<or> within p dir) paths"

definition can_read_file :: "string list \<Rightarrow> string \<Rightarrow> bool" where
  "can_read_file paths f \<longleftrightarrow> paths = [] \<or> list_ex (\<lambda>p. f = p \<or> within f p) paths"

definition entry_visible :: "string list \<Rightarrow> string \<Rightarrow> entry_kind \<Rightarrow> bool" where
  "entry_visible paths path kind \<longleftrightarrow>
     list_ex (\<lambda>p. path = p \<or> within path p \<or> (kind = Dir \<and> within p path)) paths"

abbreviation comps :: "string \<Rightarrow> string list" where
  "comps \<equiv> split_on (CHR ''/'')"

lemma within_iff: "within path a \<longleftrightarrow> a \<noteq> [] \<and> (\<exists>r. path = a @ CHR ''/'' # r)"
proof
  assume w: "within path a"
  then obtain z where z: "path = a @ z" "z \<noteq> []" "z ! 0 = CHR ''/''"
    by (auto simp: within_def prefix_def nth_append)
  then show "a \<noteq> [] \<and> (\<exists>r. path = a @ CHR ''/'' # r)" using w by (cases z) (auto simp: within_def)
qed (auto simp: within_def prefix_def)

lemma split_on_app_sep: "split_on c (a @ c # b) = split_on c a @ split_on c b"
proof (induction a)
  case (Cons x a)
  then show ?case by (cases "split_on c a") auto
qed simp

lemma prefix_comps: "prefix (comps a) (comps b) \<longleftrightarrow> b = a \<or> (\<exists>r. b = a @ CHR ''/'' # r)"
proof
  assume "prefix (comps a) (comps b)"
  then obtain ws where ws: "comps b = comps a @ ws" by (auto simp: prefix_def)
  show "b = a \<or> (\<exists>r. b = a @ CHR ''/'' # r)"
  proof (cases ws)
    case Nil
    then show ?thesis using ws split_on_inj by auto
  next
    case (Cons w ws')
    have nosep: "\<forall>v \<in> set ws. CHR ''/'' \<notin> set v"
      using ws split_on_no_sep [of _ "CHR ''/''" b] by auto
    have "comps (a @ CHR ''/'' # join_with ''/'' ws) = comps b"
      using split_join_on [OF _ nosep] Cons ws by (simp add: split_on_app_sep)
    then show ?thesis using split_on_inj by blast
  qed
qed (auto simp: split_on_app_sep)

text \<open>A scope path covers exactly the paths whose components begin with its own.\<close>

lemma covers_comps: "p \<noteq> [] \<Longrightarrow> (f = p \<or> within f p) \<longleftrightarrow> prefix (comps p) (comps f)"
  by (auto simp: within_iff prefix_comps)

lemma within_trans: "within a b \<Longrightarrow> within b c \<Longrightarrow> within a c"
  by (auto simp: within_iff)

lemma within_child: "d \<noteq> [] \<Longrightarrow> within (d @ ''/'' @ w) d"
  by (auto simp: within_iff)

lemma within_irrefl [simp]: "\<not> within a a"
  by (simp add: within_def)

lemma within_antisym: "within a b \<Longrightarrow> \<not> within b a"
  by (auto simp: within_def)

lemma not_within_Nil [simp]: "\<not> within a []" "\<not> within [] a"
  by (simp_all add: within_def)

text \<open>A file that may be read is visible in its directory's listing, and that directory may be
  listed; every visible file may be read.\<close>

lemma readable_visible: "paths \<noteq> [] \<Longrightarrow> can_read_file paths f \<Longrightarrow> entry_visible paths f File"
  by (auto simp: can_read_file_def entry_visible_def list_ex_iff)

lemma visible_file_readable: "entry_visible paths f File \<Longrightarrow> can_read_file paths f"
  by (auto simp: can_read_file_def entry_visible_def list_ex_iff)

lemma sub_append_cases:
  "a @ CHR ''/'' # r = d @ CHR ''/'' # w \<Longrightarrow> CHR ''/'' \<notin> set w \<Longrightarrow>
    a = d \<or> (\<exists>r'. d = a @ CHR ''/'' # r')"
proof -
  assume e: "a @ CHR ''/'' # r = d @ CHR ''/'' # w" and w: "CHR ''/'' \<notin> set w"
  from e obtain us where "a @ us = d \<and> CHR ''/'' # r = us @ CHR ''/'' # w
      \<or> a = d @ us \<and> us @ CHR ''/'' # r = CHR ''/'' # w"
    by (auto simp: append_eq_append_conv2)
  then show ?thesis
  proof
    assume "a @ us = d \<and> CHR ''/'' # r = us @ CHR ''/'' # w"
    then show ?thesis by (cases us) auto
  next
    assume "a = d @ us \<and> us @ CHR ''/'' # r = CHR ''/'' # w"
    then show ?thesis using w by (cases us) auto
  qed
qed

lemma parent_listable:
  assumes "can_read_file paths (d @ ''/'' @ w)" "CHR ''/'' \<notin> set w"
  shows "can_list paths d"
proof (cases "paths = [] \<or> d = []")
  case False
  then obtain p where p: "p \<in> set paths" "d @ ''/'' @ w = p \<or> within (d @ ''/'' @ w) p"
    using assms(1) by (auto simp: can_read_file_def list_ex_iff)
  have "d = p \<or> within d p \<or> within p d"
  proof (cases "d @ ''/'' @ w = p")
    case True
    then show ?thesis using within_child [of d w] False by auto
  next
    case n: False
    then obtain r where r: "p @ CHR ''/'' # r = d @ CHR ''/'' # w" "p \<noteq> []"
      using p(2) by (auto simp: within_iff)
    from sub_append_cases [OF r(1) assms(2)] show ?thesis using r(2) by (auto simp: within_iff)
  qed
  then show ?thesis using p(1) by (auto simp: can_list_def list_ex_iff)
qed (auto simp: can_list_def)

section \<open>Ranges\<close>

datatype parsed_range = Full | Unsatisfiable | Partial u64 u64

definition min_u64 :: "u64 \<Rightarrow> u64 \<Rightarrow> u64" where
  "min_u64 a b = (if a \<le> b then a else b)"

definition parse_range :: "string option \<Rightarrow> u64 \<Rightarrow> parsed_range" where
  "parse_range hdr flen =
     (if flen = 0 then Full
      else (case hdr of
        None \<Rightarrow> Full
      | Some rng \<Rightarrow> (case strip_prefix ''bytes='' rng of
          None \<Rightarrow> Full
        | Some spec \<Rightarrow>
          if contains '','' spec then Full
          else (case split_once (CHR ''-'') spec of
            None \<Rightarrow> Full
          | Some (a, b) \<Rightarrow>
            if trim a = [] then
              (case parse_u64 (trim b) of
                Some n \<Rightarrow> if 0 < n then (let n = min_u64 n flen in Partial (flen - n) (flen - 1))
                          else Full
              | None \<Rightarrow> Full)
            else (case parse_u64 (trim a) of
              None \<Rightarrow> Full
            | Some start \<Rightarrow>
              if flen \<le> start then Unsatisfiable
              else let end_incl = (case parse_u64 (trim b) of
                     Some e \<Rightarrow> min_u64 e (flen - 1) | None \<Rightarrow> flen - 1)
              in if end_incl < start then Full else Partial start end_incl)))))"

lemma min_u64_unat: "unat (min_u64 a b) = min (unat a) (unat b)"
  by (auto simp: min_u64_def word_le_nat_alt min_def)

lemma unat_pred: "(0 :: u64) < t \<Longrightarrow> unat (t - 1) = unat t - 1"
  by (simp add: unat_sub word_less_nat_alt word_le_nat_alt)

lemma parse_range_bounds:
  assumes "parse_range hdr flen = Partial s e"
  shows "unat s \<le> unat e \<and> unat e < unat flen"
proof -
  have t: "0 < unat flen" using assms by (auto simp: parse_range_def unat_gt_0 split: if_splits)
  then have p: "unat (flen - 1) = unat flen - 1"
    using unat_pred word_less_nat_alt by (metis unat_0)
  show ?thesis
  proof (cases "\<exists>n. 0 < n \<and> s = flen - min_u64 n flen \<and> e = flen - 1")
    case True
    then obtain n where n: "0 < n" "s = flen - min_u64 n flen" "e = flen - 1" by blast
    have "unat s = unat flen - min (unat n) (unat flen)"
      unfolding n(2) by (simp add: unat_sub word_le_nat_alt min_u64_unat)
    moreover have "0 < unat n" using n(1) by (simp add: word_less_nat_alt)
    ultimately show ?thesis using n(3) p t by simp
  next
    case False
    then have "s < flen \<and> s \<le> e \<and> (e = flen - 1 \<or> (\<exists>k. e = min_u64 k (flen - 1)))"
      using assms
      by (auto simp: parse_range_def Let_def not_le not_less split: if_splits option.splits)
    then show ?thesis using p t by (auto simp: word_le_nat_alt word_less_nat_alt min_u64_unat)
  qed
qed

lemma range_length:
  assumes "parse_range hdr flen = Partial s e"
  shows "unat (e - s + 1) = unat e - unat s + 1 \<and> unat s + unat (e - s + 1) \<le> unat flen"
proof -
  have b: "unat s \<le> unat e" "unat e < unat flen" using parse_range_bounds [OF assms] by auto
  have d: "unat (e - s) = unat e - unat s" using b by (simp add: unat_sub word_le_nat_alt)
  have "unat e - unat s + 1 < u64_limit"
    using b unsigned_less [of flen, where ?'a = nat] by simp
  then have "unat (e - s + 1) = unat e - unat s + 1"
    using d by (simp add: unat_word_ariths)
  then show ?thesis using b by simp
qed

end
