(* ===== verification/Search.thy ===== *)
theory Search
  imports Prelude Externals Protocol Files Share Scope
begin

text \<open>The scoped filename search of @<doclinkd/src/server.rs>: a depth-first walk of the granted
  subtrees with a budget of visited entries and a cap on results.\<close>

section \<open>The walk\<close>

definition SEARCH_VISIT_BUDGET :: nat where "SEARCH_VISIT_BUDGET = 20000"
definition SEARCH_MAX_RESULTS :: nat where "SEARCH_MAX_RESULTS = 200"

definition matches_query :: "ext \<Rightarrow> string \<Rightarrow> string \<Rightarrow> bool" where
  "matches_query x nm q_lower = contains q_lower (x_to_lower x nm)"

text \<open>The state of the walk: the stack (its top first), the entries visited, the results so far
  and whether something was cut.\<close>

record walk_state =
  ws_stack :: "string list"
  ws_visited :: nat
  ws_out :: "dir_entry list"
  ws_truncated :: bool

fun scan_entries :: "ext \<Rightarrow> string \<Rightarrow> dir_entry list \<Rightarrow> walk_state \<Rightarrow> walk_state" where
  "scan_entries x q [] w = w"
| "scan_entries x q (e # es) w = (let w = w\<lparr>ws_visited := Suc (ws_visited w)\<rparr> in
     if SEARCH_VISIT_BUDGET < ws_visited w then w\<lparr>ws_truncated := True\<rparr>
     else if de_kind e = Dir then scan_entries x q es (w\<lparr>ws_stack := de_path e # ws_stack w\<rparr>)
     else if matches_query x (de_name e) q \<and> length (ws_out w) < SEARCH_MAX_RESULTS
     then scan_entries x q es (w\<lparr>ws_out := ws_out w @ [e]\<rparr>)
     else scan_entries x q es w)"

lemma scan_visited_le: "ws_visited w \<le> ws_visited (scan_entries x q es w)"
proof (induction x q es w rule: scan_entries.induct)
  case (2 x q e es w)
  then show ?case by (auto simp: Let_def dest: Suc_leD)
qed simp

lemma scan_visited_less: "es \<noteq> [] \<Longrightarrow> ws_visited w < ws_visited (scan_entries x q es w)"
proof (cases es)
  case (Cons e es')
  let ?w = "w\<lparr>ws_visited := Suc (ws_visited w)\<rparr>"
  have "Suc (ws_visited w) \<le> ws_visited (scan_entries x q es' w')" if "ws_visited w' = Suc (ws_visited w)" for w'
    using scan_visited_le [of w' x q es'] that by simp
  then show ?thesis using Cons by (auto simp: Let_def intro: Suc_le_lessD)
qed simp

text \<open>@<list> is the directory listing of the share; the walk ends because each directory either
  shortens the stack or spends budget.\<close>

function search_loop :: "ext \<Rightarrow> (string \<Rightarrow> share_error + dir_entry list) \<Rightarrow> string \<Rightarrow> walk_state \<Rightarrow> walk_state" where
  "search_loop x listing q w = (case ws_stack w of
     [] \<Rightarrow> w
   | dir # rest \<Rightarrow>
     if SEARCH_VISIT_BUDGET \<le> ws_visited w \<or> SEARCH_MAX_RESULTS \<le> length (ws_out w)
     then w\<lparr>ws_stack := rest, ws_truncated := True\<rparr>
     else (case listing dir of
       Inl _ \<Rightarrow> search_loop x listing q (w\<lparr>ws_stack := rest\<rparr>)
     | Inr es \<Rightarrow> search_loop x listing q (scan_entries x q es (w\<lparr>ws_stack := rest\<rparr>))))"
  by pat_completeness auto
termination
proof (relation "measures [\<lambda>(x, l, q, w). SEARCH_VISIT_BUDGET - ws_visited w,
    \<lambda>(x, l, q, w). length (ws_stack w)]", goal_cases)
  case (3 x listing q w dir rest es)
  then show ?case using scan_visited_less [of es "w\<lparr>ws_stack := rest\<rparr>" x q]
    by (cases es) auto
qed auto

declare search_loop.simps [simp del]

definition search_scope :: "ext \<Rightarrow> fsys \<Rightarrow> share_root \<Rightarrow> string list \<Rightarrow> string \<Rightarrow> dir_entry list \<times> bool" where
  "search_scope x fs r roots query = (let
     q_lower = x_to_lower x (trim query);
     stack = (if roots = [] then [[]] else roots);
     w = search_loop x (share_list_sync x fs r) q_lower
       \<lparr>ws_stack = stack, ws_visited = 0, ws_out = [], ws_truncated = False\<rparr>
   in (ws_out w, ws_truncated w))"

section \<open>What the walk finds\<close>

text \<open>An invariant of the state that every step keeps holds at the end.\<close>

lemma scan_invariant:
  assumes "\<And>w n. I w \<Longrightarrow> I (w\<lparr>ws_visited := n\<rparr>)"
    and "\<And>w. I w \<Longrightarrow> I (w\<lparr>ws_truncated := True\<rparr>)"
    and "\<And>w e. I w \<Longrightarrow> e \<in> set es \<Longrightarrow> de_kind e = Dir \<Longrightarrow> I (w\<lparr>ws_stack := de_path e # ws_stack w\<rparr>)"
    and "\<And>w e. I w \<Longrightarrow> e \<in> set es \<Longrightarrow> de_kind e = File \<Longrightarrow> matches_query x (de_name e) q \<Longrightarrow>
           length (ws_out w) < SEARCH_MAX_RESULTS \<Longrightarrow> I (w\<lparr>ws_out := ws_out w @ [e]\<rparr>)"
    and "I w"
  shows "I (scan_entries x q es w)"
  using assms
proof (induction es arbitrary: w)
  case (Cons e es)
  let ?w = "w\<lparr>ws_visited := Suc (ws_visited w)\<rparr>"
  have w: "I ?w" using Cons.prems(1,5) by simp
  have IH: "\<And>v. I v \<Longrightarrow> I (scan_entries x q es v)"
    by (rule Cons.IH) (use Cons.prems in auto)
  have d: "de_kind e = Dir \<Longrightarrow> I (?w\<lparr>ws_stack := de_path e # ws_stack ?w\<rparr>)"
    by (rule Cons.prems(3) [OF w]) simp_all
  have f: "de_kind e \<noteq> Dir \<Longrightarrow> matches_query x (de_name e) q \<Longrightarrow>
      length (ws_out ?w) < SEARCH_MAX_RESULTS \<Longrightarrow> I (?w\<lparr>ws_out := ws_out ?w @ [e]\<rparr>)"
    by (rule Cons.prems(4) [OF w]) (cases "de_kind e"; simp)+
  show ?case unfolding scan_entries.simps(2) Let_def
    using Cons.prems(2) [OF w] IH [OF w] IH [OF d] IH [OF f] by (simp split: if_split)
qed simp

lemma loop_invariant:
  assumes scan: "\<And>w d rest es. I w \<Longrightarrow> ws_stack w = d # rest \<Longrightarrow> listing d = Inr es \<Longrightarrow>
      length (ws_out w) < SEARCH_MAX_RESULTS \<Longrightarrow> I (scan_entries x q es (w\<lparr>ws_stack := rest\<rparr>))"
    and pop: "\<And>w d rest. I w \<Longrightarrow> ws_stack w = d # rest \<Longrightarrow> I (w\<lparr>ws_stack := rest\<rparr>)"
    and tr: "\<And>w. I w \<Longrightarrow> I (w\<lparr>ws_truncated := True\<rparr>)"
    and "I w"
  shows "I (search_loop x listing q w)"
  using assms
proof (induction x listing q w rule: search_loop.induct)
  case (1 x listing q w)
  note scan = "1.prems"(1) and pop = "1.prems"(2) and tr = "1.prems"(3) and I = "1.prems"(4)
  show ?case
  proof (cases "ws_stack w")
    case Nil
    then show ?thesis using I by (simp add: search_loop.simps [of x listing q w])
  next
    case (Cons d rest)
    show ?thesis
    proof (cases "SEARCH_VISIT_BUDGET \<le> ws_visited w \<or> SEARCH_MAX_RESULTS \<le> length (ws_out w)")
      case True
      then show ?thesis using tr [OF pop [OF I Cons]] Cons
        by (simp add: search_loop.simps [of x listing q w])
    next
      case False
      show ?thesis
      proof (cases "listing d")
        case (Inl e)
        have "I (search_loop x listing q (w\<lparr>ws_stack := rest\<rparr>))"
          by (rule "1.IH"(1) [OF Cons False Inl scan pop tr pop [OF I Cons]])
        then show ?thesis using Cons False Inl by (simp add: search_loop.simps [of x listing q w])
      next
        case (Inr es)
        have sc: "I (scan_entries x q es (w\<lparr>ws_stack := rest\<rparr>))"
          using scan [OF I Cons Inr] False by simp
        have "I (search_loop x listing q (scan_entries x q es (w\<lparr>ws_stack := rest\<rparr>)))"
          by (rule "1.IH"(2) [OF Cons False Inr]; fact scan pop tr sc)
        then show ?thesis using Cons False Inr by (simp add: search_loop.simps [of x listing q w])
      qed
    qed
  qed
qed

text \<open>Every hit matches, is a file entry, and lies in the subtree of a root; there are at most
  @<SEARCH_MAX_RESULTS> of them.\<close>

definition below_roots :: "string list \<Rightarrow> string \<Rightarrow> bool" where
  "below_roots roots d \<longleftrightarrow> (\<exists>p \<in> set roots. d = p \<or> within d p)"

definition hit_ok :: "ext \<Rightarrow> string \<Rightarrow> string list \<Rightarrow> dir_entry \<Rightarrow> bool" where
  "hit_ok x q roots e \<longleftrightarrow> de_kind e = File \<and> matches_query x (de_name e) q
     \<and> below_roots roots (de_path e)"

definition walk_ok :: "ext \<Rightarrow> string \<Rightarrow> string list \<Rightarrow> walk_state \<Rightarrow> bool" where
  "walk_ok x q roots w \<longleftrightarrow> list_all (below_roots roots) (ws_stack w)
     \<and> list_all (hit_ok x q roots) (ws_out w) \<and> length (ws_out w) \<le> SEARCH_MAX_RESULTS"

lemma entry_path_within:
  assumes "share_list x fs r d = Inr es" "e \<in> set es" "below_roots roots d" "[] \<notin> set roots"
  shows "below_roots roots (de_path e)"
proof -
  obtain w where w: "de_path e = (if d = [] then w else d @ ''/'' @ w)"
    using assms(1,2) by (auto simp: share_list_Inr entry_of_def)
  obtain p where p: "p \<in> set roots" "d = p \<or> within d p" using assms(3) by (auto simp: below_roots_def)
  have "d \<noteq> []" using p assms(4) by (auto simp: within_def)
  then have "within (de_path e) d" using w within_child [of d w] by simp
  then show ?thesis using p within_trans by (auto simp: below_roots_def)
qed

lemma search_loop_ok:
  assumes "walk_ok x q roots w" "[] \<notin> set roots"
  shows "walk_ok x q roots (search_loop x (share_list x fs r) q w)"
proof (rule loop_invariant [where I = "walk_ok x q roots"])
  fix w d rest es
  assume w: "walk_ok x q roots w" "ws_stack w = d # rest" and l: "share_list x fs r d = Inr es"
  have d: "below_roots roots d" using w by (simp add: walk_ok_def)
  show "walk_ok x q roots (scan_entries x q es (w\<lparr>ws_stack := rest\<rparr>))"
    by (rule scan_invariant)
      (use w entry_path_within [OF l _ d assms(2)] in \<open>auto simp: walk_ok_def hit_ok_def\<close>)
qed (use assms(1) in \<open>auto simp: walk_ok_def\<close>)

lemma search_scope_ok:
  assumes "roots \<noteq> []" "[] \<notin> set roots" "search_scope x fs r roots query = (res, tr)"
  shows "list_all (hit_ok x (x_to_lower x (trim query)) roots) res \<and> length res \<le> SEARCH_MAX_RESULTS"
proof -
  let ?q = "x_to_lower x (trim query)"
  let ?w = "\<lparr>ws_stack = roots, ws_visited = 0, ws_out = [], ws_truncated = False\<rparr>"
  have "walk_ok x ?q roots ?w" by (auto simp: walk_ok_def list_all_iff below_roots_def)
  then have "walk_ok x ?q roots (search_loop x (share_list x fs r) ?q ?w)"
    using search_loop_ok assms(2) by blast
  then show ?thesis using assms(1,3) by (auto simp: search_scope_def list_sync_eq walk_ok_def Let_def)
qed

text \<open>The number of entries looked at stays within the budget and the one entry that ends it.\<close>

lemma search_visits: "ws_visited w \<le> Suc SEARCH_VISIT_BUDGET \<Longrightarrow>
    ws_visited (search_loop x listing q w) \<le> Suc SEARCH_VISIT_BUDGET"
proof (induction x listing q w rule: search_loop.induct)
  case (1 x listing q w)
  have scan: "ws_visited v \<le> SEARCH_VISIT_BUDGET \<Longrightarrow>
      ws_visited (scan_entries x q es v) \<le> Suc SEARCH_VISIT_BUDGET" for es v
    by (induction x q es v rule: scan_entries.induct) (auto simp: Let_def)
  show ?case
    using 1 scan by (auto simp: search_loop.simps [of x listing q w] split: list.split sum.split)
qed

section \<open>What the walk misses\<close>

text \<open>The directories a walk can come to. When nothing was cut and the hits stay below the cap, every
  matching file of every such directory is among the hits.\<close>

inductive_set dirs_from :: "(string \<Rightarrow> share_error + dir_entry list) \<Rightarrow> string set \<Rightarrow> string set"
  for listing and S where
  here: "d \<in> S \<Longrightarrow> d \<in> dirs_from listing S"
| below: "d \<in> dirs_from listing S \<Longrightarrow> listing d = Inr es \<Longrightarrow> e \<in> set es \<Longrightarrow> de_kind e = Dir \<Longrightarrow>
    de_path e \<in> dirs_from listing S"

lemma dirs_from_pop:
  assumes "d' \<in> dirs_from listing (insert d S)"
  shows "d' = d \<or> d' \<in> dirs_from listing (S \<union> {de_path e | e es. listing d = Inr es \<and> e \<in> set es \<and> de_kind e = Dir})"
  using assms by (induction rule: dirs_from.induct) (auto intro: dirs_from.intros)

lemma dirs_from_mono: "S \<subseteq> T \<Longrightarrow> dirs_from listing S \<subseteq> dirs_from listing T"
proof
  fix d assume "S \<subseteq> T" "d \<in> dirs_from listing S"
  from this(2,1) show "d \<in> dirs_from listing T"
    by (induction rule: dirs_from.induct) (auto intro: dirs_from.intros)
qed

lemma scan_grows:
  "prefix (ws_out w) (ws_out (scan_entries x q es w))"
  "ws_truncated w \<Longrightarrow> ws_truncated (scan_entries x q es w)"
  by (induction x q es w rule: scan_entries.induct)
    (auto simp: Let_def intro: prefix_order.trans [rotated])

lemma scan_whole:
  assumes "\<not> ws_truncated (scan_entries x q es w)" "length (ws_out (scan_entries x q es w)) < SEARCH_MAX_RESULTS"
  shows "set (ws_stack w) \<union> {de_path e | e. e \<in> set es \<and> de_kind e = Dir} \<subseteq> set (ws_stack (scan_entries x q es w))
    \<and> {e \<in> set es. de_kind e = File \<and> matches_query x (de_name e) q} \<subseteq> set (ws_out (scan_entries x q es w))"
  using assms
proof (induction x q es w rule: scan_entries.induct)
  case (2 x q e es w)
  let ?w = "w\<lparr>ws_visited := Suc (ws_visited w)\<rparr>"
  have b: "\<not> SEARCH_VISIT_BUDGET < ws_visited ?w" using "2.prems"(1) by (auto simp: Let_def)
  have len: "length (ws_out ?w) < SEARCH_MAX_RESULTS"
    using "2.prems"(2) b prefix_length_le [OF scan_grows(1)]
    by (fastforce simp: Let_def split: if_splits dest: le_less_trans)
  show ?case
  proof (cases "de_kind e = Dir")
    case True
    then show ?thesis using "2.IH"(1) [OF refl b True] "2.prems" b by (auto simp: Let_def)
  next
    case d: False
    then have f: "de_kind e = File" by (cases "de_kind e") auto
    show ?thesis
    proof (cases "matches_query x (de_name e) q")
      case True
      let ?v = "?w\<lparr>ws_out := ws_out ?w @ [e]\<rparr>"
      have c: "matches_query x (de_name e) q \<and> length (ws_out ?w) < SEARCH_MAX_RESULTS" using True len by simp
      have eq: "scan_entries x q (e # es) w = scan_entries x q es ?v" using b d c by (simp add: Let_def)
      have "e \<in> set (ws_out (scan_entries x q es ?v))"
        using set_mono_prefix [OF scan_grows(1), of ?v x q es] by auto
      then show ?thesis using "2.IH"(2) [OF refl b d c] "2.prems" unfolding eq using f by auto
    next
      case False
      have eq: "scan_entries x q (e # es) w = scan_entries x q es ?w" using b d False by (simp add: Let_def)
      show ?thesis using "2.IH"(3) [OF refl b d] False "2.prems" unfolding eq using f by auto
    qed
  qed
qed simp

lemma loop_grows:
  "prefix (ws_out w) (ws_out (search_loop x listing q w))"
  "ws_truncated w \<Longrightarrow> ws_truncated (search_loop x listing q w)"
proof -
  have "prefix (ws_out w) (ws_out (search_loop x listing q w))
      \<and> (ws_truncated w \<longrightarrow> ws_truncated (search_loop x listing q w))"
  proof (rule loop_invariant [where I = "\<lambda>v :: walk_state. prefix (ws_out w) (ws_out v) \<and> (ws_truncated w \<longrightarrow> ws_truncated v)"])
    fix v :: walk_state and d rest es
    assume v: "prefix (ws_out w) (ws_out v) \<and> (ws_truncated w \<longrightarrow> ws_truncated v)"
    show "prefix (ws_out w) (ws_out (scan_entries x q es (v\<lparr>ws_stack := rest\<rparr>)))
      \<and> (ws_truncated w \<longrightarrow> ws_truncated (scan_entries x q es (v\<lparr>ws_stack := rest\<rparr>)))"
      using v prefix_order.trans [OF _ scan_grows(1), of "ws_out w" "v\<lparr>ws_stack := rest\<rparr>" x q es]
        scan_grows(2) [of "v\<lparr>ws_stack := rest\<rparr>" x q es] by simp
  qed simp_all
  then show "prefix (ws_out w) (ws_out (search_loop x listing q w))"
    "ws_truncated w \<Longrightarrow> ws_truncated (search_loop x listing q w)" by blast+
qed

lemma search_loop_complete:
  assumes "\<not> ws_truncated (search_loop x listing q w)" "length (ws_out (search_loop x listing q w)) < SEARCH_MAX_RESULTS"
    and "d \<in> dirs_from listing (set (ws_stack w))" "listing d = Inr es" "e \<in> set es" "de_kind e = File"
    "matches_query x (de_name e) q"
  shows "e \<in> set (ws_out (search_loop x listing q w))"
  using assms
proof (induction x listing q w rule: search_loop.induct)
  case (1 x listing q w)
  note hit = "1.prems"(4-7)
  show ?case
  proof (cases "ws_stack w")
    case Nil
    have "d \<notin> dirs_from listing {}" if "d \<in> dirs_from listing {}" for d
      using that by (induction rule: dirs_from.induct) auto
    then show ?thesis using "1.prems"(3) Nil by auto
  next
    case (Cons t rest)
    have b: "\<not> (SEARCH_VISIT_BUDGET \<le> ws_visited w \<or> SEARCH_MAX_RESULTS \<le> length (ws_out w))"
      using "1.prems"(1) Cons by (auto simp: search_loop.simps [of x listing q w])
    have split: "d = t \<or> d \<in> dirs_from listing (set rest \<union>
        {de_path e | e es. listing t = Inr es \<and> e \<in> set es \<and> de_kind e = Dir})"
      using dirs_from_pop [of d listing t "set rest"] "1.prems"(3) Cons by simp
    show ?thesis
    proof (cases "listing t")
      case (Inl er)
      have eq: "search_loop x listing q w = search_loop x listing q (w\<lparr>ws_stack := rest\<rparr>)"
        using Cons b Inl by (simp add: search_loop.simps [of x listing q w])
      have "d \<in> dirs_from listing (set rest)" using split Inl hit(1) by auto
      then show ?thesis using "1.IH"(1) [OF Cons b Inl] "1.prems"(1,2) hit unfolding eq by simp
    next
      case (Inr fs)
      let ?v = "scan_entries x q fs (w\<lparr>ws_stack := rest\<rparr>)"
      have eq: "search_loop x listing q w = search_loop x listing q ?v"
        using Cons b Inr by (simp add: search_loop.simps [of x listing q w])
      have v: "\<not> ws_truncated ?v" "length (ws_out ?v) < SEARCH_MAX_RESULTS"
        using "1.prems"(1,2) loop_grows [of ?v] prefix_length_le [OF loop_grows(1), of ?v] unfolding eq
        by (blast, meson le_less_trans)
      note sc = scan_whole [OF v]
      show ?thesis
      proof (cases "d = t")
        case True
        then have "e \<in> set (ws_out ?v)" using sc hit Inr by auto
        then show ?thesis unfolding eq using set_mono_prefix [OF loop_grows(1), of ?v] by blast
      next
        case False
        have "set rest \<union> {de_path e | e es. listing t = Inr es \<and> e \<in> set es \<and> de_kind e = Dir} \<subseteq> set (ws_stack ?v)"
          using sc Inr by auto
        then have "d \<in> dirs_from listing (set (ws_stack ?v))" using split False dirs_from_mono by blast
        then show ?thesis using "1.IH"(2) [OF Cons b Inr] "1.prems"(1,2) hit unfolding eq by simp
      qed
    qed
  qed
qed

lemma search_scope_complete:
  assumes "search_scope x fs r roots query = (res, False)" "length res < SEARCH_MAX_RESULTS"
    and "d \<in> dirs_from (share_list x fs r) (if roots = [] then {[]} else set roots)"
    and "share_list x fs r d = Inr es" "e \<in> set es" "de_kind e = File"
      "matches_query x (de_name e) (x_to_lower x (trim query))"
  shows "e \<in> set res"
  using assms search_loop_complete [of x "share_list x fs r" "x_to_lower x (trim query)"
      "\<lparr>ws_stack = if roots = [] then [[]] else roots, ws_visited = 0, ws_out = [], ws_truncated = False\<rparr>" d es e]
  by (auto simp: search_scope_def list_sync_eq Let_def split: if_splits)

end
