(* ===== verification/DataPlane.thy ===== *)
theory DataPlane
  imports Prelude Externals Protocol Identity Node Auth Scope Search Share Inbox Pairing LocalPrint RateLimit
begin

text \<open>The handlers of the LAN-facing server, @<doclinkd/src/server.rs>, each a function from the
  node to an answer and the node after it, and their dispatch with the limiter in front of the
  pairing routes. The clock readings @<en_clk 0> to @<en_clk 2> are those of @<require_auth>; later
  ones follow in the order of the code. A handler runs to its end before the next one starts.\<close>

section \<open>Listing and download\<close>

text \<open>The path and query a request is signed over, and the shape the authenticated handlers share:
  @<require_auth>, then the handler's own part under the grant.\<close>

definition list_path_q :: "ext \<Rightarrow> string \<Rightarrow> string" where
  "list_path_q x path = ''/v1/list?path='' @ x_url_encode x path"
definition file_path_q :: "ext \<Rightarrow> string \<Rightarrow> string" where
  "file_path_q x path = ''/v1/file?path='' @ x_url_encode x path"
definition upload_path_q :: "ext \<Rightarrow> string \<Rightarrow> string" where
  "upload_path_q x nm = ''/v1/upload?name='' @ x_url_encode x nm"
definition print_path_q :: "ext \<Rightarrow> string \<Rightarrow> string" where
  "print_path_q x nm = ''/v1/print?name='' @ x_url_encode x nm"
definition search_path_q :: "ext \<Rightarrow> string \<Rightarrow> string" where
  "search_path_q x q = ''/v1/search?q='' @ x_url_encode x q"
definition status_path_q :: "ext \<Rightarrow> string \<Rightarrow> string" where
  "status_path_q x nid = ''/v1/pair/status?node_id='' @ x_url_encode x nid"

definition with_grant :: "sys \<Rightarrow> env \<Rightarrow> headers \<Rightarrow> string \<Rightarrow> string \<Rightarrow> bytes
    \<Rightarrow> (grant \<Rightarrow> node \<Rightarrow> (http_error + 'a) \<times> node) \<Rightarrow> node \<Rightarrow> (http_error + 'a) \<times> node" where
  "with_grant y n h method path_q body k s =
     (case require_auth (sy_x y) (en_clk n) h method path_q body s of
       (Inl e, s) \<Rightarrow> (Inl (auth_into_response e), s)
     | (Inr grant, s) \<Rightarrow> k grant s)"


definition info :: "node \<Rightarrow> node_info" where
  "info s = nd_node s"

fun share_read_err :: "share_error \<Rightarrow> http_error" where
  "share_read_err (NotFound p) = err NOT_FOUND ''path not found''"
| "share_read_err OutsideRoot = err FORBIDDEN ''path outside share root''"
| "share_read_err IsRoot = err FORBIDDEN ''path outside share root''"
| "share_read_err Io = err INTERNAL_SERVER_ERROR ''share read error''"

definition list_handler :: "sys \<Rightarrow> env \<Rightarrow> headers \<Rightarrow> string \<Rightarrow> node \<Rightarrow> (http_error + list_response) \<times> node" where
  "list_handler y n h path s = with_grant y n h ''GET'' (list_path_q (sy_x y) path) [] (\<lambda>grant s.
     if \<not> g_allow_files grant then (Inl (err FORBIDDEN ''printing-only grant cannot browse files''), s)
     else if \<not> can_list (g_paths grant) path then (Inl (err FORBIDDEN ''path outside grant scope''), s)
     else (case share_list (sy_x y) (nd_fs s) (nd_share s) path of
       Inl e \<Rightarrow> (Inl (share_read_err e), s)
     | Inr entries \<Rightarrow>
       (Inr \<lparr>lr_path = path, lr_entries = (if g_paths grant = [] then entries
          else filter (\<lambda>e. entry_visible (g_paths grant) (de_path e) (de_kind e)) entries)\<rparr>, s))) s"

text \<open>A download: its status, headers and the bytes of its stream, which the handler starts at the
  range's first byte and lets run to the end of the file.\<close>

record download =
  dl_status :: nat
  dl_headers :: "(string \<times> string) list"
  dl_stream :: bytes

definition range_parts :: "parsed_range \<Rightarrow> u64 \<Rightarrow> (u64 \<times> u64 \<times> bool) option" where
  "range_parts pr flen = (case pr of
     Unsatisfiable \<Rightarrow> None
   | Full \<Rightarrow> Some (0, flen - 1, False)
   | Partial s e \<Rightarrow> Some (s, e, True))"

definition serve_file :: "sys \<Rightarrow> string option \<Rightarrow> path \<Rightarrow> bytes \<Rightarrow> http_error + download" where
  "serve_file y rng path content = (let flen = of_nat (length content) :: u64 in
     case (if flen = 0 then Some (0, 0, False) else range_parts (parse_range rng flen) flen) of
       None \<Rightarrow> Inl (err RANGE_NOT_SATISFIABLE ''requested range is beyond the end of the file'')
     | Some (start, end_incl, partial) \<Rightarrow> let
         nm = (if path = [] then ''download'' else last path);
         disp = ''attachment; filename='' @ [CHR 0x22] @ nm @ [CHR 0x22];
         len = (if flen = 0 then 0 else end_incl - start + 1);
         cr = ''bytes '' @ show_u64 start @ ''-'' @ show_u64 end_incl @ ''/'' @ show_u64 flen
       in Inr \<lparr>dl_status = (if partial then 206 else 200),
         dl_headers = [(''content-type'', ''application/octet-stream''), (''accept-ranges'', ''bytes'')]
           @ (if sy_header_value y disp then [(''content-disposition'', disp)] else [])
           @ [(''content-length'', show_u64 len)]
           @ (if partial \<and> sy_header_value y cr then [(''content-range'', cr)] else []),
         dl_stream = drop (unat start) content\<rparr>)"

definition file_handler :: "sys \<Rightarrow> env \<Rightarrow> headers \<Rightarrow> string \<Rightarrow> node \<Rightarrow> (http_error + download) \<times> node" where
  "file_handler y n h path s = with_grant y n h ''GET'' (file_path_q (sy_x y) path) [] (\<lambda>grant s.
     if \<not> g_allow_files grant then (Inl (err FORBIDDEN ''printing-only grant cannot download files''), s)
     else if \<not> can_read_file (g_paths grant) path then (Inl (err FORBIDDEN ''path outside grant scope''), s)
     else (case resolve (nd_fs s) (nd_share s) path of
       Inl e \<Rightarrow> (Inl (share_read_err e), s)
     | Inr p \<Rightarrow> (case read_file (nd_fs s) p of
         None \<Rightarrow> (Inl (err INTERNAL_SERVER_ERROR ''share read error''), s)
       | Some content \<Rightarrow> (serve_file y (h ''range'') p content, s)))) s"

section \<open>Upload and print\<close>

definition upload_handler :: "sys \<Rightarrow> env \<Rightarrow> headers \<Rightarrow> string \<Rightarrow> bytes \<Rightarrow> node
    \<Rightarrow> (http_error + upload_result) \<times> node" where
  "upload_handler y n h raw_name body s = (let nm = trim raw_name in
     if \<not> valid_name nm then (Inl (err BAD_REQUEST ''invalid file name''), s)
     else with_grant y n h ''POST'' (upload_path_q (sy_x y) nm) body (\<lambda>grant s.
       if \<not> g_allow_files grant then (Inl (err FORBIDDEN ''printing-only grant cannot send files''), s)
       else if nd_inbox_max s < of_nat (length body) then
         (Inl (err PAYLOAD_TOO_LARGE (''file exceeds the receiving PC's inbox size limit (''
            @ show_u64 (nd_inbox_max s div (1024 * 1024)) @ '' MiB)'')), s)
       else (case write_file (sy_meta y) (en_io n) (en_clk n 4) (nd_inbox s) nm body
           \<lparr>im_from = Some (g_name grant), im_from_node_id = Some (g_node_id grant),
            im_received_unix = Some (en_clk n 3)\<rparr> (nd_fs s) of
         (Inl _, fs) \<Rightarrow> (Inl (err INTERNAL_SERVER_ERROR ''inbox write failed''), s\<lparr>nd_fs := fs\<rparr>)
       | (Inr stored, fs) \<Rightarrow>
         (Inr \<lparr>ur_name = stored, ur_size = of_nat (length body)\<rparr>,
          push_event (en_clk n 5) ''inbox-file'' (g_name grant @ '' sent you '' @ stored)
            ''Accept it into your shared folder, download it, or discard it.'' (s\<lparr>nd_fs := fs\<rparr>)))) s)"

definition print_handler :: "sys \<Rightarrow> env \<Rightarrow> headers \<Rightarrow> string \<Rightarrow> bytes \<Rightarrow> node \<Rightarrow> (http_error + unit) \<times> node" where
  "print_handler y n h raw_name body s = (let
     nm = (if trim raw_name = [] then ''document'' else trim raw_name);
     x = sy_x y
   in with_grant y n h ''POST'' (print_path_q x nm) body (\<lambda>grant s.
     if \<not> g_allow_print grant then (Inl (err FORBIDDEN ''grant does not allow printing''), s)
     else if body = [] then (Inl (err BAD_REQUEST ''empty file''), s)
     else if MAX_JOB_BYTES < length body then
       (Inl (err PAYLOAD_TOO_LARGE ''file exceeds PrintLink size limit (100 MiB)''), s)
     else (case ensure_paired x (en_net n) (en_port_var n) (sy_print y) (en_faults n) (en_clk n 3) (en_clk n 4)
         (nd_identity s) (ni_name (nd_node s)) (nd_print s) of
       (Inl e, lp) \<Rightarrow> (Inl (err BAD_GATEWAY (''local PrintLink: '' @ e)), s\<lparr>nd_print := lp\<rparr>)
     | (Inr token, lp) \<Rightarrow> let s = s\<lparr>nd_print := lp\<rparr> in
       (case submit_job x (en_net n) (en_port_var n) (en_rnd n) token (persona_id x (nd_identity s)) nm body of
         Inl msg \<Rightarrow> (Inl (if contains ''offline'' msg then err SERVICE_UNAVAILABLE msg
                        else err BAD_GATEWAY msg), s)
       | Inr _ \<Rightarrow> (Inr (), push_event (en_clk n 5) ''print-job''
           (g_name grant @ '' printed '' @ nm @ '' on this PC'')
           ''Sent to the default printer via PrintLink.'' s)))) s)"

section \<open>Search\<close>

definition direct_hit :: "ext \<Rightarrow> fsys \<Rightarrow> share_root \<Rightarrow> string \<Rightarrow> string \<Rightarrow> dir_entry option" where
  "direct_hit x fs r q_lower p = (case resolve fs r p of
     Inl _ \<Rightarrow> None
   | Inr full \<Rightarrow>
     if (case metadata fs full of None \<Rightarrow> False | Some nd \<Rightarrow> node_is_file nd) then
       (let nm = last (comps p) in
        if matches_query x nm q_lower then
          Some \<lparr>de_name = nm, de_path = p, de_kind = File,
            de_size = (case metadata fs full of None \<Rightarrow> 0 | Some nd \<Rightarrow> node_len nd),
            de_modified_unix = (case metadata fs full of None \<Rightarrow> None | Some nd \<Rightarrow> node_mtime nd)\<rparr>
        else None)
     else None)"

definition search_handler :: "sys \<Rightarrow> env \<Rightarrow> headers \<Rightarrow> string \<Rightarrow> node \<Rightarrow> (http_error + search_response) \<times> node" where
  "search_handler y n h q s = with_grant y n h ''GET'' (search_path_q (sy_x y) q) [] (\<lambda>grant s.
     if \<not> g_allow_files grant then (Inl (err FORBIDDEN ''printing-only grant cannot search''), s)
     else let query = trim q in
     if chars_count query < 2 then
       (Inl (err BAD_REQUEST ''search term must be at least 2 characters''), s)
     else let
       x = sy_x y;
       q_lower = x_to_lower x query;
       direct = List.map_filter (direct_hit x (nd_fs s) (nd_share s) q_lower) (g_paths grant);
       roots = (if g_paths grant = [] then [[]] else remdups_adj (sort (g_paths grant)));
       (results, truncated) = search_scope x (nd_fs s) (nd_share s) roots query;
       truncated = (if truncated then False else truncated)
     in (Inr \<lparr>sr_query = query, sr_truncated = truncated, sr_results = direct @ results\<rparr>, s)) s"

section \<open>Pairing\<close>

fun chunks4 :: "string \<Rightarrow> string list" where
  "chunks4 [] = []"
| "chunks4 (a # b # c # d # r) = [a, b, c, d] # chunks4 r"
| "chunks4 r = [r]"

definition group_hex :: "string \<Rightarrow> string" where
  "group_hex i = join_with ''-'' (map (\<lambda>c. if valid_utf8 c then c else i) (chunks4 i))"

definition admit_request :: "env \<Rightarrow> pair_request \<Rightarrow> node \<Rightarrow> (http_error + pair_status_response) \<times> node" where
  "admit_request n req s = (let
     is_new = (map_of (pending (nd_pairing s)) (pr_node_id req) = None);
     (r, p) = admit_pending (en_clk n 1) (en_clk n 2) req (nd_pairing s);
     s = s\<lparr>nd_pairing := p\<rparr>
   in case r of
     Inl m \<Rightarrow> (Inl (err TOO_MANY_REQUESTS m), s)
   | Inr _ \<Rightarrow> (Inr \<lparr>ps_status = Pending, ps_expires_unix = None\<rparr>,
       if is_new then push_event (en_clk n 3) ''pair-request''
         (pr_name req @ '' wants access to your files'')
         (''Approve or deny it in the Incoming list. DocLink ID '' @ group_hex (pr_node_id req) @ ''.'') s
       else s))"

definition pair_request_handler :: "sys \<Rightarrow> env \<Rightarrow> string \<Rightarrow> node \<Rightarrow> (http_error + pair_status_response) \<times> node" where
  "pair_request_handler y n body s = (let x = sy_x y in case sy_pair_request y body of
     None \<Rightarrow> (Inl (err BAD_REQUEST ''invalid pair request''), s)
   | Some req \<Rightarrow> (case verify x (pr_pubkey_hex req) (canonical_request_string req) (pr_signature req) of
       Inl _ \<Rightarrow> (Inl (err FORBIDDEN ''bad signature''), s)
     | Inr _ \<Rightarrow> (case fingerprint_from_pubkey_hex x (pr_pubkey_hex req) of
         None \<Rightarrow> (Inl (err BAD_REQUEST ''bad pubkey''), s)
       | Some fp \<Rightarrow>
         if take 16 fp \<noteq> pr_node_id req then
           (Inl (err BAD_REQUEST ''node_id does not match pubkey''), s)
         else (case find_grant fp (grants_of s) of
           Some g \<Rightarrow> if grant_live (en_clk n 0) g then
               (Inr \<lparr>ps_status = Approved, ps_expires_unix = g_expires_unix g\<rparr>, s)
             else admit_request n req s
         | None \<Rightarrow> admit_request n req s))))"

definition decision_status :: "string \<Rightarrow> pair_status" where
  "decision_status d = (if d = ''approve'' then Approved else if d = ''deny'' then Denied else Unknown)"

definition contact_label :: "pair_status \<Rightarrow> string" where
  "contact_label st = (case st of Approved \<Rightarrow> ''approved'' | Denied \<Rightarrow> ''denied'' | _ \<Rightarrow> ''pending'')"

definition label_contact :: "sys \<Rightarrow> env \<Rightarrow> string \<Rightarrow> string \<Rightarrow> node \<Rightarrow> node" where
  "label_contact y n fp label s = (case List.find (\<lambda>c. c_fingerprint c = fp) (contacts_of s) of
     None \<Rightarrow> s
   | Some c \<Rightarrow>
     if c_status c \<noteq> label then
       s\<lparr>nd_contacts := snd (store_save (sy_contacts y) (en_faults n) ((nd_contacts s)
         \<lparr>st_data := update_first (\<lambda>c. c_fingerprint c = fp) (\<lambda>c. c\<lparr>c_status := label\<rparr>) (contacts_of s)\<rparr>))\<rparr>
     else s)"

definition pair_decision_handler :: "sys \<Rightarrow> env \<Rightarrow> string \<Rightarrow> node \<Rightarrow> (http_error + unit) \<times> node" where
  "pair_decision_handler y n body s = (let x = sy_x y in case sy_pair_decision y body of
     None \<Rightarrow> (Inl (err BAD_REQUEST ''invalid decision''), s)
   | Some d \<Rightarrow> (case verify x (pd_pubkey_hex d) (canonical_decision_string d) (pd_signature d) of
       Inl _ \<Rightarrow> (Inl (err FORBIDDEN ''bad signature''), s)
     | Inr _ \<Rightarrow>
       if pd_requester_node_id d \<noteq> ni_node_id (nd_node s) then
         (Inl (err FORBIDDEN ''decision is not addressed to this node''), s)
       else (case fingerprint_from_pubkey_hex x (pd_pubkey_hex d) of
         None \<Rightarrow> (Inl (err BAD_REQUEST ''bad pubkey''), s)
       | Some signer_fp \<Rightarrow>
         if \<not> list_ex (\<lambda>c. c_fingerprint c = signer_fp) (contacts_of s) then
           (Inl (err FORBIDDEN ''decision from an unpaired PC''), s)
         else let
           status = decision_status (pd_decision d);
           resp = \<lparr>ps_status = status, ps_expires_unix =
             (if pd_duration_secs d \<noteq> 0 then Some (en_clk n 0 + pd_duration_secs d) else None)\<rparr>;
           s = s\<lparr>nd_pairing := remember_decision (en_clk n 1) (pd_requester_node_id d) resp (nd_pairing s)\<rparr>
         in (Inr (), label_contact y n signer_fp (contact_label status) s))))"

definition pair_status_handler :: "sys \<Rightarrow> env \<Rightarrow> headers \<Rightarrow> string \<Rightarrow> node
    \<Rightarrow> (http_error + pair_status_response) \<times> node" where
  "pair_status_handler y n h nid s = (let
     x = sy_x y;
     path_q = status_path_q x nid
   in case verify_signed_headers x (en_clk n 0) h ''GET'' path_q [] of
     Inl e \<Rightarrow> (Inl (auth_into_response e), s)
   | Inr (caller, pk, sg) \<Rightarrow> (let (r, seen) = reject_replays (en_clk n 1) sg (nd_seen s);
         s = s\<lparr>nd_seen := seen\<rparr>
       in case r of
         Inl e \<Rightarrow> (Inl (auth_into_response e), s)
       | Inr _ \<Rightarrow>
         if caller \<noteq> nid then (Inl (err FORBIDDEN ''you may only poll your own pairing status''), s)
         else (case fingerprint_from_pubkey_hex x pk of
           None \<Rightarrow> (Inl (err BAD_REQUEST ''bad public key header''), s)
         | Some fp \<Rightarrow>
           if take 16 fp \<noteq> nid then (Inl (err BAD_REQUEST ''node_id does not match pubkey''), s)
           else (Inr (pair_status_lookup (en_clk n 2) (nd_pairing s) (grants_of s) nid), s))))"

section \<open>Routes\<close>

datatype dp_request = GetInfo | GetList string | GetFile string | GetSearch string
  | PostUpload string bytes | PostPrint string bytes
  | PostPairRequest string | PostPairDecision string | GetPairStatus string

datatype dp_response = OkInfo node_info | OkList list_response | OkFile download
  | OkSearch search_response | OkUpload upload_result | OkPrint
  | OkPair pair_status_response | OkNoContent | Refusal http_error

definition answer :: "('a \<Rightarrow> dp_response) \<Rightarrow> (http_error + 'a) \<times> node \<Rightarrow> dp_response \<times> node" where
  "answer f r = (case fst r of Inl e \<Rightarrow> Refusal e | Inr v \<Rightarrow> f v, snd r)"

text \<open>The limiter layer: @<ip> is the peer address, unknown only in in-process tests.\<close>

definition rate_limit_pair :: "env \<Rightarrow> string option \<Rightarrow> (node \<Rightarrow> dp_response \<times> node) \<Rightarrow> node
    \<Rightarrow> dp_response \<times> node" where
  "rate_limit_pair n ip handler s = (case ip of
     None \<Rightarrow> handler s
   | Some a \<Rightarrow> (let (ok, l) = allow (en_instant n) a (nd_limiter s); s = s\<lparr>nd_limiter := l\<rparr> in
     if ok then handler s
     else (Refusal (err TOO_MANY_REQUESTS (''too many pairing requests from this address ''
       @ em_dash @ '' slow down'')), s)))"

text \<open>The web framework buffers the body before the handler runs, up to its own limit, which the router
  leaves at its default.\<close>

definition buffered :: "sys \<Rightarrow> bytes \<Rightarrow> (node \<Rightarrow> dp_response \<times> node) \<Rightarrow> node \<Rightarrow> dp_response \<times> node" where
  "buffered y body handler s = (if sy_body_limit y < length body
     then (Refusal (err PAYLOAD_TOO_LARGE ''Failed to buffer the request body: length limit exceeded''), s)
     else handler s)"

definition serve :: "sys \<Rightarrow> env \<Rightarrow> string option \<Rightarrow> headers \<Rightarrow> dp_request \<Rightarrow> node \<Rightarrow> dp_response \<times> node" where
  "serve y n ip h req s = (case req of
     GetInfo \<Rightarrow> (OkInfo (info s), s)
   | GetList p \<Rightarrow> answer OkList (list_handler y n h p s)
   | GetFile p \<Rightarrow> answer OkFile (file_handler y n h p s)
   | GetSearch q \<Rightarrow> answer OkSearch (search_handler y n h q s)
   | PostUpload nm b \<Rightarrow> buffered y b (\<lambda>s. answer OkUpload (upload_handler y n h nm b s)) s
   | PostPrint nm b \<Rightarrow> buffered y b (\<lambda>s. answer (\<lambda>_. OkPrint) (print_handler y n h nm b s)) s
   | PostPairRequest b \<Rightarrow> rate_limit_pair n ip (buffered y b (\<lambda>s. answer OkPair (pair_request_handler y n b s))) s
   | PostPairDecision b \<Rightarrow> rate_limit_pair n ip
       (buffered y b (\<lambda>s. answer (\<lambda>_. OkNoContent) (pair_decision_handler y n b s))) s
   | GetPairStatus i \<Rightarrow> rate_limit_pair n ip (\<lambda>s. answer OkPair (pair_status_handler y n h i s)) s)"

section \<open>What an answer shows\<close>

text \<open>The caller of an authenticated handler: it holds the private key behind the signature, and a
  live grant names that key.\<close>

definition authenticated :: "sys \<Rightarrow> env \<Rightarrow> headers \<Rightarrow> string \<Rightarrow> string \<Rightarrow> bytes \<Rightarrow> node \<Rightarrow> grant \<Rightarrow> bool" where
  "authenticated y n h method path_q body s g \<longleftrightarrow> g \<in> set (grants_of s) \<and> grant_live (en_clk n 2) g
     \<and> (\<exists>pk sg ts t. h ''x-doclink-node'' = Some (g_node_id g)
         \<and> h ''x-doclink-pub'' = Some pk \<and> h ''x-doclink-sig'' = Some sg
         \<and> h ''x-doclink-ts'' = Some ts \<and> parse_u64 ts = Some t
         \<and> abs_diff (en_clk n 0) t \<le> MAX_SKEW_SECS
         \<and> verify (sy_x y) pk (request_canonical method path_q (show_u64 t)
             (case h ''x-doclink-nonce'' of None \<Rightarrow> [] | Some c \<Rightarrow> c) body) sg = Inr ()
         \<and> fingerprint_from_pubkey_hex (sy_x y) pk = Some (g_fingerprint g)
         \<and> map_of (purge_seen (en_clk n 1) (nd_seen s)) sg = None)"

lemma require_auth_authenticated:
  assumes "require_auth (sy_x y) (en_clk n) h method path_q body s = (Inr g, s')"
  shows "authenticated y n h method path_q body s g \<and> (\<exists>seen. s' = s\<lparr>nd_seen := seen\<rparr>)"
proof -
  obtain nid pk sg where
    v: "verify_signed_headers (sy_x y) (en_clk n 0) h method path_q body = Inr (nid, pk, sg)"
    and r: "fst (reject_replays (en_clk n 1) sg (nd_seen s)) = Inr ()"
    and c: "check_grant (sy_x y) (en_clk n 2) (nd_pairing s) (grants_of s) nid pk = Inr g"
    and s': "s' = s\<lparr>nd_seen := snd (reject_replays (en_clk n 1) sg (nd_seen s))\<rparr>"
    using require_auth_Inr [OF assms] .
  have g: "g \<in> set (grants_of s)" "g_node_id g = nid"
    using c find_key_Some [of g_node_id nid "grants_of s" g] by (auto simp: check_grant_Inr find_key_def)
  show ?thesis
    using v r c g s' unfolding authenticated_def verify_headers_Inr check_grant_Inr reject_replays_fresh
    by blast
qed

lemma with_grant_Inr:
  assumes "with_grant y n h method path_q body k s = (Inr r, s')"
  obtains g seen where "authenticated y n h method path_q body s g" "k g (s\<lparr>nd_seen := seen\<rparr>) = (Inr r, s')"
proof -
  obtain a s1 where a: "require_auth (sy_x y) (en_clk n) h method path_q body s = (a, s1)" by force
  obtain g where g: "a = Inr g" using assms a by (cases a) (auto simp: with_grant_def)
  then show thesis using require_auth_authenticated [OF a [unfolded g]] assms a that
    by (auto simp: with_grant_def)
qed

lemma with_grant_keeps:
  assumes "\<And>seen. f (s\<lparr>nd_seen := seen\<rparr>) = f s"
    and "\<And>g seen. f (snd (k g (s\<lparr>nd_seen := seen\<rparr>))) = f s"
  shows "f (snd (with_grant y n h method path_q body k s)) = f s"
proof -
  obtain seen where "snd (require_auth (sy_x y) (en_clk n) h method path_q body s) = s\<lparr>nd_seen := seen\<rparr>"
    using require_auth_state by blast
  then show ?thesis using assms by (auto simp: with_grant_def split: prod.split sum.split)
qed

lemma list_handler_Inr:
  assumes "list_handler y n h path s = (Inr r, s')"
  obtains g es where
    "authenticated y n h ''GET'' (list_path_q (sy_x y) path) [] s g"
    "g_allow_files g" "can_list (g_paths g) path"
    "share_list (sy_x y) (nd_fs s) (nd_share s) path = Inr es"
    "lr_entries r = (if g_paths g = [] then es
       else filter (\<lambda>e. entry_visible (g_paths g) (de_path e) (de_kind e)) es)"
    "lr_path r = path"
  using assms unfolding list_handler_def
  by (elim with_grant_Inr) (auto split: if_splits sum.splits)

lemma serve_file_Inr:
  assumes "serve_file y rng p content = Inr d"
  shows "\<exists>k. dl_stream d = drop k content"
  using assms by (auto simp: serve_file_def Let_def split: option.splits prod.splits)

lemma read_file_get:
  "read_file fs p = Some b \<Longrightarrow> canon fs p = Some p \<Longrightarrow> \<exists>m. fs_get fs p = Some (FFile b m)"
  by (auto simp: read_file_def metadata_def split: option.splits fnode.splits if_splits)

lemma file_handler_Inr:
  assumes "file_handler y n h path s = (Inr d, s')"
  obtains g p content m where
    "authenticated y n h ''GET'' (file_path_q (sy_x y) path) [] s g"
    "g_allow_files g" "can_read_file (g_paths g) path"
    "resolve (nd_fs s) (nd_share s) path = Inr p" "fs_get (nd_fs s) p = Some (FFile content m)"
    "serve_file y (h ''range'') p content = Inr d"
proof -
  from assms [unfolded file_handler_def] obtain g p content where
    g: "authenticated y n h ''GET'' (file_path_q (sy_x y) path) [] s g"
    "g_allow_files g" "can_read_file (g_paths g) path"
    "resolve (nd_fs s) (nd_share s) path = Inr p" "read_file (nd_fs s) p = Some content"
    "serve_file y (h ''range'') p content = Inr d"
    by (elim with_grant_Inr) (auto split: if_splits sum.splits option.splits)
  with read_file_get [OF g(5) resolve_canon [OF g(4)]] that show thesis by blast
qed

lemma upload_handler_Inr:
  assumes "upload_handler y n h raw body s = (Inr r, s')"
  obtains g m where
    "authenticated y n h ''POST'' (upload_path_q (sy_x y) (trim raw)) body s g" "g_allow_files g"
    "of_nat (length body) \<le> nd_inbox_max s"
    "write_file (sy_meta y) (en_io n) (en_clk n 4) (nd_inbox s) (trim raw) body m (nd_fs s)
      = (Inr (ur_name r), nd_fs s')"
  using assms unfolding upload_handler_def Let_def
  by (auto simp: not_less push_event_def split: if_splits sum.splits prod.splits elim!: with_grant_Inr)

lemma search_handler_Inr:
  assumes "search_handler y n h q s = (Inr r, s')"
  obtains g where
    "authenticated y n h ''GET'' (search_path_q (sy_x y) q) [] s g"
    "g_allow_files g" "2 \<le> chars_count (trim q)" "sr_truncated r = False"
    "sr_results r =
       List.map_filter (direct_hit (sy_x y) (nd_fs s) (nd_share s) (x_to_lower (sy_x y) (trim q))) (g_paths g)
       @ fst (search_scope (sy_x y) (nd_fs s) (nd_share s)
           (if g_paths g = [] then [[]] else remdups_adj (sort (g_paths g))) (trim q))"
  using assms unfolding search_handler_def
  by (elim with_grant_Inr) (auto simp: Let_def not_less split: if_splits prod.splits)

section \<open>What no request changes\<close>

text \<open>Nothing a peer sends touches the grants.\<close>

lemma push_event_simps [simp]:
  "nd_grants (push_event now k t b s) = nd_grants s" "nd_fs (push_event now k t b s) = nd_fs s"
  "nd_share (push_event now k t b s) = nd_share s" "nd_inbox (push_event now k t b s) = nd_inbox s"
  "nd_contacts (push_event now k t b s) = nd_contacts s" "nd_pairing (push_event now k t b s) = nd_pairing s"
  "nd_node (push_event now k t b s) = nd_node s" "nd_seen (push_event now k t b s) = nd_seen s"
  "nd_limiter (push_event now k t b s) = nd_limiter s"
  by (simp_all add: push_event_def)

lemma handlers_keep_grants:
  "nd_grants (snd (list_handler y n h p s)) = nd_grants s"
  "nd_grants (snd (file_handler y n h p s)) = nd_grants s"
  "nd_grants (snd (search_handler y n h p s)) = nd_grants s"
  "nd_grants (snd (upload_handler y n h p b s)) = nd_grants s"
  "nd_grants (snd (print_handler y n h p b s)) = nd_grants s"
  unfolding list_handler_def file_handler_def search_handler_def upload_handler_def print_handler_def
  by (auto simp: Let_def intro!: with_grant_keeps [where f = nd_grants] split: sum.split option.split prod.split)

lemma pairing_handlers_keep_grants:
  "nd_grants (snd (pair_request_handler y n b s)) = nd_grants s"
  "nd_grants (snd (pair_decision_handler y n b s)) = nd_grants s"
  "nd_grants (snd (pair_status_handler y n h i s)) = nd_grants s"
  by (auto simp: pair_request_handler_def admit_request_def pair_decision_handler_def label_contact_def
      pair_status_handler_def Let_def split: sum.split option.split prod.split)

lemma serve_keeps_grants: "nd_grants (snd (serve y n ip h req s)) = nd_grants s"
  by (cases req) (auto simp: serve_def answer_def buffered_def rate_limit_pair_def Let_def handlers_keep_grants
      pairing_handlers_keep_grants split: option.split prod.split)

text \<open>An upload writes below the inbox directory only; every other request leaves the disk alone.\<close>

lemma upload_fs_frame:
  assumes "inbox_ok (nd_fs s) (nd_inbox s)" "\<And>w. q \<noteq> ib_root (nd_inbox s) @ [w]"
  shows "fs_get (nd_fs (snd (upload_handler y n h nm b s))) q = fs_get (nd_fs s) q"
proof (cases "valid_name (trim nm)")
  case True
  have "trim (trim nm) = trim nm" using True by (auto simp: valid_name_def)
  then have "fs_get (snd (write_file mc io now (nd_inbox s) (trim nm) b m (nd_fs s))) q
      = fs_get (nd_fs s) q" for mc io now m
    using write_file_frame [OF assms(1) _ refl, of "trim nm" q] True assms(2)
    by (simp add: sidecar_path_def)
  note w = this
  have f: "fs_get (nd_fs (snd (with_grant y n h me pq bo k s))) q = fs_get (nd_fs s) q"
    if "\<And>g seen. fs_get (nd_fs (snd (k g (s\<lparr>nd_seen := seen\<rparr>)))) q = fs_get (nd_fs s) q" for me pq bo k
    by (rule with_grant_keeps [where f = "\<lambda>s. fs_get (nd_fs s) q"]) (use that in simp_all)
  show ?thesis using True w unfolding upload_handler_def
    by (auto simp: Let_def intro!: f split: prod.split sum.split) (metis snd_conv)+
qed (simp add: upload_handler_def Let_def)

lemma other_handlers_keep_fs:
  "nd_fs (snd (list_handler y n h p s)) = nd_fs s"
  "nd_fs (snd (file_handler y n h p s)) = nd_fs s"
  "nd_fs (snd (search_handler y n h p s)) = nd_fs s"
  "nd_fs (snd (print_handler y n h p b s)) = nd_fs s"
  "nd_fs (snd (pair_request_handler y n b s)) = nd_fs s"
  "nd_fs (snd (pair_decision_handler y n b s)) = nd_fs s"
  "nd_fs (snd (pair_status_handler y n h i s)) = nd_fs s"
  unfolding list_handler_def file_handler_def search_handler_def print_handler_def
    pair_request_handler_def admit_request_def pair_decision_handler_def label_contact_def
    pair_status_handler_def
  by (auto simp: Let_def intro!: with_grant_keeps [where f = nd_fs] split: sum.split option.split prod.split)

lemma serve_fs_frame:
  assumes "inbox_ok (nd_fs s) (nd_inbox s)" "\<And>w. q \<noteq> ib_root (nd_inbox s) @ [w]"
  shows "fs_get (nd_fs (snd (serve y n ip h req s))) q = fs_get (nd_fs s) q"
  using assms by (cases req) (auto simp: serve_def answer_def buffered_def rate_limit_pair_def Let_def
      upload_fs_frame other_handlers_keep_fs split: option.split prod.split)

section \<open>Search stays in scope\<close>

lemma direct_hit_readable:
  "direct_hit x fs r q p = Some e \<Longrightarrow> de_path e = p \<and> de_kind e = File \<and> matches_query x (de_name e) q"
  by (auto simp: direct_hit_def Let_def split: sum.splits if_splits)

lemma below_roots_readable:
  "below_roots roots d \<Longrightarrow> set roots = set paths \<Longrightarrow> can_read_file paths d"
  by (auto simp: below_roots_def can_read_file_def list_ex_iff)

lemma search_hits_readable:
  assumes "search_handler y n h q s = (Inr r, s')"
  obtains g where "authenticated y n h ''GET'' (search_path_q (sy_x y) q) [] s g" "g_allow_files g"
    "\<And>e. e \<in> set (sr_results r) \<Longrightarrow> [] \<notin> set (g_paths g) \<Longrightarrow> can_read_file (g_paths g) (de_path e)"
proof -
  obtain g where g: "authenticated y n h ''GET'' (search_path_q (sy_x y) q) [] s g" "g_allow_files g"
    and res: "sr_results r =
       List.map_filter (direct_hit (sy_x y) (nd_fs s) (nd_share s) (x_to_lower (sy_x y) (trim q))) (g_paths g)
       @ fst (search_scope (sy_x y) (nd_fs s) (nd_share s)
           (if g_paths g = [] then [[]] else remdups_adj (sort (g_paths g))) (trim q))"
    using search_handler_Inr [OF assms] by metis
  have "can_read_file (g_paths g) (de_path e)" if e: "e \<in> set (sr_results r)" and ne: "[] \<notin> set (g_paths g)" for e
  proof (cases "g_paths g = []")
    case False
    let ?roots = "remdups_adj (sort (g_paths g))"
    obtain hits tr where hits: "search_scope (sy_x y) (nd_fs s) (nd_share s) ?roots (trim q) = (hits, tr)"
      by force
    have ok: "list_all (hit_ok (sy_x y) (x_to_lower (sy_x y) (trim (trim q))) ?roots) hits"
      using search_scope_ok [OF _ _ hits] False ne
      by (metis length_0_conv length_sort remdups_adj_Nil_iff remdups_adj_set set_sort)
    from res e False hits
    have "(\<exists>p \<in> set (g_paths g). direct_hit (sy_x y) (nd_fs s) (nd_share s)
        (x_to_lower (sy_x y) (trim q)) p = Some e) \<or> e \<in> set hits"
      by (auto simp: List.map_filter_def)
    then show ?thesis
    proof
      assume "e \<in> set hits"
      then have "below_roots ?roots (de_path e)" using ok by (auto simp: list_all_iff hit_ok_def)
      then show ?thesis by (rule below_roots_readable) simp
    qed (auto dest!: direct_hit_readable simp: can_read_file_def list_ex_iff)
  qed (simp add: can_read_file_def)
  then show thesis using that g by blast
qed

end
