(* ===== verification/Registry.thy ===== *)
theory Registry
  imports Prelude Externals Protocol Identity
begin

text \<open>The peer registry and the mDNS events that feed it, @<doclink-core/src/discovery.rs>, the
  keepalive of @<doclinkd/src/main.rs>, the pin check of @<doclinkd/src/peer.rs> and the subnet
  probe of @<doclinkd/src/scan.rs>.\<close>

section \<open>The registry\<close>

type_synonym registry = "(string \<times> peer) list"

definition peer_fresh :: "u64 \<Rightarrow> peer \<Rightarrow> bool" where
  "peer_fresh now p \<longleftrightarrow> sat_sub now (p_last_seen_unix p) \<le> PEER_TTL_SECS"

definition registry_snapshot :: "u64 \<Rightarrow> registry \<Rightarrow> peer list \<times> registry" where
  "registry_snapshot now r = (let r = filter (\<lambda>e. peer_fresh now (snd e)) r in (map snd r, r))"

definition registry_upsert :: "peer \<Rightarrow> registry \<Rightarrow> registry" where
  "registry_upsert p r = AList.update (p_node_id p) p r"

definition registry_touch :: "u64 \<Rightarrow> string \<Rightarrow> registry \<Rightarrow> registry" where
  "registry_touch now nid r = (case map_of r nid of
     None \<Rightarrow> r | Some p \<Rightarrow> AList.update nid (p\<lparr>p_last_seen_unix := now\<rparr>) r)"

definition registry_remove :: "string \<Rightarrow> registry \<Rightarrow> registry" where
  "registry_remove nid r = AList.delete nid r"

definition registry_ok :: "registry \<Rightarrow> bool" where
  "registry_ok r \<longleftrightarrow> distinct (map fst r) \<and> list_all (\<lambda>(k, p). p_node_id p = k) r"

section \<open>Discovery events\<close>

text \<open>An address of a resolved service: its text and the class that decides its rank.\<close>

datatype ip_class = V4_Routable | V4_Loopback | V6_Global | V6_Link_Local

fun addr_score :: "ip_class \<Rightarrow> nat" where
  "addr_score V4_Loopback = 1"
| "addr_score V4_Routable = 0"
| "addr_score V6_Link_Local = 3"
| "addr_score V6_Global = 2"

definition pick_addr :: "(string \<times> ip_class) list \<Rightarrow> string option" where
  "pick_addr as = (if as = [] then None else Some (fst (arg_min_list (\<lambda>a. addr_score (snd a)) as)))"

record service_info =
  si_node_id :: "string option"
  si_http_port :: "string option"
  si_addresses :: "(string \<times> ip_class) list"
  si_fullname :: string

datatype mdns_event = ServiceFound | ServiceRemoved string | ServiceResolved service_info | OtherEvent

definition MDNS_SERVICE_TYPE :: string where "MDNS_SERVICE_TYPE = ''_doclink._tcp.local.''"

definition full_instance_name :: "string \<Rightarrow> string" where
  "full_instance_name nid = ''doclink-'' @ nid @ ''.'' @ MDNS_SERVICE_TYPE"

definition browser_event :: "u64 \<Rightarrow> string \<Rightarrow> mdns_event \<Rightarrow> registry \<Rightarrow> registry" where
  "browser_event now self_id ev r = (case ev of
     ServiceRemoved fullname \<Rightarrow> (case strip_prefix ''doclink-'' fullname of
       None \<Rightarrow> r | Some rest \<Rightarrow> registry_remove (hd (split_on (CHR ''.'') rest)) r)
   | ServiceResolved si \<Rightarrow> (case si_node_id si of
       None \<Rightarrow> r
     | Some nid \<Rightarrow>
       if nid = self_id then r
       else let port = (case si_http_port si of None \<Rightarrow> 37655
              | Some v \<Rightarrow> (case parse_uint (2 ^ 16) v of None \<Rightarrow> 37655 | Some n \<Rightarrow> of_nat n))
       in (case pick_addr (si_addresses si) of
         None \<Rightarrow> r
       | Some a \<Rightarrow> registry_upsert \<lparr>p_node_id = nid, p_name = si_fullname si, p_addr = a,
           p_http_port = port, p_fingerprint = [], p_last_seen_unix = now\<rparr> r))
   | _ \<Rightarrow> r)"

definition is_alnum :: "char \<Rightarrow> bool" where
  "is_alnum c \<longleftrightarrow> is_digit c \<or> (65 \<le> byte_of c \<and> byte_of c \<le> 90) \<or> (97 \<le> byte_of c \<and> byte_of c \<le> 122)"

text \<open>The advertised host name: every character that is no ASCII letter, digit or hyphen becomes one
  hyphen; the bytes that continue a character vanish with it.\<close>

definition mdns_host_name :: "string \<Rightarrow> string" where
  "mdns_host_name nm = map (\<lambda>c. if is_alnum c \<or> c = CHR ''-'' then c else CHR ''-'')
     (filter (\<lambda>c. \<not> is_cont c) (ascii_lowercase nm)) @ ''.local.''"

section \<open>Pins and probes\<close>

text \<open>What @<peer::check> sees of a response: whether there is a TLS session, and its certificate.\<close>

definition spki_hex_of :: "ext \<Rightarrow> bytes option option \<Rightarrow> string + string" where
  "spki_hex_of x tls = (case tls of
     None \<Rightarrow> Inl ''no TLS session info on peer response''
   | Some None \<Rightarrow> Inl ''peer presented no certificate''
   | Some (Some der) \<Rightarrow> (case spki_sha256 x der of
       None \<Rightarrow> Inl ''peer certificate does not carry an ed25519 subjectPublicKey''
     | Some d \<Rightarrow> Inr (x_hex_encode x d)))"

definition peer_check :: "ext \<Rightarrow> bytes option option \<Rightarrow> string option \<Rightarrow> string + string" where
  "peer_check x tls expected = (case spki_hex_of x tls of
     Inl e \<Rightarrow> Inl e
   | Inr got \<Rightarrow> (case expected of
       None \<Rightarrow> Inr got
     | Some want \<Rightarrow>
       if \<not> eq_ignore_ascii_case got want
       then Inl (''TLS pin mismatch: certificate hashes to '' @ got @ '', expected '' @ want)
       else Inr got))"

text \<open>The answer to a @<GET /v1/info> of a peer, if any: its TLS session, status and body.\<close>

record info_answer =
  ia_tls :: "bytes option option"
  ia_status :: nat
  ia_info :: "node_info option"

definition keepalive_ok :: "ext \<Rightarrow> info_answer option \<Rightarrow> bool" where
  "keepalive_ok x a = (case a of
     None \<Rightarrow> False
   | Some r \<Rightarrow> (\<exists>fp. peer_check x (ia_tls r) None = Inr fp) \<and> 200 \<le> ia_status r \<and> ia_status r < 300)"

definition keepalive_tick :: "ext \<Rightarrow> (string \<Rightarrow> info_answer option) \<Rightarrow> u64 \<Rightarrow> (string \<Rightarrow> u64)
    \<Rightarrow> registry \<Rightarrow> registry" where
  "keepalive_tick x get now clk r = (let (ps, r) = registry_snapshot now r in
     fold (\<lambda>p r. if keepalive_ok x (get (peer_base_url (p_addr p) (p_http_port p) @ ''/v1/info''))
                 then registry_touch (clk (p_node_id p)) (p_node_id p) r else r) ps r)"

definition probe_ok :: "ext \<Rightarrow> string \<Rightarrow> info_answer option \<Rightarrow> bool" where
  "probe_ok x wanted a = (case a of
     None \<Rightarrow> False
   | Some r \<Rightarrow> (case peer_check x (ia_tls r) None of
       Inl _ \<Rightarrow> False
     | Inr cert_fp \<Rightarrow> (case ia_info r of
         None \<Rightarrow> False
       | Some i \<Rightarrow> ni_node_id i = wanted \<and> 16 \<le> length (ni_fingerprint i)
           \<and> take 16 (ni_fingerprint i) = wanted \<and> eq_ignore_ascii_case cert_fp (ni_fingerprint i))))"

text \<open>The probes of the /24 run at once; @<order> is the order in which they finish. A probe whose
  fingerprint is too short to cut panics in its task, which counts as no answer.\<close>

definition find_node :: "ext \<Rightarrow> (nat \<times> nat \<times> nat \<times> nat) option \<Rightarrow> (string \<Rightarrow> info_answer option)
    \<Rightarrow> nat list \<Rightarrow> string \<Rightarrow> string option" where
  "find_node x my_ip get order wanted = (case my_ip of
     None \<Rightarrow> None
   | Some (a, b, c, d) \<Rightarrow> let
       base = (\<lambda>host. ''https://'' @ show_nat a @ ''.'' @ show_nat b @ ''.'' @ show_nat c @ ''.''
         @ show_nat host @ '':'' @ show_nat (unat DEFAULT_HTTP_PORT));
       hosts = filter (\<lambda>host. 1 \<le> host \<and> host \<le> 254 \<and> host \<noteq> d) order
     in map_option base (List.find (\<lambda>host. probe_ok x wanted (get (base host @ ''/v1/info''))) hosts))"

section \<open>Facts\<close>

lemma registry_ok_upsert: "registry_ok r \<Longrightarrow> registry_ok (registry_upsert p r)"
proof -
  have "e \<in> set (AList.update k v xs) \<Longrightarrow> e = (k, v) \<or> e \<in> set xs" for e k and v :: peer and xs
    by (induction xs) (auto split: if_splits)
  then show "registry_ok r \<Longrightarrow> registry_ok (registry_upsert p r)"
    by (fastforce simp: registry_ok_def registry_upsert_def distinct_update list_all_iff)
qed

lemma registry_ok_snapshot: "registry_ok r \<Longrightarrow> registry_ok (snd (registry_snapshot now r))"
  by (auto simp: registry_ok_def registry_snapshot_def Let_def distinct_map_filter list_all_iff)

lemma registry_ok_remove: "registry_ok r \<Longrightarrow> registry_ok (registry_remove nid r)"
proof -
  have "set (AList.delete k xs) \<subseteq> set xs" for k and xs :: registry
    by (induction xs) auto
  then show "registry_ok r \<Longrightarrow> registry_ok (registry_remove nid r)"
    by (fastforce simp: registry_ok_def registry_remove_def distinct_delete list_all_iff)
qed

lemma registry_ok_touch: "registry_ok r \<Longrightarrow> registry_ok (registry_touch now nid r)"
proof (cases "map_of r nid")
  case (Some p)
  assume ok: "registry_ok r"
  have "p_node_id p = nid" using ok map_of_SomeD [OF Some] by (auto simp: registry_ok_def list_all_iff)
  then have "registry_touch now nid r = registry_upsert (p\<lparr>p_last_seen_unix := now\<rparr>) r"
    using Some by (simp add: registry_touch_def registry_upsert_def)
  then show ?thesis using registry_ok_upsert ok by simp
qed (simp add: registry_touch_def)

lemma registry_ok_event: "registry_ok r \<Longrightarrow> registry_ok (browser_event now self_id ev r)"
  by (auto simp: browser_event_def Let_def registry_ok_upsert registry_ok_remove
      split: mdns_event.split option.split)

lemma snapshot_iff:
  assumes "registry_ok r"
  shows "p \<in> set (fst (registry_snapshot now r)) \<longleftrightarrow>
    map_of r (p_node_id p) = Some p \<and> peer_fresh now p"
proof -
  have k: "q = (p_node_id (snd q), snd q)" if "q \<in> set r" for q
    using assms that by (cases q) (auto simp: registry_ok_def list_all_iff)
  have m: "map_of r (p_node_id p) = Some p \<longleftrightarrow> (p_node_id p, p) \<in> set r"
    using assms by (auto simp: registry_ok_def intro: map_of_is_SomeI dest: map_of_SomeD)
  have "p \<in> set (fst (registry_snapshot now r)) \<longleftrightarrow> (\<exists>q \<in> set r. snd q = p) \<and> peer_fresh now p"
    by (auto simp: registry_snapshot_def Let_def image_iff intro: bexI [where P = "\<lambda>q. snd q = p", OF snd_conv])
  also have "(\<exists>q \<in> set r. snd q = p) \<longleftrightarrow> (p_node_id p, p) \<in> set r"
    using k by (metis snd_conv)
  finally show ?thesis using m by simp
qed

lemma self_not_added:
  "map_of r self_id = None \<Longrightarrow> map_of (browser_event now self_id ev r) self_id = None"
  by (auto simp: browser_event_def Let_def registry_upsert_def registry_remove_def update_conv
      delete_conv split: mdns_event.split option.split)

lemma pick_addr_best:
  assumes "pick_addr as = Some a"
  shows "\<exists>c. (a, c) \<in> set as \<and> (\<forall>b \<in> set as. addr_score c \<le> addr_score (snd b))"
proof -
  let ?m = "arg_min_list (\<lambda>a. addr_score (snd a)) as"
  have ne: "as \<noteq> []" "a = fst ?m" using assms by (auto simp: pick_addr_def split: if_splits)
  have "?m \<in> set as" by (rule arg_min_list_in [OF ne(1)])
  moreover have "addr_score (snd ?m) \<le> addr_score (snd b)" if "b \<in> set as" for b
    using f_arg_min_list_f [OF ne(1), of "\<lambda>a. addr_score (snd a)"] that by simp
  ultimately show ?thesis using ne(2) by (metis prod.collapse)
qed

lemma goodbye_removes:
  assumes "CHR ''.'' \<notin> set nid"
  shows "map_of (browser_event now self_id (ServiceRemoved (full_instance_name nid)) r) nid = None"
proof -
  have "strip_prefix ''doclink-'' (full_instance_name nid) = Some (nid @ ''.'' @ MDNS_SERVICE_TYPE)"
    by (simp add: strip_prefix_def full_instance_name_def)
  moreover have "hd (split_on (CHR ''.'') (nid @ CHR ''.'' # MDNS_SERVICE_TYPE)) = nid"
    using split_on_append [OF assms] by simp
  ultimately show ?thesis by (simp add: browser_event_def registry_remove_def delete_conv)
qed

lemma probe_self_certifying:
  assumes "find_node x my_ip get order wanted = Some base"
  shows "\<exists>r i fp. get (base @ ''/v1/info'') = Some r \<and> ia_info r = Some i
    \<and> peer_check x (ia_tls r) None = Inr fp \<and> eq_ignore_ascii_case fp (ni_fingerprint i)
    \<and> take 16 (ni_fingerprint i) = wanted"
proof -
  obtain host where "probe_ok x wanted (get (base @ ''/v1/info''))"
    using assms by (auto simp: find_node_def Let_def find_Some_iff split: option.splits)
  then show ?thesis by (auto simp: probe_ok_def split: option.splits sum.splits)
qed

end
