(* ===== verification/Updater.thy ===== *)
theory Updater
  imports Prelude Protocol
begin

text \<open>The version logic and the lifecycle state of the updater, @<doclinkd/src/updater.rs>.
  GitHub's answer, the download and the unpacking are arguments.\<close>

section \<open>Versions\<close>

definition u32_limit :: nat where "u32_limit = 2 ^ 32"

definition strip_v :: "string \<Rightarrow> string" where
  "strip_v v = dropWhile (\<lambda>c. c = CHR ''v'' \<or> c = CHR ''V'') v"

definition parse_part :: "string \<Rightarrow> nat option" where
  "parse_part s = parse_uint u32_limit (trim s)"

definition nth_part :: "nat \<Rightarrow> string list \<Rightarrow> string" where
  "nth_part n bits = (if n < length bits then bits ! n else ''0'')"

definition parse_version :: "string \<Rightarrow> (nat \<times> nat \<times> nat) option" where
  "parse_version v = (let bits = split_on (CHR ''.'') (strip_v (trim v)) in
     case (parse_part (hd bits), parse_part (nth_part 1 bits), parse_part (nth_part 2 bits)) of
       (Some a, Some b, Some c) \<Rightarrow> Some (a, b, c) | _ \<Rightarrow> None)"

definition version_gt :: "string \<Rightarrow> string \<Rightarrow> bool" where
  "version_gt candidate baseline = (case (parse_version candidate, parse_version baseline) of
     (Some a, Some b) \<Rightarrow> b < a | (Some _, None) \<Rightarrow> True | _ \<Rightarrow> False)"

section \<open>Checking\<close>

record update_status =
  us_current :: string
  us_latest :: string
  us_prerelease :: bool
  us_download_url :: "string option"
  us_msi_url :: "string option"
  us_release_notes :: "string option"
  us_published_at :: "string option"

record update_state =
  up_last_check_unix :: "u64 option"
  up_status :: "update_status option"
  up_checking :: bool
  up_downloading :: "nat option"
  up_error :: "string option"
  up_applied :: bool

record gh_release =
  gh_tag_name :: string
  gh_prerelease :: bool
  gh_published_at :: "string option"
  gh_body :: "string option"
  gh_assets :: "(string \<times> string) list"

text \<open>GitHub's answer: unreachable, unreadable, or a status with its text and body.\<close>

datatype gh_answer = Gh_Unreachable string | Gh_Unreadable string | Gh_Answer nat string string

definition pick_assets :: "(string \<times> string) list \<Rightarrow> string option \<times> string option" where
  "pick_assets assets = fold (\<lambda>(nm, url) (zip, msi).
     if suffix ''.zip'' nm then (Some url, msi)
     else if suffix ''.msi'' nm then (zip, Some url) else (zip, msi)) assets (None, None)"

definition check_latest :: "string \<Rightarrow> (string \<Rightarrow> string + gh_release) \<Rightarrow> gh_answer
    \<Rightarrow> string + update_status option" where
  "check_latest app_version parse a = (case a of
     Gh_Unreachable e \<Rightarrow> Inl (''cannot reach GitHub: '' @ e)
   | Gh_Unreadable e \<Rightarrow> Inl (''read response: '' @ e)
   | Gh_Answer status status_text body \<Rightarrow>
     if status = 403 \<and> contains ''rate limit'' body
     then Inl (''GitHub rate limit reached '' @ em_dash @ '' try again later'')
     else if \<not> (200 \<le> status \<and> status < 300) then Inl (''GitHub replied '' @ status_text)
     else (case parse body of
       Inl e \<Rightarrow> Inl (''bad release payload: '' @ e)
     | Inr rel \<Rightarrow>
       if \<not> version_gt (gh_tag_name rel) app_version then Inr None
       else let (zip, msi) = pick_assets (gh_assets rel) in
         Inr (Some \<lparr>us_current = app_version, us_latest = strip_v (gh_tag_name rel),
           us_prerelease = gh_prerelease rel, us_download_url = zip, us_msi_url = msi,
           us_release_notes = gh_body rel, us_published_at = gh_published_at rel\<rparr>)))"

definition run_check :: "string \<Rightarrow> u64 \<Rightarrow> (string + update_status option) \<Rightarrow> update_state
    \<Rightarrow> bool \<times> update_state" where
  "run_check app_version now outcome st = (let
     st = st\<lparr>up_checking := True, up_error := None\<rparr>;
     st = st\<lparr>up_checking := False, up_last_check_unix := Some now\<rparr>
   in case outcome of
     Inr (Some status) \<Rightarrow> (True, st\<lparr>up_status := Some status, up_applied := False\<rparr>)
   | Inr None \<Rightarrow> (True, st\<lparr>up_status := Some \<lparr>us_current = app_version, us_latest = app_version,
       us_prerelease = False, us_download_url = None, us_msi_url = None,
       us_release_notes = None, us_published_at = None\<rparr>\<rparr>)
   | Inl e \<Rightarrow> (False, st\<lparr>up_error := Some e\<rparr>))"

section \<open>Applying\<close>

text \<open>The stages of @<download_and_stage>: the first that fails ends it. The progress field holds
  percent.\<close>

datatype stage_result = Stage_Error_Before_Write string | Stage_Error_After_Write string | Staged string

definition apply_update :: "string \<Rightarrow> (string \<Rightarrow> stage_result) \<Rightarrow> update_state
    \<Rightarrow> (string + string) \<times> update_state" where
  "apply_update app_version stage st = (case up_status st of
     None \<Rightarrow> (Inl ''no update matched for apply'', st)
   | Some s \<Rightarrow>
     if \<not> version_gt (us_latest s) app_version then (Inl ''no update matched for apply'', st)
     else (case us_download_url s of
       None \<Rightarrow> (Inl ''no portable build published for this release'', st)
     | Some url \<Rightarrow> let
         st = st\<lparr>up_downloading := Some 0, up_error := None, up_applied := False\<rparr>
       in (case stage url of
         Stage_Error_Before_Write e \<Rightarrow> (Inl e, st\<lparr>up_downloading := None, up_error := Some e\<rparr>)
       | Stage_Error_After_Write e \<Rightarrow> (Inl e, st\<lparr>up_downloading := None, up_error := Some e\<rparr>)
       | Staged msg \<Rightarrow> (Inr msg, st\<lparr>up_downloading := None, up_applied := True\<rparr>))))"

section \<open>Facts\<close>

lemma digits_trim: "(\<And>c. c \<in> set s \<Longrightarrow> is_digit c) \<Longrightarrow> trim s = s"
proof -
  assume d: "\<And>c. c \<in> set s \<Longrightarrow> is_digit c"
  have "\<not> is_digit (hd w)" "\<not> is_digit (last w)" "w \<noteq> []" if "w \<in> set ws_chars" for w
    using that by (auto simp: ws_chars_def is_digit_def)
  then show ?thesis using d unfolding trim_id
    by (metis hd_in_set last_in_set set_mono_prefix set_mono_suffix subsetD)
qed

lemma parse_part_show: "n < u32_limit \<Longrightarrow> parse_part (show_nat n) = Some n"
  using digits_trim [of "show_nat n"] show_nat_digits by (simp add: parse_part_def parse_show_nat)

text \<open>A version as releases print it, with or without the leading letter, parses to its numbers.\<close>

definition version_text :: "nat \<Rightarrow> nat \<Rightarrow> nat \<Rightarrow> string" where
  "version_text a b c = show_nat a @ ''.'' @ show_nat b @ ''.'' @ show_nat c"

lemma version_trim: "(\<And>c. c \<in> set s \<Longrightarrow> is_digit c \<or> c \<in> {CHR ''.'', CHR ''v''}) \<Longrightarrow> trim s = s"
proof -
  assume d: "\<And>c. c \<in> set s \<Longrightarrow> is_digit c \<or> c \<in> {CHR ''.'', CHR ''v''}"
  have "\<not> (is_digit (hd w) \<or> hd w \<in> {CHR ''.'', CHR ''v''})" "w \<noteq> []" if "w \<in> set ws_chars" for w
    using that by (auto simp: ws_chars_def is_digit_def)
  then show ?thesis using d unfolding trim_id
    by (metis hd_in_set set_mono_prefix set_mono_suffix subsetD)
qed

lemma parse_version_text:
  assumes "a < u32_limit" "b < u32_limit" "c < u32_limit"
  shows "parse_version (version_text a b c) = Some (a, b, c)"
    and "parse_version (CHR ''v'' # version_text a b c) = Some (a, b, c)"
proof -
  have nd: "CHR ''.'' \<notin> set (show_nat n)" "CHR ''v'' \<notin> set (show_nat n)" "CHR ''V'' \<notin> set (show_nat n)" for n
    using show_nat_digits [of _ n] by (fastforce simp: is_digit_def)+
  have t: "trim (version_text a b c) = version_text a b c"
    "trim (CHR ''v'' # version_text a b c) = CHR ''v'' # version_text a b c"
    by (rule version_trim; auto simp: version_text_def dest: show_nat_digits)+
  have s: "strip_v (version_text a b c) = version_text a b c"
    using nd(2,3) [of a] by (cases "show_nat a") (auto simp: strip_v_def version_text_def)
  then have s': "strip_v (CHR ''v'' # version_text a b c) = version_text a b c" by (simp add: strip_v_def)
  have bits: "split_on (CHR ''.'') (version_text a b c) = [show_nat a, show_nat b, show_nat c]"
    using nd(1) split_on_append [of "CHR ''.''" "show_nat a" "show_nat b @ CHR ''.'' # show_nat c"]
      split_on_append [of "CHR ''.''" "show_nat b" "show_nat c"] split_on_id [of "CHR ''.''" "show_nat c"]
    by (simp add: version_text_def)
  show "parse_version (version_text a b c) = Some (a, b, c)"
    and "parse_version (CHR ''v'' # version_text a b c) = Some (a, b, c)"
    using assms by (simp_all add: parse_version_def t s s' bits nth_part_def parse_part_show)
qed

end
