(* ===== verification/AdminScope.thy ===== *)
theory AdminScope
  imports Prelude Scope
begin

text \<open>Removing one item from the scope of a grant, @<subtract_from_scope> of
  @<doclinkd/src/admin.rs>: every directory on the way to the item that the scope covered is
  replaced by its surviving entries. The recursion follows the listing it is given; its fuel is the
  length of the item's path, enough because each step goes to a longer path
  (@<walk_scope_fuel>).\<close>

section \<open>Subtraction\<close>

definition NO_ACCESS :: string where "NO_ACCESS = CHR 0x00 # ''none''"

fun walk_scope :: "(string \<Rightarrow> string list option) \<Rightarrow> string \<Rightarrow> nat \<Rightarrow> string \<Rightarrow> string list option" where
  "walk_scope children removed 0 dir = None"
| "walk_scope children removed (Suc fuel) dir = (case children dir of
     None \<Rightarrow> None
   | Some ks \<Rightarrow> map_option concat (those (map (\<lambda>k.
       if k = removed then Some []
       else if within removed k then walk_scope children removed fuel k
       else Some [k]) ks)))"

definition subtract_from_scope :: "string list \<Rightarrow> string \<Rightarrow> (string \<Rightarrow> string list option) \<Rightarrow> string list option" where
  "subtract_from_scope paths removed children = (let
     walk = walk_scope children removed (Suc (length removed));
     out = (if paths = [] then walk []
       else if \<not> list_ex (\<lambda>p. p = removed \<or> (p \<noteq> [] \<and> within removed p)) paths then None
       else map_option concat (those (map (\<lambda>p.
         if p = removed then Some []
         else if p \<noteq> [] \<and> within removed p then walk p
         else Some [p]) paths)))
   in map_option (\<lambda>out. if out = [] then [NO_ACCESS] else out) out)"

section \<open>Facts about the expansion\<close>

lemma those_map_Some: "those (map f xs) = Some ys \<longleftrightarrow> list_all2 (\<lambda>x y. f x = Some y) xs ys"
proof (induction xs arbitrary: ys)
  case Nil
  then show ?case by auto
next
  case (Cons x xs)
  show ?case by (cases "f x"; cases ys) (auto simp: Cons)
qed

lemma those_concat_set:
  assumes "map_option concat (those (map f xs)) = Some out"
  shows "q \<in> set out \<longleftrightarrow> (\<exists>x \<in> set xs. \<exists>ys. f x = Some ys \<and> q \<in> set ys)"
    and "x \<in> set xs \<Longrightarrow> \<exists>ys. f x = Some ys"
proof -
  obtain yss where y: "those (map f xs) = Some yss" "out = concat yss" using assms by auto
  then have l: "list_all2 (\<lambda>x y. f x = Some y) xs yss" by (simp add: those_map_Some)
  show "q \<in> set out \<longleftrightarrow> (\<exists>x \<in> set xs. \<exists>ys. f x = Some ys \<and> q \<in> set ys)"
    unfolding y(2) using l by (induction rule: list_all2_induct) auto
  show "x \<in> set xs \<Longrightarrow> \<exists>ys. f x = Some ys"
    using l by (induction rule: list_all2_induct) auto
qed

lemma those_cong: "(\<And>x. x \<in> set xs \<Longrightarrow> f x = g x) \<Longrightarrow> those (map f xs) = those (map g xs)"
  by (metis map_cong)

lemma those_not_None: "(\<And>x. x \<in> set xs \<Longrightarrow> f x \<noteq> None) \<Longrightarrow> those (map f xs) \<noteq> None"
  by (induction xs) (fastforce split: option.split)+

definition listing_grows :: "(string \<Rightarrow> string list option) \<Rightarrow> bool" where
  "listing_grows children \<longleftrightarrow> (\<forall>d ks k. children d = Some ks \<longrightarrow> k \<in> set ks \<longrightarrow> length d < length k)"

text \<open>Enough fuel: more changes nothing.\<close>

lemma walk_scope_fuel:
  assumes "listing_grows children" "length removed < length dir + fuel" "fuel \<le> fuel'"
  shows "walk_scope children removed fuel dir = walk_scope children removed fuel' dir \<or> length removed < length dir"
  using assms(2,3)
proof (induction fuel arbitrary: dir fuel')
  case (Suc fuel)
  obtain f' where f': "fuel' = Suc f'" "fuel \<le> f'" using Suc.prems(2) by (cases fuel') auto
  show ?case
  proof (cases "children dir")
    case (Some ks)
    have "walk_scope children removed fuel k = walk_scope children removed f' k"
      if k: "k \<in> set ks" "within removed k" for k
    proof -
      have "length dir < length k" using assms(1) Some k(1) by (auto simp: listing_grows_def)
      then have "length removed < length k + fuel" using Suc.prems(1) by simp
      then show ?thesis using Suc.IH [of k f'] f'(2) k(2) by (auto simp: within_def)
    qed
    then have "those (map (\<lambda>k. if k = removed then Some [] else if within removed k
          then walk_scope children removed fuel k else Some [k]) ks)
      = those (map (\<lambda>k. if k = removed then Some [] else if within removed k
          then walk_scope children removed f' k else Some [k]) ks)"
      by (intro those_cong) auto
    then show ?thesis using Some f'(1) by simp
  qed (use f' in simp)
qed auto

text \<open>Nothing the expansion yields covers the removed item.\<close>

lemma walk_scope_removed:
  "walk_scope children removed fuel dir = Some out \<Longrightarrow> q \<in> set out \<Longrightarrow> q \<noteq> removed \<and> \<not> within removed q"
proof (induction fuel arbitrary: dir out)
  case (Suc fuel)
  then obtain ks where ks: "map_option concat (those (map (\<lambda>k. if k = removed then Some []
      else if within removed k then walk_scope children removed fuel k else Some [k]) ks)) = Some out"
    by (auto split: option.splits)
  show ?case using those_concat_set(1) [OF ks] Suc.prems(2) Suc.IH by (auto split: if_splits)
qed simp

lemma subtract_Some:
  assumes "subtract_from_scope paths removed children = Some out"
  obtains o1 where "out = (if o1 = [] then [NO_ACCESS] else o1)"
    and "paths = [] \<Longrightarrow> walk_scope children removed (Suc (length removed)) [] = Some o1"
    and "paths \<noteq> [] \<Longrightarrow> map_option concat (those (map (\<lambda>p. if p = removed then Some []
      else if p \<noteq> [] \<and> within removed p then walk_scope children removed (Suc (length removed)) p
      else Some [p]) paths)) = Some o1"
proof (cases "paths = []")
  case True
  have "map_option (\<lambda>out. if out = [] then [NO_ACCESS] else out)
      (walk_scope children removed (Suc (length removed)) []) = Some out"
    using assms unfolding subtract_from_scope_def Let_def by (simp only: True refl if_True)
  then obtain o1 where "walk_scope children removed (Suc (length removed)) [] = Some o1"
      "out = (if o1 = [] then [NO_ACCESS] else o1)"
    unfolding map_option_eq_Some by blast
  then show ?thesis using that True by blast
next
  case False
  let ?m = "map_option concat (those (map (\<lambda>p. if p = removed then Some []
      else if p \<noteq> [] \<and> within removed p then walk_scope children removed (Suc (length removed)) p
      else Some [p]) paths))"
  have "map_option (\<lambda>out. if out = [] then [NO_ACCESS] else out) ?m = Some out"
    using assms False unfolding subtract_from_scope_def Let_def
    by (cases "list_ex (\<lambda>p. p = removed \<or> (p \<noteq> [] \<and> within removed p)) paths") (simp_all only: if_True if_False simp_thms option.map option.distinct)
  then obtain o1 where "?m = Some o1" "out = (if o1 = [] then [NO_ACCESS] else o1)"
    unfolding map_option_eq_Some by blast
  then show ?thesis using that False by blast
qed

lemma subtract_not_covered:
  assumes "subtract_from_scope paths removed children = Some out"
    and "removed \<noteq> NO_ACCESS" "\<not> within removed NO_ACCESS"
  shows "\<not> can_read_file out removed"
proof -
  let ?w = "walk_scope children removed (Suc (length removed))"
  obtain o1 where o1: "out = (if o1 = [] then [NO_ACCESS] else o1)"
    and w: "paths = [] \<Longrightarrow> ?w [] = Some o1"
    and w': "paths \<noteq> [] \<Longrightarrow> map_option concat (those (map (\<lambda>p. if p = removed then Some []
        else if p \<noteq> [] \<and> within removed p then ?w p else Some [p]) paths)) = Some o1"
    using subtract_Some [OF assms(1)] by blast
  have "q \<noteq> removed \<and> \<not> within removed q" if q: "q \<in> set o1" for q
  proof (cases "paths = []")
    case True
    then show ?thesis using w q walk_scope_removed by (metis (no_types, lifting))
  next
    case False
    note w' = w' [OF False]
    obtain p ys where "p \<in> set paths" "q \<in> set ys" "(if p = removed then Some []
        else if p \<noteq> [] \<and> within removed p then ?w p else Some [p]) = Some ys"
      using those_concat_set(1) [OF w', of q] q by blast
    then show ?thesis
      using walk_scope_removed [of children removed "Suc (length removed)" p ys q]
      by (auto split: if_splits simp del: walk_scope.simps)
  qed
  then show ?thesis using o1 assms(2,3) by (auto simp: can_read_file_def list_ex_iff split: if_splits)
qed

text \<open>What survives: a path outside the removed item, and no folder on the way to it, stays covered,
  provided the listings hold the entry towards it.\<close>

definition listing_leads :: "(string \<Rightarrow> string list option) \<Rightarrow> string \<Rightarrow> bool" where
  "listing_leads children f \<longleftrightarrow> (\<forall>d ks. children d = Some ks \<longrightarrow> d = [] \<or> within f d \<longrightarrow>
     (\<exists>k \<in> set ks. f = k \<or> within f k))"

lemma walk_scope_survivor:
  assumes l: "listing_leads children f" and f: "f \<noteq> removed" "\<not> within f removed" "\<not> within removed f"
  shows "walk_scope children removed fuel dir = Some out \<Longrightarrow> dir = [] \<or> within f dir \<Longrightarrow>
    \<exists>q \<in> set out. f = q \<or> within f q"
proof (induction fuel arbitrary: dir out)
  case (Suc fuel)
  then obtain ks where c: "children dir = Some ks"
    and ks: "map_option concat (those (map (\<lambda>k. if k = removed then Some []
      else if within removed k then walk_scope children removed fuel k else Some [k]) ks)) = Some out"
    by (auto split: option.splits)
  obtain k where k: "k \<in> set ks" "f = k \<or> within f k"
    using l c Suc.prems(2) unfolding listing_leads_def by blast
  have nr: "k \<noteq> removed" using k(2) f by auto
  show ?case
  proof (cases "within removed k")
    case True
    then have fk: "within f k" using k(2) f by auto
    obtain ys where ys: "walk_scope children removed fuel k = Some ys"
      using those_concat_set(2) [OF ks k(1)] nr True by auto
    have "\<exists>q \<in> set ys. f = q \<or> within f q" using Suc.IH [OF ys] fk by simp
    then obtain q where q: "q \<in> set ys" "f = q \<or> within f q" by blast
    have "q \<in> set out" unfolding those_concat_set(1) [OF ks] using k(1) nr True ys q(1) by auto
    then show ?thesis using q(2) by blast
  next
    case False
    then have "k \<in> set out" using those_concat_set(1) [OF ks] k(1) nr by force
    then show ?thesis using k(2) by blast
  qed
qed simp

lemma subtract_keeps_others:
  assumes s: "subtract_from_scope paths removed children = Some out"
    and l: "listing_leads children f" and f: "f \<noteq> removed" "\<not> within f removed" "\<not> within removed f"
    and r: "can_read_file paths f"
  shows "can_read_file out f"
proof -
  let ?w = "walk_scope children removed (Suc (length removed))"
  obtain o1 where o1: "out = (if o1 = [] then [NO_ACCESS] else o1)"
    and w: "paths = [] \<Longrightarrow> ?w [] = Some o1"
    and w': "paths \<noteq> [] \<Longrightarrow> map_option concat (those (map (\<lambda>p. if p = removed then Some []
        else if p \<noteq> [] \<and> within removed p then ?w p else Some [p]) paths)) = Some o1"
    using subtract_Some [OF s] by blast
  have "\<exists>q \<in> set o1. f = q \<or> within f q"
  proof (cases "paths = []")
    case True
    then have "?w [] = Some o1" using w by simp
    then show ?thesis by (rule walk_scope_survivor [OF l f]) simp
  next
    case False
    note w' = w' [OF False]
    obtain p where p: "p \<in> set paths" "f = p \<or> within f p"
      using r False by (auto simp: can_read_file_def list_ex_iff)
    have nr: "p \<noteq> removed" using p(2) f by auto
    show ?thesis
    proof (cases "p \<noteq> [] \<and> within removed p")
      case True
      then have fp: "within f p" using p(2) f by auto
      obtain ys where ys: "?w p = Some ys"
        using those_concat_set(2) [OF w' p(1)] nr True by (auto simp del: walk_scope.simps)
      have "\<exists>q \<in> set ys. f = q \<or> within f q" by (rule walk_scope_survivor [OF l f ys]) (use fp in simp)
      then obtain q where q: "q \<in> set ys" "f = q \<or> within f q" by blast
      have "q \<in> set o1" unfolding those_concat_set(1) [OF w']
        by (rule bexI [OF _ p(1)], rule exI [of _ ys]) (simp only: nr True ys q(1) if_True if_False simp_thms not_False_eq_True)
      then show ?thesis using q(2) by blast
    next
      case False
      then have "p \<in> set o1" unfolding those_concat_set(1) [OF w']
        by (intro bexI [OF _ p(1)] exI [of _ "[p]"]) (simp only: nr if_False simp_thms list.set insertI1)
      then show ?thesis using p(2) by blast
    qed
  qed
  then obtain q where q: "q \<in> set o1" "f = q \<or> within f q" by blast
  then have "out = o1" using o1 by (cases o1) simp_all
  then show ?thesis using q unfolding can_read_file_def list_ex_iff by blast
qed

text \<open>With a listing for every directory on the way, the expansion succeeds.\<close>

lemma walk_scope_total:
  assumes g: "listing_grows children"
    and t: "\<And>d. d = [] \<or> within removed d \<Longrightarrow> children d \<noteq> None"
  shows "dir = [] \<or> within removed dir \<Longrightarrow> length removed < length dir + fuel
    \<Longrightarrow> walk_scope children removed fuel dir \<noteq> None"
proof (induction fuel arbitrary: dir)
  case 0
  then show ?case by (auto simp: within_def)
next
  case (Suc fuel)
  obtain ks where ks: "children dir = Some ks" using t Suc.prems(1) by blast
  have k: "walk_scope children removed fuel k \<noteq> None" if "k \<in> set ks" "within removed k" for k
  proof -
    have "length dir < length k" using g ks that(1) by (auto simp: listing_grows_def)
    then show ?thesis using Suc.IH [of k] that(2) Suc.prems(2) by linarith
  qed
  have "those (map (\<lambda>k. if k = removed then Some [] else if within removed k
      then walk_scope children removed fuel k else Some [k]) ks) \<noteq> None"
    using k by (intro those_not_None) auto
  then show ?case using ks by simp
qed

lemma subtract_total:
  assumes g: "listing_grows children"
    and t: "\<And>d. d = [] \<or> within removed d \<Longrightarrow> children d \<noteq> None"
    and c: "paths = [] \<or> list_ex (\<lambda>p. removed = p \<or> within removed p) paths"
  shows "subtract_from_scope paths removed children \<noteq> None"
proof -
  let ?w = "walk_scope children removed (Suc (length removed))"
  have w: "?w d \<noteq> None" if "d = [] \<or> within removed d" for d
    by (rule walk_scope_total [OF g t that]) auto
  show ?thesis
  proof (cases "paths = []")
    case True
    then show ?thesis using w [of "[]"] unfolding subtract_from_scope_def Let_def
      by (simp only: refl if_True option.map_disc_iff simp_thms not_False_eq_True)
  next
    case False
    have "those (map (\<lambda>p. if p = removed then Some [] else if p \<noteq> [] \<and> within removed p then ?w p
        else Some [p]) paths) \<noteq> None"
    proof (rule those_not_None)
      show "(if p = removed then Some [] else if p \<noteq> [] \<and> within removed p then ?w p else Some [p]) \<noteq> None" for p
        using w by (cases "p = removed"; cases "p \<noteq> [] \<and> within removed p") (simp_all only: if_True if_False simp_thms option.distinct)
    qed
    moreover have "list_ex (\<lambda>p. p = removed \<or> (p \<noteq> [] \<and> within removed p)) paths"
      using c False not_within_Nil(1) unfolding list_ex_iff by metis
    ultimately show ?thesis using False unfolding subtract_from_scope_def Let_def
      by (simp only: if_True if_False simp_thms option.map_disc_iff)
  qed
qed

text \<open>A subtraction never widens a scope, when every listing holds entries of its directory only.\<close>

definition listing_below :: "(string \<Rightarrow> string list option) \<Rightarrow> bool" where
  "listing_below children \<longleftrightarrow> (\<forall>d ks k. children d = Some ks \<longrightarrow> k \<in> set ks \<longrightarrow> d = [] \<or> within k d)"

lemma walk_scope_below:
  assumes b: "listing_below children"
  shows "walk_scope children removed fuel dir = Some out \<Longrightarrow> q \<in> set out \<Longrightarrow> dir = [] \<or> within q dir"
proof (induction fuel arbitrary: dir out)
  case (Suc fuel)
  then obtain ks where c: "children dir = Some ks"
    and ks: "map_option concat (those (map (\<lambda>k. if k = removed then Some []
      else if within removed k then walk_scope children removed fuel k else Some [k]) ks)) = Some out"
    by (auto split: option.splits)
  obtain k ys where k: "k \<in> set ks" "q \<in> set ys" "(if k = removed then Some []
      else if within removed k then walk_scope children removed fuel k else Some [k]) = Some ys"
    using those_concat_set(1) [OF ks] Suc.prems(2) by blast
  have d: "dir = [] \<or> within k dir" using b c k(1) by (auto simp: listing_below_def)
  show ?case
  proof (cases "k \<noteq> removed \<and> within removed k")
    case True
    then have "k = [] \<or> within q k" using Suc.IH k by auto
    then show ?thesis using d within_trans by auto
  next
    case False
    then have "q = k" using k(2,3) by (auto split: if_splits)
    then show ?thesis using d by simp
  qed
qed simp

lemma subtract_narrows:
  assumes b: "listing_below children" and s: "subtract_from_scope paths removed children = Some out"
    and f: "f \<noteq> NO_ACCESS" "\<not> within f NO_ACCESS" and r: "can_read_file out f"
  shows "can_read_file paths f"
proof (cases "paths = []")
  case False
  let ?w = "walk_scope children removed (Suc (length removed))"
  obtain o1 where o1: "out = (if o1 = [] then [NO_ACCESS] else o1)"
    and w': "paths \<noteq> [] \<Longrightarrow> map_option concat (those (map (\<lambda>p. if p = removed then Some []
        else if p \<noteq> [] \<and> within removed p then ?w p else Some [p]) paths)) = Some o1"
    using subtract_Some [OF s] by blast
  note w = w' [OF False]
  have "out \<noteq> []" using o1 by (cases o1) auto
  then obtain q where q: "q \<in> set out" "f = q \<or> within f q"
    using r unfolding can_read_file_def list_ex_iff by blast
  have "o1 \<noteq> []" using q f o1 by (cases o1) auto
  then have "q \<in> set o1" using q(1) o1 by simp
  then obtain p ys where p: "p \<in> set paths" "q \<in> set ys" "(if p = removed then Some []
      else if p \<noteq> [] \<and> within removed p then ?w p else Some [p]) = Some ys"
    using those_concat_set(1) [OF w] by blast
  have "q = p \<or> within q p"
  proof (cases "p \<noteq> removed \<and> p \<noteq> [] \<and> within removed p")
    case True
    then have "?w p = Some ys" using p(3) by (simp only: if_False if_True simp_thms)
    then show ?thesis using walk_scope_below [OF b _ p(2)] True by blast
  next
    case False
    then show ?thesis using p(2,3) by (auto split: if_splits simp del: walk_scope.simps)
  qed
  then have "f = p \<or> within f p" using q(2) within_trans by blast
  then show ?thesis using p(1) unfolding can_read_file_def list_ex_iff by blast
qed (simp add: can_read_file_def)

end
