(* ===== verification/Config.thy ===== *)
theory Config
  imports Files Utf8
begin

text \<open>The configuration file of @<doclinkd/src/config.rs>: its fields with their defaults, and
  loading it, where a missing file is the defaults and a broken one is an error. The TOML parser is a
  parameter: it yields the fields a text gives, the others are defaults.\<close>

record config =
  cf_node_name :: string
  cf_http_port :: u16
  cf_share_root :: string
  cf_inbox_root :: string
  cf_inbox_max_size :: u64
  cf_advertise :: bool
  cf_subnet_scan :: bool
  cf_check_updates :: bool

section \<open>Defaults\<close>

text \<open>@<var> is the environment of the process: @<None> for a variable that is not set.\<close>

definition default_node_name :: "(string \<Rightarrow> string option) \<Rightarrow> string" where
  "default_node_name var = (case var ''COMPUTERNAME'' of
     Some v \<Rightarrow> v
   | None \<Rightarrow> (case var ''HOSTNAME'' of Some v \<Rightarrow> v | None \<Rightarrow> ''DocLink PC''))"

definition default_http_port :: u16 where "default_http_port = 37655"

definition default_share_root :: string where "default_share_root = ''shared''"

definition default_inbox_root :: string where "default_inbox_root = ''inbox''"

definition MIB :: u64 where "MIB = 1024 * 1024"

definition default_inbox_max_size :: u64 where "default_inbox_max_size = 256 * MIB"

definition default_true :: bool where "default_true = True"

definition config_default :: "(string \<Rightarrow> string option) \<Rightarrow> config" where
  "config_default var = \<lparr>cf_node_name = default_node_name var, cf_http_port = default_http_port,
     cf_share_root = default_share_root, cf_inbox_root = default_inbox_root,
     cf_inbox_max_size = default_inbox_max_size, cf_advertise = default_true,
     cf_subnet_scan = default_true, cf_check_updates = default_true\<rparr>"

section \<open>Loading\<close>

text \<open>What the parser finds in a text, field by field.\<close>

record toml_fields =
  tf_node_name :: "string option"
  tf_http_port :: "u16 option"
  tf_share_root :: "string option"
  tf_inbox_root :: "string option"
  tf_inbox_max_size :: "u64 option"
  tf_advertise :: "bool option"
  tf_subnet_scan :: "bool option"
  tf_check_updates :: "bool option"

definition or_default :: "'a option \<Rightarrow> 'a \<Rightarrow> 'a" where
  "or_default v d = (case v of Some w \<Rightarrow> w | None \<Rightarrow> d)"

definition config_of_fields :: "(string \<Rightarrow> string option) \<Rightarrow> toml_fields \<Rightarrow> config" where
  "config_of_fields var t = \<lparr>
     cf_node_name = or_default (tf_node_name t) (default_node_name var),
     cf_http_port = or_default (tf_http_port t) default_http_port,
     cf_share_root = or_default (tf_share_root t) default_share_root,
     cf_inbox_root = or_default (tf_inbox_root t) default_inbox_root,
     cf_inbox_max_size = or_default (tf_inbox_max_size t) default_inbox_max_size,
     cf_advertise = or_default (tf_advertise t) default_true,
     cf_subnet_scan = or_default (tf_subnet_scan t) default_true,
     cf_check_updates = or_default (tf_check_updates t) default_true\<rparr>"

datatype config_error = Config_Read | Config_Parse

text \<open>A path that leads nowhere is the error @<NotFound> of the operating system; one that leads to
  something that cannot be read as UTF-8 text is another error.\<close>

definition config_load :: "(string \<Rightarrow> string option) \<Rightarrow> (string \<Rightarrow> toml_fields option) \<Rightarrow> fsys \<Rightarrow> path
    \<Rightarrow> config_error + config" where
  "config_load var parse fs p = (if \<not> path_exists fs p then Inr (config_default var)
     else (case read_file fs p of
       None \<Rightarrow> Inl Config_Read
     | Some t \<Rightarrow> if \<not> valid_utf8 t then Inl Config_Read
         else (case parse t of None \<Rightarrow> Inl Config_Parse | Some f \<Rightarrow> Inr (config_of_fields var f))))"

definition config_file :: "path \<Rightarrow> path option \<Rightarrow> path" where
  "config_file cwd given = (case given of Some p \<Rightarrow> p | None \<Rightarrow> cwd @ [''doclink.toml''])"

definition grants_path :: string where "grants_path = ''doclink-grants.json''"

definition contacts_path :: string where "contacts_path = ''doclink-contacts.json''"

definition identity_key_path :: string where "identity_key_path = ''doclink-identity.key''"

section \<open>Facts\<close>

text \<open>An empty text gives the defaults, as a missing file does.\<close>

definition no_fields :: toml_fields where
  "no_fields = \<lparr>tf_node_name = None, tf_http_port = None, tf_share_root = None, tf_inbox_root = None,
     tf_inbox_max_size = None, tf_advertise = None, tf_subnet_scan = None, tf_check_updates = None\<rparr>"

definition all_fields :: "config \<Rightarrow> toml_fields" where
  "all_fields c = \<lparr>tf_node_name = Some (cf_node_name c), tf_http_port = Some (cf_http_port c),
     tf_share_root = Some (cf_share_root c), tf_inbox_root = Some (cf_inbox_root c),
     tf_inbox_max_size = Some (cf_inbox_max_size c), tf_advertise = Some (cf_advertise c),
     tf_subnet_scan = Some (cf_subnet_scan c), tf_check_updates = Some (cf_check_updates c)\<rparr>"

lemma config_of_no_fields [simp]: "config_of_fields var no_fields = config_default var"
  by (simp add: config_of_fields_def no_fields_def or_default_def config_default_def)

lemma config_of_all_fields [simp]: "config_of_fields var (all_fields c) = c"
  by (simp add: config_of_fields_def all_fields_def or_default_def)

text \<open>What is documented of the TOML library: a text it writes is read back with every field.\<close>

definition toml_law :: "(config \<Rightarrow> string + string) \<Rightarrow> (string \<Rightarrow> toml_fields option) \<Rightarrow> bool" where
  "toml_law ser parse \<longleftrightarrow>
     (\<forall>c t. ser c = Inr t \<longrightarrow> valid_utf8 t \<and> parse t = Some (all_fields c))"

lemma load_after_write:
  assumes "toml_law ser parse" "ser c = Inr t" "fs_write io now p t fs = (True, fs')" "fs_denied fs = []"
  shows "config_load var parse fs' p = Inr c"
  using assms(1,2) read_after_write [OF assms(3,4)]
  by (auto simp: config_load_def path_exists_def toml_law_def)

lemma load_missing: "canon fs p = None \<Longrightarrow> config_load var parse fs p = Inr (config_default var)"
  by (simp add: config_load_def path_exists_def)

end
