(* ===== verification/Admin.thy ===== *)
theory Admin
  imports Prelude Config Externals Protocol Identity Events Store Share Inbox Pairing Node Scope Registry Updater
    AdminScope
begin

text \<open>The owner's side of a node, @<doclinkd/src/admin.rs>: the guard in front of the localhost
  server, and its handlers for grants, requests, the share, the inbox, the settings, the events and
  the updater. They act on the state the LAN-facing server keeps, @<Node>, and on the peer registry.
  A handler runs to its end before the next one starts.\<close>

section \<open>The local-origin guard\<close>

definition strip_opt :: "string \<Rightarrow> string \<Rightarrow> string" where
  "strip_opt p s = (case strip_prefix p s of None \<Rightarrow> s | Some r \<Rightarrow> r)"

definition authority_allowed :: "string \<Rightarrow> u16 \<Rightarrow> bool" where
  "authority_allowed authority admin_port = (let
     lowered = ascii_lowercase (trim authority);
     rest = strip_opt ''https://'' (strip_opt ''http://'' lowered);
     authority = takeWhile (\<lambda>c. c \<notin> {CHR ''/'', CHR ''?'', CHR ''#''}) rest
   in case rsplit_once (CHR '':'') authority of
     None \<Rightarrow> False
   | Some (host, port) \<Rightarrow> (let host = (case strip_suffix ''.'' host of None \<Rightarrow> host | Some h \<Rightarrow> h) in
       port = show_nat (unat admin_port) \<and> (host = ''127.0.0.1'' \<or> host = ''localhost'')))"

text \<open>@<h> holds the headers whose value @<to_str> can read; the answer is whether the request
  passes.\<close>

definition local_only_guard :: "u16 \<Rightarrow> headers \<Rightarrow> bool" where
  "local_only_guard port h \<longleftrightarrow>
     (case h ''host'' of None \<Rightarrow> True | Some host \<Rightarrow> authority_allowed host port)
     \<and> list_all (\<lambda>k. case h k of None \<Rightarrow> True
         | Some v \<Rightarrow> \<not> (eq_ignore_ascii_case v ''null'' \<or> \<not> authority_allowed v port))
         [''origin'', ''referer'']"

text \<open>The content type of an embedded page and of a preview, by the last extension.\<close>

definition last_ext :: "string \<Rightarrow> string" where
  "last_ext p = last (split_on (CHR ''.'') p)"

definition static_mime :: "string \<Rightarrow> string" where
  "static_mime path = (let e = last_ext path in
     if e = ''html'' then ''text/html; charset=utf-8''
     else if e = ''css'' then ''text/css; charset=utf-8''
     else if e = ''js'' then ''text/javascript; charset=utf-8''
     else if e = ''svg'' then ''image/svg+xml''
     else if e = ''png'' then ''image/png''
     else ''application/octet-stream'')"

definition static_file :: "(string \<Rightarrow> bytes option) \<Rightarrow> string \<Rightarrow> http_error + (string \<times> string) list \<times> bytes" where
  "static_file webui uri_path = (let
     path = trim_start_matches (CHR ''/'') uri_path;
     path = (if path = [] then ''index.html'' else path)
   in case webui path of
     None \<Rightarrow> Inl (err NOT_FOUND ''not found'')
   | Some content \<Rightarrow> Inr ([(''content-type'', static_mime path),
       (''content-security-policy'', ''default-src 'self'; script-src 'self'; style-src 'self' 'unsafe-inline'; img-src 'self' data: blob:; font-src 'self' data:; object-src 'none'' @ [CHR 0x27]),
       (''x-content-type-options'', ''nosniff'')], content))"

definition text_exts :: "string list" where
  "text_exts = [''txt'', ''md'', ''log'', ''csv'', ''json'', ''xml'', ''toml'', ''ini'', ''cfg'', ''yaml'',
     ''yml'', ''js'', ''mjs'', ''ts'', ''rs'', ''py'', ''rb'', ''sh'', ''bat'', ''ps1'', ''c'', ''h'', ''cpp'',
     ''hpp'', ''cs'', ''java'', ''html'', ''htm'', ''css'']"

definition preview_mime :: "string \<Rightarrow> string" where
  "preview_mime path = (let e = ascii_lowercase (last_ext path) in
     case map_of [(''pdf'', ''application/pdf''), (''png'', ''image/png''), (''jpg'', ''image/jpeg''),
       (''jpeg'', ''image/jpeg''), (''gif'', ''image/gif''), (''webp'', ''image/webp''), (''bmp'', ''image/bmp''),
       (''svg'', ''image/svg+xml''), (''ico'', ''image/x-icon''), (''mp4'', ''video/mp4''),
       (''m4v'', ''video/mp4''), (''webm'', ''video/webm''), (''mov'', ''video/quicktime''),
       (''mkv'', ''video/x-matroska''), (''mp3'', ''audio/mpeg''), (''wav'', ''audio/wav''),
       (''ogg'', ''audio/ogg''), (''oga'', ''audio/ogg''), (''m4a'', ''audio/mp4''),
       (''flac'', ''audio/flac'')] e of
       Some m \<Rightarrow> m
     | None \<Rightarrow> if e \<in> set text_exts then ''text/plain; charset=utf-8'' else ''application/octet-stream'')"

section \<open>State\<close>

text \<open>What the admin server adds to the node: @<AdminInner>. The advertiser is the mDNS daemon's
  handle; the configuration file is a file of @<nd_fs>. The texts of disk errors, which the operating
  system gives, are one fixed text each.\<close>

record admin =
  ad_node :: node
  ad_peers :: registry
  ad_admin_port :: u16
  ad_scan_enabled :: bool
  ad_shutdown :: bool
  ad_advertiser :: bool
  ad_advertise_on :: bool
  ad_data_port :: u16
  ad_config_path :: path
  ad_check_updates :: bool
  ad_update :: update_state

record admin_env =
  ae_env :: env
  ae_write_config :: io_out
  ae_register_ok :: bool
  ae_my_ip :: "(nat \<times> nat \<times> nat \<times> nat) option"
  ae_get :: "string \<Rightarrow> info_answer option"
  ae_order :: "nat list"

record admin_sys =
  as_sys :: sys
  as_toml :: "config \<Rightarrow> string + string"
  as_path_text :: "path \<Rightarrow> string"
  as_version :: string

definition on_node :: "(node \<Rightarrow> 'a \<times> node) \<Rightarrow> admin \<Rightarrow> 'a \<times> admin" where
  "on_node f a = (let (r, s) = f (ad_node a) in (r, a\<lparr>ad_node := s\<rparr>))"

fun share_err :: "share_error \<Rightarrow> http_error" where
  "share_err (NotFound p) = err NOT_FOUND (''path not found: '' @ p)"
| "share_err OutsideRoot = err FORBIDDEN ''path escapes the share root''"
| "share_err IsRoot = err FORBIDDEN ''path is the share root''"
| "share_err Io = err INTERNAL_SERVER_ERROR ''I/O error''"

definition to_grant_info :: "grant \<Rightarrow> grant_info" where
  "to_grant_info g = \<lparr>gi_fingerprint = g_fingerprint g, gi_node_id = g_node_id g, gi_name = g_name g,
     gi_granted_unix = g_granted_unix g, gi_expires_unix = g_expires_unix g, gi_paths = g_paths g,
     gi_allow_files = g_allow_files g, gi_allow_print = g_allow_print g\<rparr>"

section \<open>Contacts, requests and grants\<close>

definition list_peers :: "u64 \<Rightarrow> admin \<Rightarrow> peer list \<times> admin" where
  "list_peers now a = (let (ps, r) = registry_snapshot now (ad_peers a) in (ps, a\<lparr>ad_peers := r\<rparr>))"

definition list_contacts :: "u64 \<Rightarrow> admin \<Rightarrow> contact_info list \<times> admin" where
  "list_contacts now a = (let (ps, a) = list_peers now a in
     (map (\<lambda>c. \<lparr>ci_node_id = c_node_id c, ci_alias = c_alias c, ci_host = c_host c,
        ci_online = list_ex (\<lambda>p. p_node_id p = c_node_id c) ps, ci_status = c_status c\<rparr>)
       (contacts_of (ad_node a)), a))"

definition valid_node_id :: "string \<Rightarrow> bool" where
  "valid_node_id i \<longleftrightarrow> length i = 16 \<and> list_all is_hexdigit i"

definition normalize_id :: "ext \<Rightarrow> string \<Rightarrow> string" where
  "normalize_id x raw = filter is_hexdigit (x_to_lower x (trim raw))"

definition remove_contact :: "admin_sys \<Rightarrow> env \<Rightarrow> string \<Rightarrow> node \<Rightarrow> (http_error + unit) \<times> node" where
  "remove_contact y n nid s = (let
     (found, cs) = contacts_remove nid (contacts_of s);
     s = s\<lparr>nd_contacts := (nd_contacts s)\<lparr>st_data := cs\<rparr>\<rparr>
   in if \<not> found then (Inl (err NOT_FOUND ''unknown contact''), s)
   else (let (ok, st) = store_save (sy_contacts (as_sys y)) (en_faults n) (nd_contacts s);
             s = s\<lparr>nd_contacts := st\<rparr>
     in (if ok then Inr () else Inl (err INTERNAL_SERVER_ERROR ''store error''), s)))"

definition list_requests :: "node \<Rightarrow> pair_request list" where
  "list_requests s = map (\<lambda>(k, e). pe_request e) (pending (nd_pairing s))"

record decision_body =
  db_decision :: string
  db_duration_secs :: u64
  db_allow_files :: "bool option"
  db_allow_print :: "bool option"

text \<open>The message that tells the requester: where it goes, what it says and the fingerprint its
  answer is checked against. It is sent once, and its answer changes nothing.\<close>

record decision_push =
  dm_url :: string
  dm_decision :: pair_decision
  dm_expected :: string

definition requester_base :: "admin_sys \<Rightarrow> admin_env \<Rightarrow> string \<Rightarrow> admin \<Rightarrow> string option \<times> admin" where
  "requester_base y n nid a = (let (ps, a) = list_peers (en_clk (ae_env n) 1) a in
     (case List.find (\<lambda>p. p_node_id p = nid) ps of
       Some p \<Rightarrow> Some (peer_base_url (p_addr p) (p_http_port p))
     | None \<Rightarrow> (case Option.bind (find_contact nid (contacts_of (ad_node a))) c_host of
         Some h \<Rightarrow> Some (''https://'' @ h)
       | None \<Rightarrow> if ad_scan_enabled a
           then find_node (sy_x (as_sys y)) (ae_my_ip n) (ae_get n) (ae_order n) nid else None), a))"

definition signed_decision :: "ext \<Rightarrow> node_identity \<Rightarrow> string \<Rightarrow> decision_body \<Rightarrow> pair_decision" where
  "signed_decision x i nid b = (let
     d = \<lparr>pd_requester_node_id = nid, pd_decision = db_decision b, pd_duration_secs = db_duration_secs b,
       pd_pubkey_hex = x_hex_encode x (verifying_key x i), pd_signature = []\<rparr>
   in d\<lparr>pd_signature := x_hex_encode x (sign x i (canonical_decision_string d))\<rparr>)"

definition push_decision_to_requester :: "admin_sys \<Rightarrow> admin_env \<Rightarrow> string \<Rightarrow> decision_body \<Rightarrow> admin
    \<Rightarrow> decision_push option \<times> admin" where
  "push_decision_to_requester y n nid b a = (let (base, a) = requester_base y n nid a in
     (map_option (\<lambda>base. \<lparr>dm_url = base @ ''/v1/pair/decision'',
        dm_decision = signed_decision (sy_x (as_sys y)) (nd_identity (ad_node a)) nid b,
        dm_expected = (case List.find (\<lambda>g. g_node_id g = nid) (grants_of (ad_node a)) of
          None \<Rightarrow> [] | Some g \<Rightarrow> g_fingerprint g)\<rparr>) base, a))"

definition decide_request :: "admin_sys \<Rightarrow> admin_env \<Rightarrow> string \<Rightarrow> decision_body \<Rightarrow> admin
    \<Rightarrow> (http_error + pair_status_response) \<times> decision_push option \<times> admin" where
  "decide_request y n nid b a = (let
     s = ad_node a;
     (r, p, st) = apply_decision_with_perms (sy_x (as_sys y)) (sy_grants (as_sys y)) (en_faults (ae_env n))
       (en_clk (ae_env n) 0) nid (db_decision b) (db_duration_secs b) (db_allow_files b) (db_allow_print b)
       (nd_pairing s) (nd_grants s);
     a = a\<lparr>ad_node := s\<lparr>nd_pairing := p, nd_grants := st\<rparr>\<rparr>
   in case r of
     Inl e \<Rightarrow> (Inl (if e = ''grant must allow at least files or printing'' then err BAD_REQUEST e
                    else err NOT_FOUND e), None, a)
   | Inr resp \<Rightarrow> (let (m, a) = push_decision_to_requester y n nid b a in (Inr resp, m, a)))"

definition list_grants :: "node \<Rightarrow> grant_info list" where
  "list_grants s = map to_grant_info (grants_of s)"

text \<open>Saving the grants after a change in memory: the change stays when the save fails.\<close>

definition save_grants :: "admin_sys \<Rightarrow> env \<Rightarrow> grants_file \<Rightarrow> node \<Rightarrow> bool \<times> node" where
  "save_grants y n gs s = (let (ok, st) = store_save (sy_grants (as_sys y)) (en_faults n)
       ((nd_grants s)\<lparr>st_data := gs\<rparr>) in (ok, s\<lparr>nd_grants := st\<rparr>))"

definition save_failed :: http_error where
  "save_failed = err INTERNAL_SERVER_ERROR ''store error''"

definition revoke_grant :: "admin_sys \<Rightarrow> env \<Rightarrow> string \<Rightarrow> node \<Rightarrow> (http_error + unit) \<times> node" where
  "revoke_grant y n fp s = (let gs = filter (\<lambda>g. g_fingerprint g \<noteq> fp) (grants_of s) in
     if length gs = length (grants_of s) then (Inl (err NOT_FOUND ''unknown grant''), s)
     else (let (ok, s) = save_grants y n gs s in (if ok then Inr () else Inl save_failed, s)))"

record grant_update =
  gu_paths :: "string list"
  gu_allow_files :: "bool option"
  gu_allow_print :: "bool option"

definition updated_grant :: "grant_update \<Rightarrow> grant \<Rightarrow> grant" where
  "updated_grant b g = g\<lparr>g_paths := gu_paths b,
     g_allow_files := (case gu_allow_files b of None \<Rightarrow> g_allow_files g | Some v \<Rightarrow> v),
     g_allow_print := (case gu_allow_print b of None \<Rightarrow> g_allow_print g | Some v \<Rightarrow> v)\<rparr>"

definition update_grant :: "admin_sys \<Rightarrow> env \<Rightarrow> string \<Rightarrow> grant_update \<Rightarrow> node
    \<Rightarrow> (http_error + grant_info) \<times> node" where
  "update_grant y n fp b s = (case find_grant fp (grants_of s) of
     None \<Rightarrow> (Inl (err NOT_FOUND ''unknown grant''), s)
   | Some g \<Rightarrow> let
       g' = updated_grant b g;
       gs = update_first (\<lambda>g. g_fingerprint g = fp) (updated_grant b) (grants_of s)
     in if \<not> g_allow_files g' \<and> \<not> g_allow_print g' then
       (Inl (err BAD_REQUEST ''grant must allow at least files or printing''),
        s\<lparr>nd_grants := (nd_grants s)\<lparr>st_data := gs\<rparr>\<rparr>)
     else (let (ok, s) = save_grants y n gs s in
       (if ok then Inr (to_grant_info g') else Inl save_failed, s)))"

section \<open>Sharing one item\<close>

text \<open>The directories on the way to an item, the root first; their entries outside the item, empty
  where the listing fails.\<close>

definition scope_dirs :: "string \<Rightarrow> string list" where
  "scope_dirs path = [] # map (\<lambda>i. take i path)
     (filter (\<lambda>i. path ! i = CHR ''/'' \<and> i + 1 < length path) [0 ..< length path])"

definition fetch_listings :: "ext \<Rightarrow> fsys \<Rightarrow> share_root \<Rightarrow> string \<Rightarrow> (string \<times> string list) list" where
  "fetch_listings x fs r path = map (\<lambda>dir. (dir, case share_list x fs r dir of
       Inl _ \<Rightarrow> []
     | Inr es \<Rightarrow> map de_path (filter (\<lambda>e. \<not> (de_path e = path \<or> within (de_path e) path)) es)))
     (scope_dirs path)"

definition covers_item :: "string \<Rightarrow> grant \<Rightarrow> bool" where
  "covers_item path g \<longleftrightarrow> list_ex (\<lambda>p. path = p \<or> within path p) (g_paths g)"

definition share_on_grant :: "(string \<times> string list) list \<Rightarrow> string \<Rightarrow> string list \<Rightarrow> grant \<Rightarrow> grant" where
  "share_on_grant fetched path fps g =
     (if g_fingerprint g \<in> set fps then
        (if g_paths g \<noteq> [] \<and> \<not> covers_item path g then g\<lparr>g_paths := g_paths g @ [path]\<rparr> else g)
      else (case subtract_from_scope (g_paths g) path (map_of fetched) of
        None \<Rightarrow> g | Some next \<Rightarrow> g\<lparr>g_paths := next\<rparr>))"

definition share_item :: "admin_sys \<Rightarrow> env \<Rightarrow> string \<Rightarrow> string list \<Rightarrow> node
    \<Rightarrow> (http_error + grant_info list) \<times> node" where
  "share_item y n path fps s = (if path = [] then (Inl (err BAD_REQUEST ''path must not be the share root''), s)
     else (case resolve (nd_fs s) (nd_share s) path of
       Inl e \<Rightarrow> (Inl (share_err e), s)
     | Inr _ \<Rightarrow> let
         covers_any = list_ex (\<lambda>g. g_fingerprint g \<notin> set fps \<and> (g_paths g = [] \<or> covers_item path g)) (grants_of s);
         fetched = (if covers_any then fetch_listings (sy_x (as_sys y)) (nd_fs s) (nd_share s) path else []);
         gs = map (share_on_grant fetched path fps) (grants_of s);
         (ok, s) = save_grants y n gs s
       in (if ok then Inr (map to_grant_info gs) else Inl save_failed, s)))"

section \<open>The share, the daemon and the events\<close>

definition myshare_list :: "admin_sys \<Rightarrow> string \<Rightarrow> node \<Rightarrow> http_error + list_response" where
  "myshare_list y path s = (case share_list (sy_x (as_sys y)) (nd_fs s) (nd_share s) path of
     Inl e \<Rightarrow> Inl (share_err e)
   | Inr es \<Rightarrow> Inr \<lparr>lr_path = path, lr_entries = es\<rparr>)"

definition myshare_delete :: "env \<Rightarrow> string \<Rightarrow> node \<Rightarrow> (http_error + unit) \<times> node" where
  "myshare_delete n path s = (let (r, fs) = share_delete (en_io n 0) (nd_share s) path (nd_fs s) in
     (case r of Inl e \<Rightarrow> Inl (share_err e) | Inr _ \<Rightarrow> Inr (), s\<lparr>nd_fs := fs\<rparr>))"

definition shutdown_node :: "admin \<Rightarrow> admin" where
  "shutdown_node a = a\<lparr>ad_shutdown := True\<rparr>"

definition events_since :: "u64 \<Rightarrow> node \<Rightarrow> event list" where
  "events_since n s = since n (nd_events s)"

section \<open>Settings\<close>

record settings_view =
  sv_advertise :: bool
  sv_subnet_scan :: bool
  sv_check_updates :: bool
  sv_node_name :: string
  sv_app_version :: string

definition get_settings :: "admin_sys \<Rightarrow> admin \<Rightarrow> settings_view" where
  "get_settings y a = \<lparr>sv_advertise = ad_advertise_on a, sv_subnet_scan = ad_scan_enabled a,
     sv_check_updates = ad_check_updates a, sv_node_name = ni_name (nd_node (ad_node a)),
     sv_app_version = as_version y\<rparr>"

definition snapshot_config :: "admin_sys \<Rightarrow> admin \<Rightarrow> config" where
  "snapshot_config y a = \<lparr>cf_node_name = ni_name (nd_node (ad_node a)), cf_http_port = ad_data_port a,
     cf_share_root = as_path_text y (sh_root (nd_share (ad_node a))),
     cf_inbox_root = as_path_text y (ib_root (nd_inbox (ad_node a))),
     cf_inbox_max_size = nd_inbox_max (ad_node a), cf_advertise = ad_advertise_on a,
     cf_subnet_scan = ad_scan_enabled a, cf_check_updates = ad_check_updates a\<rparr>"

definition persist_settings :: "admin_sys \<Rightarrow> admin_env \<Rightarrow> config \<Rightarrow> admin \<Rightarrow> (string + unit) \<times> admin" where
  "persist_settings y n cfg a = (case as_toml y cfg of
     Inl e \<Rightarrow> (Inl (''serialize config: '' @ e), a)
   | Inr t \<Rightarrow> (let (ok, fs) = fs_write (ae_write_config n) (en_clk (ae_env n) 0) (ad_config_path a) t
         (nd_fs (ad_node a))
       in (if ok then Inr () else Inl (''write '' @ as_path_text y (ad_config_path a)),
           a\<lparr>ad_node := (ad_node a)\<lparr>nd_fs := fs\<rparr>\<rparr>)))"

text \<open>@<ae_register_ok> is the answer of the mDNS daemon to a registration.\<close>

definition toggle_advertise :: "admin_env \<Rightarrow> bool \<Rightarrow> admin \<Rightarrow> (http_error + unit) \<times> admin" where
  "toggle_advertise n want a = (if want = ad_advertise_on a then (Inr (), a)
     else if \<not> ad_advertiser a then
       (Inl (err INTERNAL_SERVER_ERROR ''mDNS is unavailable on this machine''), a)
     else if want \<and> \<not> ae_register_ok n then
       (Inl (err INTERNAL_SERVER_ERROR ''could not register on mDNS''), a)
     else (Inr (), a\<lparr>ad_advertise_on := want\<rparr>))"

definition put_settings :: "admin_sys \<Rightarrow> admin_env \<Rightarrow> bool \<Rightarrow> bool option \<Rightarrow> admin
    \<Rightarrow> (http_error + bool \<times> bool) \<times> admin" where
  "put_settings y n advertise check_updates a = (let (r, a) = toggle_advertise n advertise a in case r of
     Inl e \<Rightarrow> (Inl e, a)
   | Inr _ \<Rightarrow> let
       a = (case check_updates of None \<Rightarrow> a | Some v \<Rightarrow> a\<lparr>ad_check_updates := v\<rparr>);
       (w, a) = persist_settings y n (snapshot_config y a) a
     in case w of
       Inl e \<Rightarrow> (Inl (err INTERNAL_SERVER_ERROR e), a)
     | Inr _ \<Rightarrow> (Inr (advertise, ad_check_updates a), a))"

section \<open>Updates\<close>

definition update_available :: "admin_sys \<Rightarrow> update_state \<Rightarrow> bool" where
  "update_available y st = (case up_status st of
     None \<Rightarrow> False | Some s \<Rightarrow> version_gt (us_latest s) (as_version y))"

definition update_check :: "admin_sys \<Rightarrow> u64 \<Rightarrow> (string \<Rightarrow> string + gh_release) \<Rightarrow> gh_answer \<Rightarrow> admin
    \<Rightarrow> (bool \<times> bool \<times> string option \<times> string option) \<times> admin" where
  "update_check y now parse answer a = (let
     (ok, st) = run_check (as_version y) now (check_latest (as_version y) parse answer) (ad_update a)
   in (if ok then (True, update_available y st, map_option us_latest (up_status st), up_error st)
       else (False, False, None, up_error st), a\<lparr>ad_update := st\<rparr>))"

definition update_apply :: "admin_sys \<Rightarrow> (string \<Rightarrow> stage_result) \<Rightarrow> admin \<Rightarrow> (http_error + string) \<times> admin" where
  "update_apply y stage a = (let (r, st) = apply_update (as_version y) stage (ad_update a) in
     (case r of Inl e \<Rightarrow> Inl (err BAD_GATEWAY e) | Inr m \<Rightarrow> Inr m, a\<lparr>ad_update := st\<rparr>))"

section \<open>The inbox\<close>

fun inbox_err :: "inbox_error \<Rightarrow> http_error" where
  "inbox_err InvalidName = err BAD_REQUEST ''invalid inbox file name''"
| "inbox_err (InboxNotFound nm) = err NOT_FOUND ''inbox file not found''"
| "inbox_err InboxIo = err INTERNAL_SERVER_ERROR ''inbox operation failed''"

definition lift_inbox :: "inbox_error + 'a \<Rightarrow> http_error + 'a" where
  "lift_inbox r = (case r of Inl e \<Rightarrow> Inl (inbox_err e) | Inr v \<Rightarrow> Inr v)"

definition admin_inbox_list :: "admin_sys \<Rightarrow> node \<Rightarrow> http_error + inbox_entry list" where
  "admin_inbox_list y s = lift_inbox (Inbox.inbox_list (sy_meta (as_sys y)) (nd_fs s) (nd_inbox s))"

definition inbox_file :: "admin_sys \<Rightarrow> string \<Rightarrow> node \<Rightarrow> http_error + (string \<times> string) list \<times> bytes" where
  "inbox_file y nm s = (case inbox_resolve (nd_fs s) (nd_inbox s) nm of
     Inl e \<Rightarrow> Inl (inbox_err e)
   | Inr p \<Rightarrow> (case read_file (nd_fs s) p of
       None \<Rightarrow> Inl (err INTERNAL_SERVER_ERROR ''inbox read error'')
     | Some content \<Rightarrow> let
         safe = map (\<lambda>c. if c = CHR 0x22 then CHR 0x27 else c) nm;
         disp = ''attachment; filename='' @ [CHR 0x22] @ safe @ [CHR 0x22]
       in Inr ([(''content-type'', ''application/octet-stream''),
            (''content-length'', show_u64 (of_nat (length content)))]
          @ (if sy_header_value (as_sys y) disp then [(''content-disposition'', disp)] else []), content)))"

definition admin_inbox_accept :: "env \<Rightarrow> string \<Rightarrow> node \<Rightarrow> (http_error + string) \<times> node" where
  "admin_inbox_accept n nm s = (let
     (r, fs) = Inbox.inbox_accept (en_io n) (en_clk n 0) (nd_inbox s) nm (sh_root (nd_share s)) (nd_fs s)
   in (lift_inbox r, s\<lparr>nd_fs := fs\<rparr>))"

definition inbox_discard :: "env \<Rightarrow> string \<Rightarrow> node \<Rightarrow> (http_error + unit) \<times> node" where
  "inbox_discard n nm s = (let (r, fs) = inbox_remove (en_io n) (nd_inbox s) nm (nd_fs s)
   in (lift_inbox r, s\<lparr>nd_fs := fs\<rparr>))"

section \<open>Facts about the guard\<close>

text \<open>The authorities that pass: one of four spellings of the loopback host and exactly the admin
  port, before the end, a path, a query or a fragment.\<close>

definition local_hosts :: "string list" where
  "local_hosts = [''127.0.0.1'', ''127.0.0.1.'', ''localhost'', ''localhost.'']"

definition bare_authority :: "string \<Rightarrow> string" where
  "bare_authority v = strip_opt ''https://'' (strip_opt ''http://'' (ascii_lowercase (trim v)))"

lemma rsplit_once_iff:
  "rsplit_once c s = Some (a, b) \<longleftrightarrow> s = a @ c # b \<and> c \<notin> set b"
proof -
  have "rsplit_once c s = Some (a, b) \<longleftrightarrow> split_once c (rev s) = Some (rev b, rev a)"
    by (auto simp: rsplit_once_def rev_swap)
  also have "\<dots> \<longleftrightarrow> s = a @ c # b \<and> c \<notin> set b"
    by (auto simp: split_once_Some rev_swap)
  finally show ?thesis .
qed

lemma takeWhile_ends:
  assumes "\<And>c. c \<in> set a \<Longrightarrow> P c" "r = [] \<or> \<not> P (hd r)"
  shows "takeWhile P (a @ r) = a"
  using assms by (cases r) auto

lemma authority_allowed_iff:
  "authority_allowed v port \<longleftrightarrow> (\<exists>host \<in> set local_hosts. \<exists>r.
     bare_authority v = host @ '':'' @ show_nat (unat port) @ r
     \<and> (r = [] \<or> hd r \<in> {CHR ''/'', CHR ''?'', CHR ''#''}))"
    (is "?l \<longleftrightarrow> ?r")
proof -
  let ?P = "\<lambda>c. c \<notin> {CHR ''/'', CHR ''?'', CHR ''#''}"
  let ?a = "takeWhile ?P (bare_authority v)"
  have trail: "(case strip_suffix ''.'' h of None \<Rightarrow> h | Some h \<Rightarrow> h) \<in> {''127.0.0.1'', ''localhost''}
      \<longleftrightarrow> h \<in> set local_hosts" for h
    by (auto simp: strip_suffix_def local_hosts_def suffix_def split: if_splits)
  have dot: "c \<noteq> CHR '':''" "?P c" if "c \<in> set (show_nat n)" for c n
    using show_nat_digits [OF that] by (auto simp: is_digit_def)
  show ?thesis
  proof
    assume l: ?l
    then obtain host p where h: "rsplit_once (CHR '':'') ?a = Some (host, p)"
      "p = show_nat (unat port)" "host \<in> set local_hosts"
      unfolding authority_allowed_def Let_def bare_authority_def [symmetric] using trail
      by (auto split: option.splits)
    have "bare_authority v = ?a @ dropWhile ?P (bare_authority v)" by simp
    moreover have "?a = host @ '':'' @ p" using h(1) by (simp add: rsplit_once_iff)
    moreover have "dropWhile ?P (bare_authority v) = [] \<or> \<not> ?P (hd (dropWhile ?P (bare_authority v)))"
      using hd_dropWhile by blast
    ultimately show ?r using h(2,3) by (metis append.assoc singleton_iff)
  next
    assume ?r
    then obtain host r where h: "host \<in> set local_hosts"
      "bare_authority v = (host @ '':'' @ show_nat (unat port)) @ r" "r = [] \<or> \<not> ?P (hd r)" by auto
    have "?a = host @ '':'' @ show_nat (unat port)"
      unfolding h(2) using h(1,3) dot by (intro takeWhile_ends) (auto simp: local_hosts_def)
    then have "rsplit_once (CHR '':'') ?a = Some (host, show_nat (unat port))"
      using dot(1) [of "CHR '':''"] by (auto simp: rsplit_once_iff)
    then show ?l using h(1) trail [of host]
      unfolding authority_allowed_def Let_def bare_authority_def [symmetric] by simp
  qed
qed

lemma set_trim: "set (trim s) \<subseteq> set s"
proof -
  have 1: "set (trim_start s) \<subseteq> set s" unfolding trim_start_def by (rule set_mono_suffix [OF drop_ws_suffix])
  have "set (trim_end t) \<subseteq> set t" for t
    using set_mono_suffix [OF drop_ws_suffix, of "map rev ws_chars" "length t" "rev t"] by (simp add: trim_end_def)
  then show ?thesis using 1 unfolding trim_def by blast
qed

text \<open>The opaque origin, which the guard also names, is no authority.\<close>

lemma null_not_allowed: "eq_ignore_ascii_case v ''null'' \<Longrightarrow> \<not> authority_allowed v port"
proof
  assume n: "eq_ignore_ascii_case v ''null''" and "authority_allowed v port"
  then have "CHR '':'' \<in> set (bare_authority v)" by (auto simp: authority_allowed_iff)
  moreover have "set (strip_opt p s) \<subseteq> set s" for p s
    by (auto simp: strip_opt_def strip_prefix_def dest: in_set_dropD split: option.splits if_splits)
  ultimately have "CHR '':'' \<in> set (ascii_lowercase (trim v))" unfolding bare_authority_def by blast
  then have "CHR '':'' \<in> set (ascii_lowercase v)" using set_trim [of v] by (auto simp: ascii_lowercase_def)
  moreover have "ascii_lowercase v = ''null''" using n by (simp add: eq_ignore_ascii_case_def ascii_lowercase_def lower_char_def)
  ultimately show False by simp
qed

lemma list_peers_node [simp]: "ad_node (snd (list_peers now a)) = ad_node a"
  by (simp add: list_peers_def split: prod.split)

section \<open>Facts about sharing\<close>

text \<open>No entry of the file system has an empty name.\<close>

definition names_ok :: "fsys \<Rightarrow> bool" where
  "names_ok fs \<longleftrightarrow> list_all (\<lambda>(p, n). p \<noteq> [] \<and> last p \<noteq> []) (fs_nodes fs)"

lemma scope_dirs_iff: "d \<in> set (scope_dirs path) \<longleftrightarrow> d = [] \<or> (\<exists>r. r \<noteq> [] \<and> path = d @ CHR ''/'' # r)"
proof
  assume "d \<in> set (scope_dirs path)"
  then show "d = [] \<or> (\<exists>r. r \<noteq> [] \<and> path = d @ CHR ''/'' # r)"
  proof (cases "d = []")
    case False
    then obtain i where i: "d = take i path" "path ! i = CHR ''/''" "i + 1 < length path"
      using \<open>d \<in> set (scope_dirs path)\<close> by (auto simp: scope_dirs_def)
    then have "path = d @ CHR ''/'' # drop (Suc i) path" "drop (Suc i) path \<noteq> []"
      using id_take_nth_drop [of i path] by auto
    then show ?thesis by blast
  qed simp
next
  assume "d = [] \<or> (\<exists>r. r \<noteq> [] \<and> path = d @ CHR ''/'' # r)"
  then show "d \<in> set (scope_dirs path)"
  proof
    assume "\<exists>r. r \<noteq> [] \<and> path = d @ CHR ''/'' # r"
    then obtain r where r: "r \<noteq> []" "path = d @ CHR ''/'' # r" by blast
    then have "length d < length path \<and> path ! length d = CHR ''/'' \<and> length d + 1 < length path
        \<and> d = take (length d) path" by auto
    then show ?thesis unfolding scope_dirs_def by (auto simp: image_iff)
  qed (simp add: scope_dirs_def)
qed

lemma fetched_lookup: "map_of (fetch_listings x fs r path) d =
    (if d \<in> set (scope_dirs path) then Some (case share_list x fs r d of Inl _ \<Rightarrow> []
       | Inr es \<Rightarrow> map de_path (filter (\<lambda>e. \<not> (de_path e = path \<or> within (de_path e) path)) es)) else None)"
  unfolding fetch_listings_def by (simp add: map_of_map_restrict restrict_map_def)

lemma fetched_on_the_way:
  assumes "path \<noteq> []" "last path \<noteq> CHR ''/''" "d = [] \<or> within path d"
  shows "map_of (fetch_listings x fs r path) d \<noteq> None"
proof -
  have "d \<in> set (scope_dirs path)" using assms by (fastforce simp: scope_dirs_iff within_iff)
  then show ?thesis by (simp add: fetched_lookup)
qed

lemma names_ok_get: "names_ok fs \<Longrightarrow> fs_get fs (d @ [w]) = Some n \<Longrightarrow> w \<noteq> []"
  by (auto simp: names_ok_def fs_get_def list_all_iff dest!: map_of_SomeD)

lemma listed_path:
  assumes "fs_ok fs" "names_ok fs" "share_list x fs r d = Inr es" "e \<in> set es"
  shows "de_path e = (if d = [] then de_name e else d @ ''/'' @ de_name e) \<and> de_name e \<noteq> []"
proof -
  obtain dir m n where n: "fs_get fs (dir @ [de_name e]) = Some n" and e: "e = entry_of d (de_name e, n)"
    using share_list_entry [OF assms(1,3,4)] by blast
  show ?thesis using arg_cong [OF e, of de_path] names_ok_get [OF assms(2) n] by (simp add: entry_of_def)
qed

lemma fetched_listings:
  assumes "fs_ok fs" "names_ok fs"
  shows "listing_grows (map_of (fetch_listings x fs r path))"
    and "listing_below (map_of (fetch_listings x fs r path))"
proof -
  have "length d < length k \<and> (d = [] \<or> within k d)"
    if "map_of (fetch_listings x fs r path) d = Some ks" "k \<in> set ks" for d ks k
  proof -
    have "\<exists>es e. share_list x fs r d = Inr es \<and> e \<in> set es \<and> k = de_path e"
      using that by (cases "share_list x fs r d") (auto simp: fetched_lookup split: if_splits)
    then obtain es e where es: "share_list x fs r d = Inr es" "e \<in> set es" "k = de_path e" by blast
    show ?thesis using listed_path [OF assms es(1,2)] es(3) by (auto simp: within_iff)
  qed
  then show "listing_grows (map_of (fetch_listings x fs r path))"
    and "listing_below (map_of (fetch_listings x fs r path))"
    unfolding listing_grows_def listing_below_def by blast+
qed

lemma covers_item_read: "g_paths g \<noteq> [] \<Longrightarrow> covers_item path g \<longleftrightarrow> can_read_file (g_paths g) path"
  by (simp add: covers_item_def can_read_file_def)

lemma no_access_unrelated: "CHR 0x00 \<notin> set f \<Longrightarrow> f \<noteq> NO_ACCESS \<and> \<not> within f NO_ACCESS"
  by (auto simp: NO_ACCESS_def within_iff)

definition shared_listings :: "admin_sys \<Rightarrow> node \<Rightarrow> string \<Rightarrow> string list \<Rightarrow> (string \<times> string list) list" where
  "shared_listings y s path fps =
     (if list_ex (\<lambda>g. g_fingerprint g \<notin> set fps \<and> (g_paths g = [] \<or> covers_item path g)) (grants_of s)
      then fetch_listings (sy_x (as_sys y)) (nd_fs s) (nd_share s) path else [])"

lemma save_grants_simps [simp]:
  "grants_of (snd (save_grants y n gs s)) = gs" "nd_fs (snd (save_grants y n gs s)) = nd_fs s"
  "nd_share (snd (save_grants y n gs s)) = nd_share s" "nd_pairing (snd (save_grants y n gs s)) = nd_pairing s"
  "nd_inbox (snd (save_grants y n gs s)) = nd_inbox s" "nd_events (snd (save_grants y n gs s)) = nd_events s"
  by (simp_all add: save_grants_def case_prod_beta)

lemma share_item_grants:
  assumes "share_item y n path fps s = (Inr infos, s')"
  shows "grants_of s' = map (share_on_grant (shared_listings y s path fps) path fps) (grants_of s)"
    and "infos = map to_grant_info (grants_of s')" and "path \<noteq> []"
proof -
  let ?gs = "map (share_on_grant (shared_listings y s path fps) path fps) (grants_of s)"
  have "grants_of s' = ?gs \<and> infos = map to_grant_info (grants_of s') \<and> path \<noteq> []"
  proof (cases "resolve (nd_fs s) (nd_share s) path")
    case (Inr p)
    have ne: "path \<noteq> []" using assms by (auto simp: share_item_def)
    obtain ok s1 where sv: "save_grants y n ?gs s = (ok, s1)" by force
    have g: "grants_of s1 = ?gs" using save_grants_simps(1) [of y n ?gs s] sv by simp
    have "share_item y n path fps s = (if ok then Inr (map to_grant_info ?gs) else Inl save_failed, s1)"
      using ne Inr sv by (simp add: share_item_def shared_listings_def Let_def)
    then show ?thesis using assms ne g by (auto split: if_splits)
  qed (use assms in \<open>auto simp: share_item_def split: if_splits\<close>)
  then show "grants_of s' = ?gs" "infos = map to_grant_info (grants_of s')" "path \<noteq> []" by blast+
qed

lemma share_on_grant_wanted:
  assumes "g_fingerprint g \<in> set fps"
  shows "can_read_file (g_paths (share_on_grant fetched path fps g)) f
    \<longleftrightarrow> can_read_file (g_paths g) f \<or> f = path \<or> within f path"
proof (cases "g_paths g \<noteq> [] \<and> \<not> covers_item path g")
  case True
  then show ?thesis using assms by (auto simp: share_on_grant_def can_read_file_def list_ex_iff)
next
  case False
  then show ?thesis using assms within_trans
    by (auto simp: share_on_grant_def can_read_file_def covers_item_def list_ex_iff)
qed

lemma share_on_grant_unwanted:
  assumes fs: "fs_ok (nd_fs s)" "names_ok (nd_fs s)" and g: "g \<in> set (grants_of s)" "g_fingerprint g \<notin> set fps"
    and p: "path \<noteq> []" "last path \<noteq> CHR ''/''" "CHR 0x00 \<notin> set path"
  shows "\<not> can_read_file (g_paths (share_on_grant (shared_listings y s path fps) path fps g)) path"
proof (cases "g_paths g = [] \<or> covers_item path g")
  case True
  let ?x = "sy_x (as_sys y)"
  let ?c = "map_of (fetch_listings ?x (nd_fs s) (nd_share s) path)"
  have l: "shared_listings y s path fps = fetch_listings ?x (nd_fs s) (nd_share s) path"
    using True g by (auto simp: shared_listings_def list_ex_iff)
  have "subtract_from_scope (g_paths g) path ?c \<noteq> None"
    by (rule subtract_total [OF fetched_listings(1) [OF fs] fetched_on_the_way [OF p(1,2)]]) (use True in \<open>simp_all add: covers_item_def\<close>)
  then obtain out where o: "subtract_from_scope (g_paths g) path ?c = Some out" by blast
  then show ?thesis using subtract_not_covered [OF o] no_access_unrelated [OF p(3)] g(2)
    unfolding share_on_grant_def l by simp
next
  case False
  have "share_on_grant fetched path fps g = g \<or> subtract_from_scope (g_paths g) path (map_of fetched) \<noteq> None" for fetched
    using g(2) by (auto simp: share_on_grant_def)
  moreover have "subtract_from_scope (g_paths g) path c = None" for c
  proof -
    have "\<not> list_ex (\<lambda>p. p = path \<or> (p \<noteq> [] \<and> within path p)) (g_paths g)"
      using False by (auto simp: covers_item_def list_ex_iff)
    moreover have "g_paths g \<noteq> []" using False by blast
    ultimately show ?thesis unfolding subtract_from_scope_def Let_def
      by (simp only: if_True if_False simp_thms option.map)
  qed
  ultimately show ?thesis using False by (auto simp: covers_item_read)
qed

text \<open>The listings towards another item: every directory on the way to both is listed and shows the
  entry that leads to it.\<close>

definition leads_to :: "ext \<Rightarrow> fsys \<Rightarrow> share_root \<Rightarrow> string \<Rightarrow> string \<Rightarrow> bool" where
  "leads_to x fs r path f \<longleftrightarrow> list_all (\<lambda>d. (d = [] \<or> within f d) \<longrightarrow> (case share_list x fs r d of
       Inl _ \<Rightarrow> False
     | Inr es \<Rightarrow> list_ex (\<lambda>e. f = de_path e \<or> within f (de_path e)) es)) (scope_dirs path)"

lemma leads_to_listing:
  assumes "leads_to x fs r path f" "f \<noteq> path" "\<not> within f path"
  shows "listing_leads (map_of (fetch_listings x fs r path)) f"
  unfolding listing_leads_def
proof (intro allI impI)
  fix d ks
  assume c: "map_of (fetch_listings x fs r path) d = Some ks" and d: "d = [] \<or> within f d"
  then have "d \<in> set (scope_dirs path)" by (auto simp: fetched_lookup split: if_splits)
  then have "case share_list x fs r d of Inl _ \<Rightarrow> False
      | Inr es \<Rightarrow> list_ex (\<lambda>e. f = de_path e \<or> within f (de_path e)) es"
    using assms(1) d unfolding leads_to_def list_all_iff by blast
  then obtain es e where e: "share_list x fs r d = Inr es" "e \<in> set es" "f = de_path e \<or> within f (de_path e)"
    by (cases "share_list x fs r d") (auto simp: list_ex_iff)
  have "\<not> (de_path e = path \<or> within (de_path e) path)" using e(3) assms(2,3) within_trans by metis
  then show "\<exists>k \<in> set ks. f = k \<or> within f k" using c e by (auto simp: fetched_lookup split: if_splits)
qed

lemma share_on_grant_others:
  assumes fs: "fs_ok (nd_fs s)" "names_ok (nd_fs s)" and g: "g_fingerprint g \<notin> set fps"
    and l: "leads_to (sy_x (as_sys y)) (nd_fs s) (nd_share s) path f"
    and f: "f \<noteq> path" "\<not> within f path" "\<not> within path f" "CHR 0x00 \<notin> set f"
  shows "can_read_file (g_paths (share_on_grant (shared_listings y s path fps) path fps g)) f
    \<longleftrightarrow> can_read_file (g_paths g) f"
proof (cases "subtract_from_scope (g_paths g) path (map_of (shared_listings y s path fps))")
  case (Some out)
  have "listing_leads (map_of (shared_listings y s path fps)) f
      \<and> listing_below (map_of (shared_listings y s path fps))"
    using leads_to_listing [OF l f(1,2)] fetched_listings(2) [OF fs]
    by (simp add: shared_listings_def listing_leads_def listing_below_def)
  then show ?thesis
    using subtract_keeps_others [OF Some _ f(1,2,3)] subtract_narrows [OF _ Some] no_access_unrelated [OF f(4)]
      Some g by (auto simp: share_on_grant_def)
qed (use g in \<open>simp add: share_on_grant_def\<close>)

lemma share_on_grant_fingerprint [simp]:
  "g_fingerprint (share_on_grant c path fps g) = g_fingerprint g"
  "g_node_id (share_on_grant c path fps g) = g_node_id g"
  by (auto simp: share_on_grant_def split: option.split)

end
