(* ===== verification/Proxy.thy ===== *)
theory Proxy
  imports Prelude Utf8 Externals Protocol Identity Store Registry Node Search Admin
begin

text \<open>The calls this node makes to other nodes, @<doclinkd/src/proxy.rs>: locating a peer, signing the
  request, checking the certificate of the answer against the fingerprint of the contact, and reading
  the answer. The network is a function from the request that is sent to what comes back; every signed
  request carries a time stamp and a fresh nonce, so two calls of one handler may be answered
  differently. The JSON readers are arguments.\<close>

section \<open>The network\<close>

record http_request =
  rq_method :: string
  rq_url :: string
  rq_headers :: "(string \<times> string) list"
  rq_body :: bytes

text \<open>An answer: the TLS session with its certificate, status, headers and body; the body is the
  error text when reading it breaks off.\<close>

record http_response =
  rs_tls :: "bytes option option"
  rs_status :: nat
  rs_headers :: headers
  rs_body :: "string + bytes"

type_synonym http = "http_request \<Rightarrow> string + http_response"

text \<open>@<serde_json::Value>.\<close>

datatype json = JNull | JBool bool | JNumber string | JString string | JArray "json list"
  | JObject "(string \<times> json) list"

record peer_json =
  pj_text :: "http_response \<Rightarrow> bytes \<Rightarrow> string"
  pj_status_text :: "nat \<Rightarrow> string"
  pj_error :: "string \<Rightarrow> error_response option"
  pj_value :: "string \<Rightarrow> string + json"
  pj_list :: "json \<Rightarrow> string + list_response"
  pj_search :: "string \<Rightarrow> string + search_response"
  pj_upload :: "string \<Rightarrow> string + upload_result"
  pj_info :: "bytes \<Rightarrow> string + node_info"
  pj_pair_status :: "bytes \<Rightarrow> string + pair_status_response"
  pj_pair_request :: "pair_request \<Rightarrow> string"
  pj_header_value :: "string \<Rightarrow> bool"

text \<open>What a call is given: the JSON readers, the network, and for its n-th request the clock at the
  registry, the clock of the time stamp and the eight random bytes.\<close>

record client =
  cl_json :: peer_json
  cl_http :: http
  cl_now :: "nat \<Rightarrow> u64"
  cl_ts :: "nat \<Rightarrow> u64"
  cl_nonce :: "nat \<Rightarrow> bytes"

definition is_success :: "nat \<Rightarrow> bool" where
  "is_success st \<longleftrightarrow> 200 \<le> st \<and> st < 300"

definition NOT_IMPLEMENTED :: nat where "NOT_IMPLEMENTED = 501"

section \<open>Errors\<close>

datatype proxy_err = UnknownPeer | UnsupportedPeer | Upstream string

definition older_peer :: string where
  "older_peer = ''that PC runs an older DocLink without this feature '' @ em_dash @ '' update it''"

fun proxy_response :: "proxy_err \<Rightarrow> http_error" where
  "proxy_response UnknownPeer = err NOT_FOUND ''unknown or offline peer''"
| "proxy_response UnsupportedPeer = err NOT_IMPLEMENTED older_peer"
| "proxy_response (Upstream m) = err BAD_GATEWAY m"

definition upstream_message :: "peer_json \<Rightarrow> nat \<Rightarrow> string \<Rightarrow> string" where
  "upstream_message j st body = (let raw = ''peer returned '' @ pj_status_text j st @ '': '' @ body in
     case pj_error j body of
       Some e \<Rightarrow> if er_error e \<noteq> [] then er_error e else raw
     | None \<Rightarrow> raw)"

definition is_unsupported_route :: "nat \<Rightarrow> string \<Rightarrow> bool" where
  "is_unsupported_route st body \<longleftrightarrow> st = NOT_FOUND \<and> trim body = []"

section \<open>Locating and signing\<close>

record peer_target =
  pt_base :: string
  pt_fingerprint :: string

definition peer_lookup :: "u64 \<Rightarrow> string \<Rightarrow> admin \<Rightarrow> (proxy_err + peer_target) \<times> admin" where
  "peer_lookup now nid a = (case find_contact nid (contacts_of (ad_node a)) of
     None \<Rightarrow> (Inl UnknownPeer, a)
   | Some known \<Rightarrow> (let (ps, a) = list_peers now a in
       (case List.find (\<lambda>p. p_node_id p = nid) ps of
         Some p \<Rightarrow> Inr \<lparr>pt_base = peer_base_url (p_addr p) (p_http_port p), pt_fingerprint = c_fingerprint known\<rparr>
       | None \<Rightarrow> (case c_host known of
           Some h \<Rightarrow> Inr \<lparr>pt_base = ''https://'' @ h, pt_fingerprint = c_fingerprint known\<rparr>
         | None \<Rightarrow> Inl UnknownPeer), a)))"

definition signed_get :: "ext \<Rightarrow> node_identity \<Rightarrow> client \<Rightarrow> nat \<Rightarrow> string \<Rightarrow> string \<Rightarrow> http_request" where
  "signed_get x i cl k base path_q = \<lparr>rq_method = ''GET'', rq_url = base @ path_q,
     rq_headers = auth_headers x i (cl_ts cl k) (cl_nonce cl k) ''GET'' path_q, rq_body = []\<rparr>"

text \<open>The body is signed with the request.\<close>

definition signed_post :: "ext \<Rightarrow> node_identity \<Rightarrow> client \<Rightarrow> nat \<Rightarrow> (string \<times> string) list \<Rightarrow> string \<Rightarrow> string
    \<Rightarrow> bytes \<Rightarrow> http_request" where
  "signed_post x i cl k hs base path_q body = \<lparr>rq_method = ''POST'', rq_url = base @ path_q,
     rq_headers = hs @ auth_headers_body x i (cl_ts cl k) (cl_nonce cl k) ''POST'' path_q body, rq_body = body\<rparr>"

text \<open>Sending a request and checking the certificate of the answer before anything of it is read.\<close>

definition send_pinned :: "ext \<Rightarrow> client \<Rightarrow> string \<Rightarrow> http_request \<Rightarrow> proxy_err + http_response" where
  "send_pinned x cl fp req = (case cl_http cl req of
     Inl e \<Rightarrow> Inl (Upstream e)
   | Inr r \<Rightarrow> (case peer_check x (rs_tls r) (Some fp) of
       Inl e \<Rightarrow> Inl (Upstream e) | Inr _ \<Rightarrow> Inr r))"

definition body_text :: "client \<Rightarrow> http_response \<Rightarrow> proxy_err + string" where
  "body_text cl r = (case rs_body r of Inl e \<Rightarrow> Inl (Upstream e) | Inr b \<Rightarrow> Inr (pj_text (cl_json cl) r b))"

text \<open>What the text routes share: the text of a pinned answer that reports success. Routes newer than
  the first release take an empty 404 as a peer without them.\<close>

definition answer_text :: "ext \<Rightarrow> client \<Rightarrow> bool \<Rightarrow> string \<Rightarrow> http_request \<Rightarrow> proxy_err + string" where
  "answer_text x cl newer fp req = (case send_pinned x cl fp req of
     Inl e \<Rightarrow> Inl e
   | Inr r \<Rightarrow> (case body_text cl r of
       Inl e \<Rightarrow> Inl e
     | Inr body \<Rightarrow>
       if newer \<and> is_unsupported_route (rs_status r) body then Inl UnsupportedPeer
       else if \<not> is_success (rs_status r) then Inl (Upstream (upstream_message (cl_json cl) (rs_status r) body))
       else Inr body))"

definition invalid_response :: "string + 'a \<Rightarrow> proxy_err + 'a" where
  "invalid_response r = (case r of Inl e \<Rightarrow> Inl (Upstream (''invalid peer response: '' @ e)) | Inr v \<Rightarrow> Inr v)"

text \<open>The frame of a call: locate the peer, then talk to it.\<close>

definition with_peer :: "client \<Rightarrow> nat \<Rightarrow> string \<Rightarrow> (peer_target \<Rightarrow> proxy_err + 'a) \<Rightarrow> admin
    \<Rightarrow> (proxy_err + 'a) \<times> admin" where
  "with_peer cl k nid f a = (let (r, a) = peer_lookup (cl_now cl k) nid a in
     (case r of Inl e \<Rightarrow> Inl e | Inr t \<Rightarrow> f t, a))"

section \<open>Listing and search\<close>

definition proxy_list :: "ext \<Rightarrow> client \<Rightarrow> nat \<Rightarrow> string \<Rightarrow> string \<Rightarrow> admin \<Rightarrow> (proxy_err + json) \<times> admin" where
  "proxy_list x cl k nid path a = with_peer cl k nid (\<lambda>t.
     (case answer_text x cl False (pt_fingerprint t)
         (signed_get x (nd_identity (ad_node a)) cl k (pt_base t) (''/v1/list?path='' @ x_url_encode x path)) of
       Inl e \<Rightarrow> Inl e | Inr body \<Rightarrow> invalid_response (pj_value (cl_json cl) body))) a"

definition proxy_search :: "ext \<Rightarrow> client \<Rightarrow> nat \<Rightarrow> string \<Rightarrow> string \<Rightarrow> admin
    \<Rightarrow> (proxy_err + search_response) \<times> admin" where
  "proxy_search x cl k nid query a = with_peer cl k nid (\<lambda>t.
     (case answer_text x cl True (pt_fingerprint t)
         (signed_get x (nd_identity (ad_node a)) cl k (pt_base t) (''/v1/search?q='' @ x_url_encode x query)) of
       Inl e \<Rightarrow> Inl e | Inr body \<Rightarrow> invalid_response (pj_search (cl_json cl) body))) a"

section \<open>The search of older peers\<close>

definition MAX_VISITS :: nat where "MAX_VISITS = 1500"

text \<open>The queue (its front first), the entries visited, the hits, whether something was cut, the number
  of requests sent so far, and the node.\<close>

record fallback =
  fb_queue :: "string list"
  fb_visited :: nat
  fb_results :: "dir_entry list"
  fb_truncated :: bool
  fb_calls :: nat
  fb_admin :: admin

definition fallback_entry :: "ext \<Rightarrow> string \<Rightarrow> dir_entry \<Rightarrow> fallback \<Rightarrow> fallback" where
  "fallback_entry x q e w =
     (if de_kind e = Dir then w\<lparr>fb_queue := fb_queue w @ [de_path e]\<rparr>
      else if contains q (x_to_lower x (de_name e)) then w\<lparr>fb_results := fb_results w @ [e]\<rparr> else w)"

definition fallback_visit :: "fallback \<Rightarrow> fallback" where
  "fallback_visit w = w\<lparr>fb_visited := Suc (fb_visited w)\<rparr>"

fun fallback_scan :: "ext \<Rightarrow> string \<Rightarrow> dir_entry list \<Rightarrow> fallback \<Rightarrow> fallback" where
  "fallback_scan x q [] w = w"
| "fallback_scan x q (e # es) w = (let w = fallback_visit w in
     if MAX_VISITS < fb_visited w then w\<lparr>fb_truncated := True\<rparr>
     else fallback_scan x q es (fallback_entry x q e w))"

text \<open>One listing through @<proxy_list>, read as a list of entries.\<close>

definition fallback_list :: "ext \<Rightarrow> client \<Rightarrow> string \<Rightarrow> string \<Rightarrow> fallback \<Rightarrow> list_response option \<times> fallback" where
  "fallback_list x cl nid dir w = (let (r, a) = proxy_list x cl (fb_calls w) nid dir (fb_admin w) in
     (case r of Inl _ \<Rightarrow> None | Inr v \<Rightarrow> (case pj_list (cl_json cl) v of Inl _ \<Rightarrow> None | Inr l \<Rightarrow> Some l),
      w\<lparr>fb_calls := Suc (fb_calls w), fb_admin := a\<rparr>))"

lemma fallback_entry_simps [simp]:
  "fb_visited (fallback_entry x q e w) = fb_visited w" "fb_calls (fallback_entry x q e w) = fb_calls w"
  "fb_truncated (fallback_entry x q e w) = fb_truncated w" "fb_admin (fallback_entry x q e w) = fb_admin w"
  by (simp_all add: fallback_entry_def)

lemma fallback_scan_visited: "fb_visited w \<le> fb_visited (fallback_scan x q es w)"
  by (induction x q es w rule: fallback_scan.induct) (auto simp: Let_def fallback_visit_def)

lemma fallback_scan_progress: "es \<noteq> [] \<Longrightarrow> fb_visited w < fb_visited (fallback_scan x q es w)"
proof (cases es)
  case (Cons e es')
  have "Suc (fb_visited w) \<le> fb_visited (fallback_scan x q es' (fallback_entry x q e (fallback_visit w)))"
    using fallback_scan_visited [of "fallback_entry x q e (fallback_visit w)" x q es'] by (simp add: fallback_visit_def)
  then show ?thesis using Cons by (auto simp: Let_def fallback_visit_def)
qed simp

lemma fallback_list_simps:
  "fallback_list x cl nid dir w = (r, w') \<Longrightarrow> fb_queue w' = fb_queue w \<and> fb_visited w' = fb_visited w
    \<and> fb_results w' = fb_results w \<and> fb_truncated w' = fb_truncated w"
  by (auto simp: fallback_list_def split: prod.splits)

text \<open>Each listing shortens the queue or spends visits, so the walk ends.\<close>

function fallback_loop :: "ext \<Rightarrow> client \<Rightarrow> string \<Rightarrow> string \<Rightarrow> fallback \<Rightarrow> fallback" where
  "fallback_loop x cl nid q w = (case fb_queue w of
     [] \<Rightarrow> w
   | dir # rest \<Rightarrow>
     if MAX_VISITS \<le> fb_visited w \<or> 200 \<le> length (fb_results w)
     then w\<lparr>fb_queue := rest, fb_truncated := True\<rparr>
     else (case fallback_list x cl nid dir (w\<lparr>fb_queue := rest\<rparr>) of
       (None, w) \<Rightarrow> fallback_loop x cl nid q w
     | (Some l, w) \<Rightarrow> fallback_loop x cl nid q (fallback_scan x q (lr_entries l) w)))"
  by pat_completeness auto
termination
proof (relation "measures [\<lambda>(x, cl, nid, q, w). MAX_VISITS - fb_visited w,
    \<lambda>(x, cl, nid, q, w). length (fb_queue w)]", goal_cases)
  case (2 x cl nid q w dir rest r w')
  then have "fallback_list x cl nid dir (w\<lparr>fb_queue := rest\<rparr>) = (None, w')" by simp
  from fallback_list_simps [OF this] show ?case using 2 by simp
next
  case (3 x cl nid q w dir rest r w' l)
  then have "fallback_list x cl nid dir (w\<lparr>fb_queue := rest\<rparr>) = (Some l, w')" by simp
  from fallback_list_simps [OF this] show ?case
    using 3 fallback_scan_progress [of "lr_entries l" w' x q] by (cases "lr_entries l") auto
qed auto

declare fallback_loop.simps [simp del]

definition proxy_search_fallback :: "ext \<Rightarrow> client \<Rightarrow> string \<Rightarrow> string \<Rightarrow> admin
    \<Rightarrow> (proxy_err + search_response) \<times> admin" where
  "proxy_search_fallback x cl nid query a = (let q_lower = x_to_lower x query in
     case proxy_list x cl 0 nid [] a of
       (Inl e, a) \<Rightarrow> (Inl e, a)
     | (Inr root, a) \<Rightarrow> (case pj_list (cl_json cl) root of
         Inl e \<Rightarrow> (Inl (Upstream (''bad list response: '' @ e)), a)
       | Inr first \<Rightarrow> (let
           w0 = \<lparr>fb_queue = [[]], fb_visited = 0, fb_results = [], fb_truncated = False,
             fb_calls = 1, fb_admin = a\<rparr>;
           w1 = fold (\<lambda>e w. fallback_entry x q_lower e (fallback_visit w)) (lr_entries first) w0;
           w = fallback_loop x cl nid q_lower w1
         in (Inr \<lparr>sr_query = query, sr_truncated = fb_truncated w, sr_results = fb_results w\<rparr>, fb_admin w))))"

section \<open>Files\<close>

text \<open>A relayed download: its body is streamed through, so it may break off.\<close>

record relayed =
  rl_status :: nat
  rl_headers :: "(string \<times> string) list"
  rl_body :: "string + bytes"

definition relay :: "peer_json \<Rightarrow> string \<Rightarrow> http_response \<Rightarrow> relayed" where
  "relay j path r = (let
     h = rs_headers r;
     put = (\<lambda>k v. if pj_header_value j v then [(k, v)] else []);
     ctype = (case h ''content-type'' of Some v \<Rightarrow> v | None \<Rightarrow> ''application/octet-stream'');
     cd = (case h ''content-disposition'' of Some v \<Rightarrow> v
       | None \<Rightarrow> ''attachment; filename='' @ [CHR 0x22] @ last (split_on (CHR ''/'') path) @ [CHR 0x22])
   in \<lparr>rl_status = (if h ''content-range'' \<noteq> None \<or> rs_status r = 206 then 206 else 200),
     rl_headers = put ''content-type'' ctype @ put ''content-disposition'' cd
       @ (case Option.bind (h ''content-length'') parse_u64 of None \<Rightarrow> [] | Some n \<Rightarrow> [(''content-length'', show_u64 n)])
       @ (case h ''content-range'' of None \<Rightarrow> [] | Some v \<Rightarrow> put ''content-range'' v),
     rl_body = rs_body r\<rparr>)"

definition file_request :: "ext \<Rightarrow> node_identity \<Rightarrow> client \<Rightarrow> nat \<Rightarrow> string \<Rightarrow> string \<Rightarrow> string option \<Rightarrow> http_request" where
  "file_request x i cl k base path rng = (let
     req = signed_get x i cl k base (''/v1/file?path='' @ x_url_encode x path)
   in case rng of None \<Rightarrow> req | Some v \<Rightarrow> req\<lparr>rq_headers := rq_headers req @ [(''range'', v)]\<rparr>)"

definition proxy_file :: "ext \<Rightarrow> client \<Rightarrow> nat \<Rightarrow> string \<Rightarrow> string \<Rightarrow> string option \<Rightarrow> admin
    \<Rightarrow> (proxy_err + relayed) \<times> admin" where
  "proxy_file x cl k nid path rng a = with_peer cl k nid (\<lambda>t.
     (case send_pinned x cl (pt_fingerprint t) (file_request x (nd_identity (ad_node a)) cl k (pt_base t) path rng) of
       Inl e \<Rightarrow> Inl e
     | Inr r \<Rightarrow>
       if \<not> is_success (rs_status r) then Inl (Upstream (upstream_message (cl_json cl) (rs_status r)
         (case body_text cl r of Inl _ \<Rightarrow> [] | Inr m \<Rightarrow> m)))
       else Inr (relay (cl_json cl) path r))) a"

definition proxy_print :: "ext \<Rightarrow> client \<Rightarrow> nat \<Rightarrow> string \<Rightarrow> string \<Rightarrow> bytes \<Rightarrow> admin
    \<Rightarrow> (proxy_err + unit) \<times> admin" where
  "proxy_print x cl k nid nm body a = with_peer cl k nid (\<lambda>t.
     (case answer_text x cl True (pt_fingerprint t) (signed_post x (nd_identity (ad_node a)) cl k
         [(''content-type'', ''application/octet-stream'')] (pt_base t) (''/v1/print?name='' @ x_url_encode x nm) body) of
       Inl e \<Rightarrow> Inl e | Inr _ \<Rightarrow> Inr ())) a"

definition proxy_upload :: "ext \<Rightarrow> client \<Rightarrow> nat \<Rightarrow> string \<Rightarrow> string \<Rightarrow> bytes \<Rightarrow> admin
    \<Rightarrow> (proxy_err + upload_result) \<times> admin" where
  "proxy_upload x cl k nid nm body a = with_peer cl k nid (\<lambda>t.
     (case answer_text x cl True (pt_fingerprint t) (signed_post x (nd_identity (ad_node a)) cl k
         [] (pt_base t) (''/v1/upload?name='' @ x_url_encode x nm) body) of
       Inl e \<Rightarrow> Inl e | Inr txt \<Rightarrow> invalid_response (pj_upload (cl_json cl) txt))) a"

section \<open>What an answer rests on\<close>

text \<open>A response over a certificate that carries an Ed25519 key whose hash is the fingerprint.\<close>

definition pinned :: "ext \<Rightarrow> http_response \<Rightarrow> string \<Rightarrow> bool" where
  "pinned x r fp \<longleftrightarrow> (\<exists>cert key. rs_tls r = Some (Some cert)
     \<and> x_cert_spki x cert = Some (ED25519_SPKI_HEADER @ key) \<and> length key = 32
     \<and> eq_ignore_ascii_case (x_hex_encode x (x_sha256 x key)) fp)"

lemma spki_sha256_Some: "spki_sha256 x cert = Some d \<longleftrightarrow>
    (\<exists>key. x_cert_spki x cert = Some (ED25519_SPKI_HEADER @ key) \<and> length key = 32 \<and> d = x_sha256 x key)"
proof
  assume "spki_sha256 x cert = Some d"
  then obtain spki where s: "x_cert_spki x cert = Some spki" "length spki = 44"
    "take 12 spki = ED25519_SPKI_HEADER" "d = x_sha256 x (drop 12 spki)"
    by (auto simp: spki_sha256_def split: option.splits if_splits)
  then have "spki = ED25519_SPKI_HEADER @ drop 12 spki" using append_take_drop_id [of 12 spki] by simp
  then show "\<exists>key. x_cert_spki x cert = Some (ED25519_SPKI_HEADER @ key) \<and> length key = 32 \<and> d = x_sha256 x key"
    using s by (intro exI [of _ "drop 12 spki"]) auto
qed (auto simp: spki_sha256_def)

lemma peer_check_pinned:
  "(\<exists>got. peer_check x (rs_tls r) (Some fp) = Inr got) \<longleftrightarrow> pinned x r fp"
proof (cases "rs_tls r")
  case (Some c)
  then show ?thesis
  proof (cases c)
    case s: (Some cert)
    show ?thesis
    proof (cases "spki_sha256 x cert")
      case None
      then have "\<not> pinned x r fp" using Some s spki_sha256_Some [of x cert] by (force simp: pinned_def)
      then show ?thesis using None Some s by (simp add: peer_check_def spki_hex_of_def)
    next
      case d: (Some d)
      then obtain key where k: "x_cert_spki x cert = Some (ED25519_SPKI_HEADER @ key)" "length key = 32"
        "d = x_sha256 x key" by (auto simp: spki_sha256_Some)
      then show ?thesis using d Some s by (auto simp: peer_check_def spki_hex_of_def pinned_def)
    qed
  qed (simp add: peer_check_def spki_hex_of_def pinned_def)
qed (simp add: peer_check_def spki_hex_of_def pinned_def)

lemma peer_check_own:
  assumes "peer_check x (rs_tls r) None = Inr got" "eq_ignore_ascii_case got fp"
  shows "pinned x r fp"
proof -
  have "peer_check x (rs_tls r) (Some fp) = Inr got" using assms by (auto simp: peer_check_def split: sum.splits)
  then show ?thesis using peer_check_pinned by blast
qed

lemma send_pinned_Inr:
  "send_pinned x cl fp req = Inr r \<longleftrightarrow> cl_http cl req = Inr r \<and> pinned x r fp"
  unfolding peer_check_pinned [symmetric] by (auto simp: send_pinned_def split: sum.splits)

lemma answer_text_Inr:
  assumes "answer_text x cl newer fp req = Inr t"
  obtains r b where "cl_http cl req = Inr r" "pinned x r fp" "is_success (rs_status r)"
    "rs_body r = Inr b" "t = pj_text (cl_json cl) r b"
  using assms by (auto simp: answer_text_def body_text_def send_pinned_Inr split: sum.splits if_splits)

lemma peer_lookup_Inr:
  assumes "fst (peer_lookup now nid a) = Inr t"
  obtains c where "find_contact nid (contacts_of (ad_node a)) = Some c" "pt_fingerprint t = c_fingerprint c"
  using assms by (auto simp: peer_lookup_def split: option.splits prod.splits)

lemma peer_lookup_node [simp]: "ad_node (snd (peer_lookup now nid a)) = ad_node a"
  by (simp add: peer_lookup_def case_prod_beta split: option.split)

lemma with_peer_Inr:
  assumes "with_peer cl k nid f a = (Inr v, a')"
  obtains t where "fst (peer_lookup (cl_now cl k) nid a) = Inr t" "f t = Inr v"
  using assms by (cases "fst (peer_lookup (cl_now cl k) nid a)") (auto simp: with_peer_def case_prod_beta)

lemma with_peer_state [simp]: "snd (with_peer cl k nid f a) = snd (peer_lookup (cl_now cl k) nid a)"
  by (simp add: with_peer_def case_prod_beta)

lemma proxy_file_Inr:
  assumes "proxy_file x cl k nid path rng a = (Inr f, a')"
  obtains c base r where "find_contact nid (contacts_of (ad_node a)) = Some c"
    "cl_http cl (file_request x (nd_identity (ad_node a)) cl k base path rng) = Inr r"
    "pinned x r (c_fingerprint c)" "is_success (rs_status r)" "f = relay (cl_json cl) path r"
  using assms unfolding proxy_file_def
  by (elim with_peer_Inr peer_lookup_Inr) (auto simp: send_pinned_Inr split: sum.splits if_splits)

lemma proxy_upload_Inr:
  assumes "proxy_upload x cl k nid nm body a = (Inr u, a')"
  obtains c base r b where "find_contact nid (contacts_of (ad_node a)) = Some c"
    "cl_http cl (signed_post x (nd_identity (ad_node a)) cl k [] base (''/v1/upload?name='' @ x_url_encode x nm) body) = Inr r"
    "pinned x r (c_fingerprint c)" "is_success (rs_status r)" "rs_body r = Inr b"
    "pj_upload (cl_json cl) (pj_text (cl_json cl) r b) = Inr u"
  using assms unfolding proxy_upload_def
  by (elim with_peer_Inr peer_lookup_Inr)
    (auto simp: invalid_response_def split: sum.splits elim!: answer_text_Inr)

section \<open>The walk of an older peer\<close>

abbreviation fallback_hits :: "ext \<Rightarrow> string \<Rightarrow> dir_entry list \<Rightarrow> dir_entry list" where
  "fallback_hits x q es \<equiv> filter (\<lambda>e. contains q (x_to_lower x (de_name e))) es"

lemma fallback_first_files:
  assumes "\<forall>e \<in> set es. de_kind e = File"
  shows "fold (\<lambda>e w. fallback_entry x q e (fallback_visit w)) es w
    = w\<lparr>fb_visited := fb_visited w + length es, fb_results := fb_results w @ fallback_hits x q es\<rparr>"
  using assms by (induction es arbitrary: w) (auto simp: fallback_entry_def fallback_visit_def)

lemma fallback_scan_files:
  assumes "\<forall>e \<in> set es. de_kind e = File" "fb_visited w + length es \<le> MAX_VISITS"
  shows "fallback_scan x q es w
    = w\<lparr>fb_visited := fb_visited w + length es, fb_results := fb_results w @ fallback_hits x q es\<rparr>"
  using assms by (induction x q es w rule: fallback_scan.induct)
    (auto simp: Let_def fallback_entry_def fallback_visit_def)

text \<open>The walk lists the root before its loop and starts the loop with the root in the queue.\<close>

lemma fallback_flat:
  assumes "proxy_list x cl 0 nid [] a = (Inr v, a1)" "fst (proxy_list x cl 1 nid [] a1) = Inr v"
    and "pj_list (cl_json cl) v = Inr l"
    and "\<forall>e \<in> set (lr_entries l). de_kind e = File" "2 * length (lr_entries l) \<le> MAX_VISITS"
    and "length (fallback_hits x (x_to_lower x query) (lr_entries l)) < 200" "lr_entries l \<noteq> []"
  shows "fst (proxy_search_fallback x cl nid query a) = Inr \<lparr>sr_query = query, sr_truncated = False,
    sr_results = fallback_hits x (x_to_lower x query) (lr_entries l)
      @ fallback_hits x (x_to_lower x query) (lr_entries l)\<rparr>"
proof -
  let ?q = "x_to_lower x query" and ?es = "lr_entries l"
  let ?h = "fallback_hits x ?q ?es"
  obtain a2 where a2: "proxy_list x cl 1 nid [] a1 = (Inr v, a2)" using assms(2) by (metis prod.collapse)
  let ?w1 = "\<lparr>fb_queue = [[]], fb_visited = length ?es, fb_results = ?h, fb_truncated = False, fb_calls = 1, fb_admin = a1\<rparr>"
  have "fallback_list x cl nid [] (?w1\<lparr>fb_queue := []\<rparr>)
      = (Some l, \<lparr>fb_queue = [], fb_visited = length ?es, fb_results = ?h, fb_truncated = False, fb_calls = 2, fb_admin = a2\<rparr>)"
    using a2 assms(3) by (simp add: fallback_list_def)
  moreover have "\<not> (MAX_VISITS \<le> length ?es \<or> 200 \<le> length ?h)"
    using assms(5,6,7) by (cases ?es) auto
  ultimately have "fallback_loop x cl nid ?q ?w1 = \<lparr>fb_queue = [], fb_visited = length ?es + length ?es,
      fb_results = ?h @ ?h, fb_truncated = False, fb_calls = 2, fb_admin = a2\<rparr>"
    using fallback_scan_files [OF assms(4), of _ x ?q] assms(5)
    by (simp add: fallback_loop.simps [of x cl nid ?q])
  then show ?thesis
    using assms(1,3) fallback_first_files [OF assms(4), of x ?q] by (simp add: proxy_search_fallback_def Let_def)
qed

section \<open>Polling a decision\<close>

text \<open>The signed question of the pair verifier of @<doclinkd/src/store.rs> to one peer: its answer counts
  only over the certificate the contact was recorded with.\<close>

definition status_fetch :: "ext \<Rightarrow> node_identity \<Rightarrow> client \<Rightarrow> nat \<Rightarrow> string \<Rightarrow> string \<Rightarrow> string \<Rightarrow> pair_status option" where
  "status_fetch x i cl k base path_q fp = (case cl_http cl (signed_get x i cl k base path_q) of
     Inl _ \<Rightarrow> None
   | Inr r \<Rightarrow> (case peer_check x (rs_tls r) (Some fp) of
       Inl _ \<Rightarrow> None
     | Inr _ \<Rightarrow> (case (case rs_body r of Inl e \<Rightarrow> Inl e | Inr b \<Rightarrow> pj_pair_status (cl_json cl) b) of
         Inl _ \<Rightarrow> None | Inr st \<Rightarrow> Some (ps_status st))))"

section \<open>What a call changes\<close>

text \<open>A call to a peer changes the registry alone, by forgetting peers that are no longer seen.\<close>

definition browsed :: "admin \<Rightarrow> admin \<Rightarrow> bool" where
  "browsed a b \<longleftrightarrow> b = a\<lparr>ad_peers := ad_peers b\<rparr> \<and> (registry_ok (ad_peers a) \<longrightarrow> registry_ok (ad_peers b))"

lemma browsed_refl [simp, intro]: "browsed a a"
  by (simp add: browsed_def)

lemma browsed_trans: "browsed a b \<Longrightarrow> browsed b c \<Longrightarrow> browsed a c"
  unfolding browsed_def by (cases a, cases b, cases c) simp

lemma browsed_node: "browsed a b \<Longrightarrow> ad_node b = ad_node a"
  unfolding browsed_def by (metis admin.select_convs(1) admin.surjective admin.update_convs(2))

lemma browsed_registry: "browsed a b \<Longrightarrow> registry_ok (ad_peers a) \<Longrightarrow> registry_ok (ad_peers b)"
  unfolding browsed_def by (elim conjE) (rule mp)

lemma browsed_list_peers: "browsed a (snd (list_peers now a))"
  using registry_ok_snapshot [of "ad_peers a" now] by (simp add: browsed_def list_peers_def case_prod_beta)

lemma browsed_lookup: "browsed a (snd (peer_lookup now nid a))"
  using browsed_list_peers by (simp add: peer_lookup_def case_prod_beta split: option.split)

lemma browsed_calls:
  "browsed a (snd (proxy_list x cl k nid path a))" "browsed a (snd (proxy_search x cl k nid q a))"
  "browsed a (snd (proxy_file x cl k nid path rng a))" "browsed a (snd (proxy_print x cl k nid nm body a))"
  "browsed a (snd (proxy_upload x cl k nid nm body a))"
  by (simp_all add: proxy_list_def proxy_search_def proxy_file_def proxy_print_def proxy_upload_def browsed_lookup)

lemma browsed_fallback_list: "fallback_list x cl nid dir w = (r, w') \<Longrightarrow> browsed (fb_admin w) (fb_admin w')"
  using browsed_calls(1) by (auto simp: fallback_list_def split: prod.splits) (metis snd_conv)

lemma fallback_scan_admin [simp]: "fb_admin (fallback_scan x q es w) = fb_admin w"
  by (induction x q es w rule: fallback_scan.induct) (auto simp: Let_def fallback_visit_def)

lemma browsed_loop: "browsed (fb_admin w) (fb_admin (fallback_loop x cl nid q w))"
proof (induction x cl nid q w rule: fallback_loop.induct)
  case (1 x cl nid q w)
  show ?case
  proof (cases "fb_queue w")
    case (Cons dir rest)
    obtain r w' where l: "fallback_list x cl nid dir (w\<lparr>fb_queue := rest\<rparr>) = (r, w')" by force
    have b: "browsed (fb_admin w) (fb_admin w')" using browsed_fallback_list [OF l] by simp
    show ?thesis
    proof (cases "MAX_VISITS \<le> fb_visited w \<or> 200 \<le> length (fb_results w)")
      case False
      note IH = 1 [OF Cons False]
      show ?thesis
      proof (cases r)
        case None
        have "browsed (fb_admin w') (fb_admin (fallback_loop x cl nid q w'))"
          by (rule IH(1) [OF l [symmetric] None])
        then show ?thesis using browsed_trans [OF b] Cons False l None by (simp add: fallback_loop.simps [of x cl nid q w])
      next
        case (Some ls)
        have "browsed (fb_admin w') (fb_admin (fallback_loop x cl nid q (fallback_scan x q (lr_entries ls) w')))"
          using IH(2) [OF l [symmetric] Some] by simp
        then show ?thesis using browsed_trans [OF b] Cons False l Some by (simp add: fallback_loop.simps [of x cl nid q w])
      qed
    qed (simp add: fallback_loop.simps [of x cl nid q w] Cons)
  qed (simp add: fallback_loop.simps [of x cl nid q w])
qed

lemma browsed_search_fallback: "browsed a (snd (proxy_search_fallback x cl nid query a))"
proof -
  let ?q = "x_to_lower x query"
  have f: "fb_admin (fold (\<lambda>e w. fallback_entry x ?q e (fallback_visit w)) es w) = fb_admin w" for es w
    by (induction es arbitrary: w) (simp_all add: fallback_visit_def)
  obtain r a1 where l: "proxy_list x cl 0 nid [] a = (r, a1)" by force
  have a1: "browsed a a1" using browsed_calls(1) [of a x cl 0 nid "[]"] l by simp
  have "browsed a1 (snd (proxy_search_fallback x cl nid query a))"
    using l browsed_loop [of "fold (\<lambda>e w. fallback_entry x ?q e (fallback_visit w)) es
        \<lparr>fb_queue = [[]], fb_visited = 0, fb_results = [], fb_truncated = False, fb_calls = 1, fb_admin = a1\<rparr>"
        x cl nid ?q for es]
    by (auto simp: proxy_search_fallback_def Let_def f split: sum.split)
  then show ?thesis by (rule browsed_trans [OF a1])
qed

end
