(* ===== verification/Calls.thy ===== *)
theory Calls
  imports Prelude Externals Protocol Identity Events Store Files Share Node LocalPrint Registry Admin Proxy
begin

text \<open>The owner's operations that talk to other PCs, from @<doclinkd/src/admin.rs>: finding a PC, adding it
  as a contact, asking for its answer, sending, browsing, searching and printing through
  @<doclinkd/src/proxy.rs>.\<close>

abbreviation CONFLICT :: nat where "CONFLICT \<equiv> 409"
abbreviation UNPROCESSABLE_ENTITY :: nat where "UNPROCESSABLE_ENTITY \<equiv> 422"

fun proxy_error :: "proxy_err \<Rightarrow> http_error" where
  "proxy_error UnknownPeer = err NOT_FOUND ''unknown or offline peer''"
| "proxy_error UnsupportedPeer = err NOT_IMPLEMENTED older_peer"
| "proxy_error (Upstream m) = err BAD_GATEWAY m"

definition lift_proxy :: "proxy_err + 'a \<Rightarrow> http_error + 'a" where
  "lift_proxy r = (case r of Inl e \<Rightarrow> Inl (proxy_error e) | Inr v \<Rightarrow> Inr v)"

section \<open>Finding a PC\<close>

text \<open>The wait for discovery: @<polls> lists the readings of the registry's clock until the deadline, each
  with what the mDNS browser receives before the next one.\<close>

fun await_peer :: "string \<Rightarrow> (u64 \<times> (u64 \<times> mdns_event) list) list \<Rightarrow> admin \<Rightarrow> peer option \<times> admin" where
  "await_peer nid [] a = (None, a)"
| "await_peer nid ((now, evs) # polls) a = (let (ps, a) = list_peers now a in
     case List.find (\<lambda>p. p_node_id p = nid) ps of
       Some p \<Rightarrow> (Some p, a)
     | None \<Rightarrow> await_peer nid polls (a\<lparr>ad_peers :=
         fold (\<lambda>(t, ev). browser_event t (ni_node_id (nd_node (ad_node a))) ev) evs (ad_peers a)\<rparr>))"

definition discover_peer :: "admin_sys \<Rightarrow> admin_env \<Rightarrow> (u64 \<times> (u64 \<times> mdns_event) list) list \<Rightarrow> string \<Rightarrow> admin
    \<Rightarrow> (string \<times> string) option \<times> admin" where
  "discover_peer y n polls nid a = (let (p, a) = await_peer nid polls a in
     (case p of
       Some p \<Rightarrow> Some (peer_base_url (p_addr p) (p_http_port p), p_fingerprint p)
     | None \<Rightarrow> if ad_scan_enabled a
         then map_option (\<lambda>b. (b, [])) (find_node (sy_x (as_sys y)) (ae_my_ip n) (ae_get n) (ae_order n) nid)
         else None, a))"

definition resolve_peer_base :: "admin_sys \<Rightarrow> admin_env \<Rightarrow> (u64 \<times> (u64 \<times> mdns_event) list) list \<Rightarrow> string
    \<Rightarrow> string option \<Rightarrow> admin \<Rightarrow> (string \<times> string) option \<times> admin" where
  "resolve_peer_base y n polls nid manual a =
     (let h = (case manual of None \<Rightarrow> [] | Some h \<Rightarrow> trim h) in
      if h \<noteq> [] then (Some (''https://'' @ h, []), a) else discover_peer y n polls nid a)"

section \<open>Adding a PC\<close>

text \<open>The identity of a candidate: its certificate must hash to the fingerprint its answer names.\<close>

definition fetch_info :: "ext \<Rightarrow> client \<Rightarrow> string \<Rightarrow> string \<Rightarrow> http_error + node_info" where
  "fetch_info x cl base i = (case cl_http cl \<lparr>rq_method = ''GET'', rq_url = base @ ''/v1/info'', rq_headers = [],
       rq_body = []\<rparr> of
     Inl e \<Rightarrow> Inl (err BAD_GATEWAY (''peer unreachable: '' @ e))
   | Inr r \<Rightarrow> (case peer_check x (rs_tls r) None of
       Inl e \<Rightarrow> Inl (err BAD_GATEWAY e)
     | Inr cert_fp \<Rightarrow> (case (case rs_body r of Inl e \<Rightarrow> Inl e | Inr b \<Rightarrow> pj_info (cl_json cl) b) of
         Inl e \<Rightarrow> Inl (err BAD_GATEWAY (''bad peer response: '' @ e))
       | Inr info \<Rightarrow>
         if ni_node_id info \<noteq> i then Inl (err CONFLICT ''remote node_id mismatch'')
         else if \<not> eq_ignore_ascii_case cert_fp (ni_fingerprint info) then
           Inl (err CONFLICT (''peer certificate does not match its advertised fingerprint '' @ em_dash
             @ '' possible MITM''))
         else Inr info)))"

definition bad_id :: http_error where
  "bad_id = err BAD_REQUEST ''DocLink ID must be 16 hex characters''"

definition own_id :: http_error where
  "own_id = err BAD_REQUEST ''that's this PC's own DocLink ID''"

definition contact_fingerprint :: "admin_sys \<Rightarrow> admin_env \<Rightarrow> client \<Rightarrow> (u64 \<times> (u64 \<times> mdns_event) list) list
    \<Rightarrow> string \<Rightarrow> string option \<Rightarrow> admin \<Rightarrow> (http_error + node_info) \<times> admin" where
  "contact_fingerprint y n cl polls raw host a = (let
     x = sy_x (as_sys y);
     i = x_to_lower x (trim raw)
   in if \<not> valid_node_id i then (Inl bad_id, a)
      else if i = ni_node_id (nd_node (ad_node a)) then (Inl own_id, a)
      else (let (found, a) = resolve_peer_base y n polls i host a in
        (case found of
          None \<Rightarrow> Inl (err NOT_FOUND (''peer not found on the LAN '' @ em_dash
            @ '' check it is running DocLink, or set Host to its IP:port''))
        | Some (base, discovered_fp) \<Rightarrow> (case fetch_info x cl base i of
            Inl e \<Rightarrow> Inl e
          | Inr info \<Rightarrow>
            if discovered_fp \<noteq> [] \<and> discovered_fp \<noteq> ni_fingerprint info then
              Inl (err CONFLICT (''fingerprint mismatch between mDNS and /v1/info '' @ em_dash @ '' possible spoofing''))
            else Inr info), a)))"

record add_contact_body =
  ab_node_id :: string
  ab_alias :: string
  ab_host :: "string option"
  ab_duration_secs :: u64

definition signed_pair_request :: "ext \<Rightarrow> node_info \<Rightarrow> node_identity \<Rightarrow> u64 \<Rightarrow> pair_request" where
  "signed_pair_request x me i dur = (let
     req = \<lparr>pr_node_id = ni_node_id me, pr_name = ni_name me, pr_pubkey_hex = x_hex_encode x (verifying_key x i),
       pr_requested_duration_secs = dur, pr_signature = []\<rparr>
   in req\<lparr>pr_signature := x_hex_encode x (sign x i (canonical_request_string req))\<rparr>)"

text \<open>The pair request goes out over a connection that must show the same certificate again.\<close>

definition send_pair_request :: "ext \<Rightarrow> client \<Rightarrow> string \<Rightarrow> string \<Rightarrow> pair_request \<Rightarrow> http_error + pair_status_response" where
  "send_pair_request x cl base fp req = (case cl_http cl \<lparr>rq_method = ''POST'', rq_url = base @ ''/v1/pair/request'',
       rq_headers = [(''content-type'', ''application/json'')], rq_body = pj_pair_request (cl_json cl) req\<rparr> of
     Inl e \<Rightarrow> Inl (err BAD_GATEWAY (''pair request failed: '' @ e))
   | Inr r \<Rightarrow> (case peer_check x (rs_tls r) (Some fp) of
       Inl e \<Rightarrow> Inl (err BAD_GATEWAY e)
     | Inr _ \<Rightarrow> (case (case rs_body r of Inl e \<Rightarrow> Inl e | Inr b \<Rightarrow> pj_pair_status (cl_json cl) b) of
         Inl e \<Rightarrow> Inl (err BAD_GATEWAY (''bad pair response: '' @ e))
       | Inr st \<Rightarrow> Inr st)))"

fun status_text :: "pair_status \<Rightarrow> string" where
  "status_text Approved = ''approved''"
| "status_text Pending = ''pending''"
| "status_text Denied = ''denied''"
| "status_text Unknown = ''unknown''"

definition save_contact :: "admin_sys \<Rightarrow> env \<Rightarrow> contact \<Rightarrow> node \<Rightarrow> bool \<times> node" where
  "save_contact y n c s = (let (ok, st) = store_save (sy_contacts (as_sys y)) (en_faults n)
       ((nd_contacts s)\<lparr>st_data := contacts_upsert c (contacts_of s)\<rparr>) in (ok, s\<lparr>nd_contacts := st\<rparr>))"

definition add_contact :: "admin_sys \<Rightarrow> admin_env \<Rightarrow> client \<Rightarrow> (u64 \<times> (u64 \<times> mdns_event) list) list
    \<Rightarrow> add_contact_body \<Rightarrow> admin \<Rightarrow> (http_error + pair_status_response) \<times> admin" where
  "add_contact y n cl polls b a = (let
     x = sy_x (as_sys y);
     i = normalize_id x (ab_node_id b)
   in if \<not> valid_node_id i then (Inl bad_id, a)
      else if i = ni_node_id (nd_node (ad_node a)) then (Inl own_id, a)
      else (let (found, a) = resolve_peer_base y n polls i (ab_host b) a in case found of
        None \<Rightarrow> (Inl (err NOT_FOUND (''peer not found on the LAN '' @ em_dash
          @ '' check it is running DocLink and that both PCs are on the same subnet, or set Host (optional) to its IP:port (e.g. 192.168.1.20:37655)'')), a)
      | Some (base, _) \<Rightarrow> (case fetch_info x cl base i of
          Inl e \<Rightarrow> (Inl e, a)
        | Inr info \<Rightarrow> (case send_pair_request x cl base (ni_fingerprint info)
              (signed_pair_request x (nd_node (ad_node a)) (nd_identity (ad_node a)) (ab_duration_secs b)) of
            Inl e \<Rightarrow> (Inl e, a)
          | Inr st \<Rightarrow> (let (ok, s) = save_contact y (ae_env n) \<lparr>c_node_id = i, c_alias = ab_alias b,
                c_fingerprint = ni_fingerprint info, c_host = ab_host b, c_status = status_text (ps_status st)\<rparr>
                (ad_node a)
              in (if ok then Inr st else Inl save_failed, a\<lparr>ad_node := s\<rparr>))))))"

text \<open>The owner's look at the other side's decision.\<close>

definition contact_status :: "admin_sys \<Rightarrow> client \<Rightarrow> string \<Rightarrow> admin \<Rightarrow> (http_error + pair_status_response) \<times> admin" where
  "contact_status y cl nid a = (case find_contact nid (contacts_of (ad_node a)) of
     None \<Rightarrow> (Inl (err NOT_FOUND ''unknown contact''), a)
   | Some c \<Rightarrow> (let
       x = sy_x (as_sys y);
       (base, a) = (case c_host c of
           Some h \<Rightarrow> (Some (''https://'' @ h), a)
         | None \<Rightarrow> (let (ps, a) = list_peers (cl_now cl 0) a in
             (map_option (\<lambda>p. peer_base_url (p_addr p) (p_http_port p)) (List.find (\<lambda>p. p_node_id p = nid) ps), a)));
       path_q = ''/v1/pair/status?node_id='' @ x_url_encode x (ni_node_id (nd_node (ad_node a)))
     in (case base of
       None \<Rightarrow> Inl (err NOT_FOUND ''peer not currently reachable'')
     | Some base \<Rightarrow> (case cl_http cl (signed_get x (nd_identity (ad_node a)) cl 0 base path_q) of
         Inl e \<Rightarrow> Inl (err BAD_GATEWAY (''peer unreachable: '' @ e))
       | Inr r \<Rightarrow> (case peer_check x (rs_tls r) (Some (c_fingerprint c)) of
           Inl e \<Rightarrow> Inl (err BAD_GATEWAY e)
         | Inr _ \<Rightarrow> (case (case rs_body r of Inl e \<Rightarrow> Inl e | Inr b \<Rightarrow> pj_pair_status (cl_json cl) b) of
             Inl e \<Rightarrow> Inl (err BAD_GATEWAY (''bad peer response: '' @ e))
           | Inr st \<Rightarrow> Inr st))), a)))"

section \<open>Sending a file\<close>

text \<open>The first characters of a UTF-8 string.\<close>

fun take_chars :: "nat \<Rightarrow> string \<Rightarrow> string" where
  "take_chars k [] = []"
| "take_chars k (c # s) = (if is_cont c then c # take_chars k s
     else (case k of 0 \<Rightarrow> [] | Suc j \<Rightarrow> c # take_chars j s))"

definition ellipsis :: string where
  "ellipsis = [CHR 0xE2, CHR 0x80, CHR 0xA6]"

definition file_name :: "string \<Rightarrow> string" where
  "file_name path = last (split_on (CHR ''/'') path)"

definition contact_alias :: "string \<Rightarrow> contacts_file \<Rightarrow> string" where
  "contact_alias nid cs = (case find_contact nid cs of
     Some c \<Rightarrow> c_alias c | None \<Rightarrow> take_chars 8 nid @ ellipsis)"

fun own_share_err :: "share_error \<Rightarrow> http_error" where
  "own_share_err (NotFound p) = err NOT_FOUND ''file not found in your share''"
| "own_share_err OutsideRoot = err FORBIDDEN ''path outside share root''"
| "own_share_err IsRoot = err FORBIDDEN ''path outside share root''"
| "own_share_err Io = err INTERNAL_SERVER_ERROR ''share read error''"

text \<open>The file as it is sent: what stands in the owner's share, up to the size limit.\<close>

definition file_to_send :: "string \<Rightarrow> node \<Rightarrow> http_error + bytes" where
  "file_to_send path s = (case resolve (nd_fs s) (nd_share s) path of
     Inl e \<Rightarrow> Inl (own_share_err e)
   | Inr p \<Rightarrow> (case metadata (nd_fs s) p of
       None \<Rightarrow> Inl (err INTERNAL_SERVER_ERROR ''share read error'')
     | Some md \<Rightarrow>
       if \<not> node_is_file md then Inl (err BAD_REQUEST (''only files can be sent '' @ em_dash
         @ '' pick a file, not a folder''))
       else if nd_inbox_max s < node_len md then Inl (err PAYLOAD_TOO_LARGE
         (''file is too large to send ('' @ show_u64 (nd_inbox_max s div (1024 * 1024)) @ '' MiB limit)''))
       else (case read_file (nd_fs s) p of
         None \<Rightarrow> Inl (err INTERNAL_SERVER_ERROR ''share read error'')
       | Some content \<Rightarrow> Inr content)))"

record sent =
  sn_name :: string
  sn_stored :: string
  sn_to :: string

definition send_file :: "admin_sys \<Rightarrow> env \<Rightarrow> client \<Rightarrow> string \<Rightarrow> string \<Rightarrow> admin \<Rightarrow> (http_error + sent) \<times> admin" where
  "send_file y n cl nid path a =
     (if nid = [] \<or> path = [] then (Inl (err BAD_REQUEST ''contact and path are required''), a)
      else (case file_to_send path (ad_node a) of
        Inl e \<Rightarrow> (Inl e, a)
      | Inr content \<Rightarrow> (let (r, a) = proxy_upload (sy_x (as_sys y)) cl 0 nid (file_name path) content a in
          case r of
            Inl e \<Rightarrow> (Inl (proxy_error e), a)
          | Inr u \<Rightarrow> (let to = contact_alias nid (contacts_of (ad_node a)) in
              (Inr \<lparr>sn_name = file_name path, sn_stored = ur_name u, sn_to = to\<rparr>,
               a\<lparr>ad_node := push_event (en_clk n 0) ''inbox-sent'' (''Sent '' @ file_name path @ '' to '' @ to)
                 ''They can accept, download, or discard it in their Inbox.'' (ad_node a)\<rparr>)))))"

section \<open>Browsing a peer\<close>

definition browse_list :: "admin_sys \<Rightarrow> client \<Rightarrow> string \<Rightarrow> string \<Rightarrow> admin \<Rightarrow> (http_error + json) \<times> admin" where
  "browse_list y cl nid path a = (let (r, a) = proxy_list (sy_x (as_sys y)) cl 0 nid path a in
     (case r of Inl e \<Rightarrow> Inl (proxy_response e) | Inr v \<Rightarrow> Inr v, a))"

definition browse_file :: "admin_sys \<Rightarrow> client \<Rightarrow> headers \<Rightarrow> string \<Rightarrow> string \<Rightarrow> admin
    \<Rightarrow> (http_error + relayed) \<times> admin" where
  "browse_file y cl h nid path a = (let (r, a) = proxy_file (sy_x (as_sys y)) cl 0 nid path (h ''range'') a in
     (case r of Inl e \<Rightarrow> Inl (proxy_response e) | Inr v \<Rightarrow> Inr v, a))"

text \<open>A preview: the content type is the extension's, whatever the peer says, and nothing may run.\<close>

definition set_header :: "string \<Rightarrow> string \<Rightarrow> (string \<times> string) list \<Rightarrow> (string \<times> string) list" where
  "set_header k v hs = filter (\<lambda>e. fst e \<noteq> k) hs @ [(k, v)]"

definition preview :: "admin_sys \<Rightarrow> string \<Rightarrow> relayed \<Rightarrow> relayed" where
  "preview y path f = (let
     nm = map (\<lambda>c. if c = CHR 0x22 then CHR 0x27 else c) (file_name path);
     disp = ''inline; filename='' @ [CHR 0x22] @ nm @ [CHR 0x22];
     hs = set_header ''content-type'' (preview_mime path) (rl_headers f);
     hs = (if sy_header_value (as_sys y) disp then set_header ''content-disposition'' disp hs else hs);
     hs = set_header ''content-security-policy'' (''default-src '' @ [CHR 0x27] @ ''none'' @ [CHR 0x27] @ ''; sandbox'') hs
   in f\<lparr>rl_headers := set_header ''x-content-type-options'' ''nosniff'' hs\<rparr>)"

definition browse_raw :: "admin_sys \<Rightarrow> client \<Rightarrow> headers \<Rightarrow> string \<Rightarrow> string \<Rightarrow> admin
    \<Rightarrow> (http_error + relayed) \<times> admin" where
  "browse_raw y cl h nid path a = (let (r, a) = proxy_file (sy_x (as_sys y)) cl 0 nid path (h ''range'') a in
     (case r of Inl e \<Rightarrow> Inl (proxy_response e) | Inr f \<Rightarrow> Inr (preview y path f), a))"

section \<open>Searching every peer\<close>

record search_slice =
  sl_node_id :: string
  sl_alias :: string
  sl_online :: bool
  sl_error :: "string option"
  sl_truncated :: bool
  sl_results :: "dir_entry list"

text \<open>The search of one peer; an older one is walked through its listings.\<close>

definition search_peer :: "ext \<Rightarrow> client \<Rightarrow> client \<Rightarrow> string \<Rightarrow> string \<times> string \<Rightarrow> admin \<Rightarrow> search_slice \<times> admin" where
  "search_peer x cl cl2 query target a = (let
     (nid, alias) = target;
     failed = (\<lambda>m. \<lparr>sl_node_id = nid, sl_alias = alias, sl_online = False, sl_error = Some m, sl_truncated = False,
       sl_results = []\<rparr>);
     found = (\<lambda>e r. \<lparr>sl_node_id = nid, sl_alias = alias, sl_online = True, sl_error = e,
       sl_truncated = sr_truncated r, sl_results = sr_results r\<rparr>);
     (r, a) = proxy_search x cl 0 nid query a
   in case r of
     Inr r \<Rightarrow> (found None r, a)
   | Inl UnsupportedPeer \<Rightarrow> (let (r, a) = proxy_search_fallback x cl2 nid query a in
       (case r of
         Inr r \<Rightarrow> found (Some (''older DocLink '' @ em_dash @ '' best-effort results'')) r
       | Inl _ \<Rightarrow> failed (''older DocLink without search '' @ em_dash @ '' update it''), a))
   | Inl UnknownPeer \<Rightarrow> (failed ''offline'', a)
   | Inl (Upstream m) \<Rightarrow> (failed m, a))"

text \<open>The searches of all peers run at once: @<order> lists the targets as their searches end. The slices
  are sorted by the number of hits, most first, then by alias.\<close>

fun search_peers :: "ext \<Rightarrow> (nat \<Rightarrow> client \<times> client) \<Rightarrow> string \<Rightarrow> (string \<times> string) list \<Rightarrow> nat list \<Rightarrow> admin
    \<Rightarrow> search_slice list \<times> admin" where
  "search_peers x cls query targets [] a = ([], a)"
| "search_peers x cls query targets (k # ks) a = (let
     (sl, a) = search_peer x (fst (cls k)) (snd (cls k)) query (targets ! k) a;
     (sls, a) = search_peers x cls query targets ks a
   in (sl # sls, a))"

definition slice_key :: "ext \<Rightarrow> search_slice \<Rightarrow> int \<times> string" where
  "slice_key x sl = (- int (length (sl_results sl)), x_to_lower x (sl_alias sl))"

definition approved_targets :: "contacts_file \<Rightarrow> (string \<times> string) list" where
  "approved_targets cs = map (\<lambda>c. (c_node_id c, c_alias c)) (filter (\<lambda>c. c_status c = ''approved'') cs)"

definition search_all :: "admin_sys \<Rightarrow> (nat \<Rightarrow> client \<times> client) \<Rightarrow> nat list \<Rightarrow> string \<Rightarrow> admin
    \<Rightarrow> (http_error + search_slice list) \<times> admin" where
  "search_all y cls order q a = (let x = sy_x (as_sys y); query = trim q in
     if chars_count query < 2 then (Inl (err BAD_REQUEST ''search term must be at least 2 characters''), a)
     else (let
       targets = approved_targets (contacts_of (ad_node a));
       (sls, a) = search_peers x cls query targets (filter (\<lambda>k. k < length targets) order) a
     in (Inr (sort_key (slice_key x) sls), a)))"

section \<open>Printing on other PCs\<close>

record print_on_body =
  po_path :: string
  po_source_node_id :: string
  po_source_path :: "string option"

definition too_big_to_print :: http_error where
  "too_big_to_print = err PAYLOAD_TOO_LARGE ''file exceeds PrintLink size limit (100 MiB)''"

text \<open>Reading a relayed body whole, up to a limit.\<close>

definition read_relayed :: "nat \<Rightarrow> relayed \<Rightarrow> http_error + bytes" where
  "read_relayed limit f = (case rl_body f of
     Inl e \<Rightarrow> Inl (err BAD_GATEWAY (''download failed: '' @ e))
   | Inr b \<Rightarrow> if limit < length b then Inl (err BAD_GATEWAY ''download failed: length limit exceeded'') else Inr b)"

definition print_source :: "admin_sys \<Rightarrow> client \<Rightarrow> string \<Rightarrow> string \<Rightarrow> admin \<Rightarrow> (http_error + bytes) \<times> admin" where
  "print_source y cl source path a =
     (if source = ''mine'' \<or> source = ni_node_id (nd_node (ad_node a)) then
        ((case resolve (nd_fs (ad_node a)) (nd_share (ad_node a)) path of
           Inl e \<Rightarrow> Inl (share_err e)
         | Inr p \<Rightarrow> (case read_file (nd_fs (ad_node a)) p of
             None \<Rightarrow> Inl (err NOT_FOUND ''file not found: I/O error'') | Some content \<Rightarrow> Inr content)), a)
      else (let (r, a) = proxy_file (sy_x (as_sys y)) cl 0 source path None a in
        (case r of
          Inl e \<Rightarrow> Inl (proxy_error e)
        | Inr f \<Rightarrow> read_relayed (MAX_JOB_BYTES + 1) f, a)))"

definition print_on_peer_admin :: "admin_sys \<Rightarrow> client \<Rightarrow> string \<Rightarrow> print_on_body \<Rightarrow> admin
    \<Rightarrow> (http_error + unit) \<times> admin" where
  "print_on_peer_admin y cl target b a = (let
     path = (case po_source_path b of Some p \<Rightarrow> p | None \<Rightarrow> po_path b);
     source = (if po_source_node_id b = [] then ''mine'' else po_source_node_id b)
   in if path = [] then (Inl (err BAD_REQUEST ''path must name a file''), a)
      else (let (r, a) = print_source y cl source path a in case r of
        Inl e \<Rightarrow> (Inl e, a)
      | Inr content \<Rightarrow>
        if MAX_JOB_BYTES < length content then (Inl too_big_to_print, a)
        else (let (r, a) = proxy_print (sy_x (as_sys y)) cl 1 target (file_name path) content a in
          (lift_proxy r, a))))"

text \<open>Printing a peer's file here: the file is staged under a name without the characters the file
  system reserves and handed to the shell. @<stage> writes the staged file, @<shell> prints it.\<close>

definition safe_print_name :: "string \<Rightarrow> string" where
  "safe_print_name nm = map (\<lambda>c. if c \<in> {CHR ''/'', CHR 0x5C, CHR '':'', CHR ''*'', CHR ''?'', CHR 0x22, CHR ''<'',
     CHR ''>'', CHR ''|''} then CHR ''_'' else c) nm"

definition print_remote :: "admin_sys \<Rightarrow> client \<Rightarrow> nat \<Rightarrow> (string \<Rightarrow> bytes \<Rightarrow> bool) \<Rightarrow> (string \<Rightarrow> string + unit)
    \<Rightarrow> string \<Rightarrow> string \<Rightarrow> admin \<Rightarrow> (http_error + unit) \<times> admin" where
  "print_remote y cl stamp stage shell nid path a =
     (if path = [] then (Inl (err BAD_REQUEST ''path must name a file''), a)
      else (let (r, a) = proxy_file (sy_x (as_sys y)) cl 0 nid path None a in
        (case r of
          Inl e \<Rightarrow> Inl (proxy_error e)
        | Inr f \<Rightarrow> (case read_relayed (2 * 1024 * 1024 * 1024) f of
            Inl e \<Rightarrow> Inl e
          | Inr content \<Rightarrow> (let target = show_nat stamp @ ''-'' @ safe_print_name (file_name path) in
              if \<not> stage target content then Inl (err INTERNAL_SERVER_ERROR ''staging failed: I/O error'')
              else (case shell target of Inl m \<Rightarrow> Inl (err UNPROCESSABLE_ENTITY m) | Inr _ \<Rightarrow> Inr ()))), a)))"

section \<open>What the calls rest on\<close>

lemma fetch_info_Inr:
  assumes "fetch_info x cl base i = Inr info"
  obtains r where "cl_http cl \<lparr>rq_method = ''GET'', rq_url = base @ ''/v1/info'', rq_headers = [], rq_body = []\<rparr> = Inr r"
    "pinned x r (ni_fingerprint info)" "ni_node_id info = i"
  using assms unfolding fetch_info_def by (auto split: sum.splits if_splits dest: peer_check_own)

lemma send_pair_request_Inr:
  assumes "send_pair_request x cl base fp req = Inr st"
  obtains r where "cl_http cl \<lparr>rq_method = ''POST'', rq_url = base @ ''/v1/pair/request'',
      rq_headers = [(''content-type'', ''application/json'')], rq_body = pj_pair_request (cl_json cl) req\<rparr> = Inr r"
    "pinned x r fp"
  using assms peer_check_pinned unfolding send_pair_request_def by (fastforce split: sum.splits)

lemma file_to_send_Inr:
  assumes "file_to_send path s = Inr content"
  obtains p where "resolve (nd_fs s) (nd_share s) path = Inr p" "read_file (nd_fs s) p = Some content"
  using assms by (auto simp: file_to_send_def split: sum.splits option.splits if_splits)

lemma send_file_Inr:
  assumes "fst (send_file y n cl nid path a) = Inr r"
  obtains content u where "file_to_send path (ad_node a) = Inr content"
    "fst (proxy_upload (sy_x (as_sys y)) cl 0 nid (file_name path) content a) = Inr u"
    "sn_stored r = ur_name u" "sn_name r = file_name path"
  using assms unfolding send_file_def Let_def
  by (auto split: if_splits prod.splits sum.splits)

section \<open>What the calls change\<close>

lemma browsed_events:
  "browsed a (a\<lparr>ad_peers := fold (\<lambda>(t, ev). browser_event t me ev) evs (ad_peers a)\<rparr>)"
proof -
  have "registry_ok r \<Longrightarrow> registry_ok (fold (\<lambda>(t, ev). browser_event t me ev) evs r)" for r
    by (induction evs arbitrary: r) (auto simp: registry_ok_event)
  then show ?thesis by (simp add: browsed_def)
qed

lemma browsed_await: "browsed a (snd (await_peer nid polls a))"
proof (induction nid polls a rule: await_peer.induct)
  case (2 nid now evs polls a)
  obtain ps a1 where l: "list_peers now a = (ps, a1)" by force
  have a1: "browsed a a1" using browsed_list_peers [of a now] l by simp
  let ?a2 = "a1\<lparr>ad_peers := fold (\<lambda>(t, ev). browser_event t (ni_node_id (nd_node (ad_node a1))) ev) evs (ad_peers a1)\<rparr>"
  have a2: "browsed a ?a2" by (rule browsed_trans [OF a1 browsed_events])
  show ?case
  proof (cases "List.find (\<lambda>p. p_node_id p = nid) ps")
    case None
    show ?thesis using browsed_trans [OF a2 2 [OF l [symmetric] refl None]] l None by simp
  qed (use l a1 in simp)
qed simp

lemma browsed_resolve: "browsed a (snd (resolve_peer_base y n polls nid manual a))"
  using browsed_await by (simp add: resolve_peer_base_def discover_peer_def case_prod_beta Let_def)

lemma browsed_owner_calls:
  "browsed a (snd (contact_fingerprint y n cl polls raw host a))" "browsed a (snd (contact_status y cl nid a))"
  "browsed a (snd (browse_list y cl nid path a))" "browsed a (snd (browse_file y cl h nid path a))"
  "browsed a (snd (browse_raw y cl h nid path a))" "browsed a (snd (print_remote y cl stamp stage shell nid path a))"
  "browsed a (snd (print_source y cl source path a))"
  using browsed_resolve browsed_list_peers browsed_calls
  by (simp_all add: contact_fingerprint_def contact_status_def browse_list_def browse_file_def browse_raw_def
      print_remote_def print_source_def case_prod_beta Let_def split: option.split)

lemma browsed_print_on: "browsed a (snd (print_on_peer_admin y cl target b a))"
proof -
  have "browsed a (snd (let (r, a) = print_source y cl source path a in case r of
        Inl e \<Rightarrow> (Inl e, a)
      | Inr content \<Rightarrow>
        if MAX_JOB_BYTES < length content then (Inl too_big_to_print, a)
        else (let (r, a) = proxy_print (sy_x (as_sys y)) cl 1 target (file_name path) content a in
          (lift_proxy r, a))))" for source path
    using browsed_owner_calls(7) [of a y cl source path]
      browsed_trans [OF browsed_owner_calls(7) [of a y cl source path] browsed_calls(4)]
    by (auto simp: case_prod_beta split: sum.split)
  then show ?thesis by (simp add: print_on_peer_admin_def Let_def)
qed

lemma browsed_search_peer: "browsed a (snd (search_peer x cl cl2 query target a))"
proof -
  obtain nid al where t: "target = (nid, al)" by force
  obtain r a1 where s: "proxy_search x cl 0 nid query a = (r, a1)" by force
  have a1: "browsed a a1" using browsed_calls(2) [of a x cl 0 nid query] s by simp
  then have "browsed a (snd (proxy_search_fallback x cl2 nid query a1))"
    by (rule browsed_trans [OF _ browsed_search_fallback])
  then show ?thesis using a1 s t
    by (auto simp: search_peer_def Let_def case_prod_beta split: sum.split proxy_err.split)
qed

lemma browsed_search_peers: "browsed a (snd (search_peers x cls query targets ks a))"
proof (induction ks arbitrary: a)
  case (Cons k ks)
  show ?case using browsed_trans [OF browsed_search_peer Cons] by (simp add: Let_def case_prod_beta)
qed simp

lemma browsed_search_all: "browsed a (snd (search_all y cls order q a))"
  using browsed_search_peers by (simp add: search_all_def Let_def case_prod_beta)

text \<open>Adding a contact also changes the contacts, sending a file also the events.\<close>

definition called :: "admin \<Rightarrow> admin \<Rightarrow> bool" where
  "called a b \<longleftrightarrow> nd_grants (ad_node b) = nd_grants (ad_node a) \<and> nd_pairing (ad_node b) = nd_pairing (ad_node a)
     \<and> (length (items (nd_events (ad_node a))) \<le> CAP \<longrightarrow> length (items (nd_events (ad_node b))) \<le> CAP)
     \<and> (registry_ok (ad_peers a) \<longrightarrow> registry_ok (ad_peers b))"

lemma called_refl [simp]: "called a a"
  by (simp add: called_def)

lemma browsed_called: "browsed a b \<Longrightarrow> called a b"
  using browsed_node [of a b] by (simp add: called_def browsed_registry)

lemma called_contact: "called a b \<Longrightarrow> called a (b\<lparr>ad_node := snd (save_contact y n c (ad_node b))\<rparr>)"
  by (simp add: called_def save_contact_def case_prod_beta)

lemma called_event: "called a b \<Longrightarrow> called a (b\<lparr>ad_node := push_event now k t m (ad_node b)\<rparr>)"
  using push_items_cap by (simp add: called_def push_event_def)

lemma called_add_contact: "called a (snd (add_contact y n cl polls body a))"
proof -
  obtain found a1 where r: "resolve_peer_base y n polls (normalize_id (sy_x (as_sys y)) (ab_node_id body)) (ab_host body) a
      = (found, a1)" by force
  have a1: "called a a1"
    using browsed_called [OF browsed_resolve [of a y n polls "normalize_id (sy_x (as_sys y)) (ab_node_id body)" "ab_host body"]]
    unfolding r snd_conv .
  show ?thesis
    unfolding add_contact_def Let_def r prod.case case_prod_beta
    by (auto intro: a1 called_contact split: option.split sum.split if_split)
qed

lemma save_contact_data: "save_contact y n c s = (ok, s') \<Longrightarrow> contacts_of s' = contacts_upsert c (contacts_of s)"
  by (auto simp: save_contact_def case_prod_beta)

lemma add_contact_Inr:
  assumes "add_contact y n cl polls b a = (Inr st, a')"
  obtains base info where
    "fetch_info (sy_x (as_sys y)) cl base (normalize_id (sy_x (as_sys y)) (ab_node_id b)) = Inr info"
    "send_pair_request (sy_x (as_sys y)) cl base (ni_fingerprint info) (signed_pair_request (sy_x (as_sys y))
        (nd_node (ad_node a)) (nd_identity (ad_node a)) (ab_duration_secs b)) = Inr st"
    "contacts_of (ad_node a') = contacts_upsert \<lparr>c_node_id = normalize_id (sy_x (as_sys y)) (ab_node_id b),
        c_alias = ab_alias b, c_fingerprint = ni_fingerprint info, c_host = ab_host b,
        c_status = status_text (ps_status st)\<rparr> (contacts_of (ad_node a))"
proof -
  let ?i = "normalize_id (sy_x (as_sys y)) (ab_node_id b)"
  obtain found a1 where r: "resolve_peer_base y n polls ?i (ab_host b) a = (found, a1)" by force
  have n: "ad_node a1 = ad_node a"
    using browsed_node [OF browsed_resolve [of a y n polls ?i "ab_host b"]] by (simp add: r)
  show ?thesis using assms that unfolding add_contact_def Let_def r prod.case
    by (auto simp: n dest!: save_contact_data split: if_splits prod.splits option.splits sum.splits)
qed

lemma called_send_file: "called a (snd (send_file y n cl nid path a))"
proof -
  have u: "called a (snd (proxy_upload x cl 0 nid nm body a))" for x nm body
    by (rule browsed_called [OF browsed_calls(5)])
  show ?thesis
    unfolding send_file_def Let_def case_prod_beta
    by (auto intro: u called_event split: sum.split if_split)
qed

end
