(* ===== verification/Wire.thy ===== *)
theory Wire
  imports Prelude Externals Protocol Identity Node Auth DataPlane Registry Admin Proxy
begin

text \<open>Two nodes on one network: the calls of @<doclinkd/src/proxy.rs> on one side, the routes of
  @<doclinkd/src/server.rs> on the other. What the web framework, the TLS library and the JSON crate do in
  between is a record of functions.\<close>

section \<open>A node behind its address\<close>

record wire =
  wi_base :: string
  wi_ip :: "string option"
  wi_cert :: bytes
  wi_decode :: "string \<Rightarrow> string option"
  wi_json :: "dp_response \<Rightarrow> bytes"
  wi_error :: "http_error \<Rightarrow> bytes"
  wi_other :: "http_request \<Rightarrow> nat \<times> bytes"

text \<open>The routes that take a query, with the name of its one parameter, and those that take none.\<close>

definition query_routes :: "(string \<times> string \<times> (string \<Rightarrow> bytes \<Rightarrow> dp_request)) list" where
  "query_routes = [(''GET'', ''/v1/list?path='', \<lambda>q b. GetList q), (''GET'', ''/v1/file?path='', \<lambda>q b. GetFile q),
     (''GET'', ''/v1/search?q='', \<lambda>q b. GetSearch q), (''POST'', ''/v1/upload?name='', PostUpload),
     (''POST'', ''/v1/print?name='', PostPrint), (''GET'', ''/v1/pair/status?node_id='', \<lambda>q b. GetPairStatus q)]"

definition plain_routes :: "(string \<times> string \<times> (bytes \<Rightarrow> dp_request)) list" where
  "plain_routes = [(''GET'', ''/v1/info'', \<lambda>b. GetInfo), (''POST'', ''/v1/pair/request'', PostPairRequest),
     (''POST'', ''/v1/pair/decision'', PostPairDecision)]"

fun route_query :: "wire \<Rightarrow> string \<Rightarrow> string \<Rightarrow> bytes \<Rightarrow> (string \<times> string \<times> (string \<Rightarrow> bytes \<Rightarrow> dp_request)) list
    \<Rightarrow> dp_request option" where
  "route_query w m u b [] = None"
| "route_query w m u b ((m', pre, f) # rs) = (case strip_prefix pre u of
     Some v \<Rightarrow> if m = m' then map_option (\<lambda>q. f q b) (wi_decode w v) else route_query w m u b rs
   | None \<Rightarrow> route_query w m u b rs)"

definition route_request :: "wire \<Rightarrow> http_request \<Rightarrow> dp_request option" where
  "route_request w rq = (case strip_prefix (wi_base w) (rq_url rq) of
     None \<Rightarrow> None
   | Some u \<Rightarrow> (case List.find (\<lambda>(m, p, f). m = rq_method rq \<and> p = u) plain_routes of
       Some (m, p, f) \<Rightarrow> Some (f (rq_body rq))
     | None \<Rightarrow> route_query w (rq_method rq) u (rq_body rq) query_routes))"

fun response_status :: "dp_response \<Rightarrow> nat" where
  "response_status (OkFile d) = dl_status d"
| "response_status OkNoContent = 204"
| "response_status (Refusal e) = he_status e"
| "response_status _ = 200"

definition response_headers :: "dp_response \<Rightarrow> headers" where
  "response_headers r = (case r of OkFile d \<Rightarrow> map_of (dl_headers d)
     | _ \<Rightarrow> (\<lambda>_. None)(''content-type'' := Some ''application/json''))"

definition response_body :: "wire \<Rightarrow> dp_response \<Rightarrow> bytes" where
  "response_body w r = (case r of OkFile d \<Rightarrow> dl_stream d | OkNoContent \<Rightarrow> []
     | Refusal e \<Rightarrow> wi_error w e | _ \<Rightarrow> wi_json w r)"

definition as_response :: "wire \<Rightarrow> dp_response \<Rightarrow> http_response" where
  "as_response w r = \<lparr>rs_tls = Some (Some (wi_cert w)), rs_status = response_status r,
     rs_headers = response_headers r, rs_body = Inr (response_body w r)\<rparr>"

text \<open>A request no route takes (an unknown path, a wrong method, a query that cannot be read) is answered
  by the framework, @<wi_other>.\<close>

definition no_route :: "wire \<Rightarrow> http_request \<Rightarrow> http_response" where
  "no_route w rq = \<lparr>rs_tls = Some (Some (wi_cert w)), rs_status = fst (wi_other w rq), rs_headers = (\<lambda>_. None),
     rs_body = Inr (snd (wi_other w rq))\<rparr>"

definition node_http :: "sys \<Rightarrow> env \<Rightarrow> wire \<Rightarrow> node \<Rightarrow> http" where
  "node_http y n w s rq = Inr (case route_request w rq of
     None \<Rightarrow> no_route w rq
   | Some req \<Rightarrow> as_response w (fst (serve y n (wi_ip w) (map_of (rq_headers rq)) req s)))"

definition node_after :: "sys \<Rightarrow> env \<Rightarrow> wire \<Rightarrow> node \<Rightarrow> http_request \<Rightarrow> node" where
  "node_after y n w s rq = (case route_request w rq of
     None \<Rightarrow> s | Some req \<Rightarrow> snd (serve y n (wi_ip w) (map_of (rq_headers rq)) req s))"

lemma route_query_routes:
  "route_request w rq = Some (GetFile q)"
  if "rq_url rq = wi_base w @ ''/v1/file?path='' @ v" "rq_method rq = ''GET''" "wi_decode w v = Some q"
  using that by (simp add: route_request_def plain_routes_def query_routes_def strip_prefix_def)

lemma route_upload:
  "route_request w rq = Some (PostUpload q (rq_body rq))"
  if "rq_url rq = wi_base w @ ''/v1/upload?name='' @ v" "rq_method rq = ''POST''" "wi_decode w v = Some q"
  using that by (simp add: route_request_def plain_routes_def query_routes_def strip_prefix_def)

lemma route_list:
  "route_request w rq = Some (GetList q)"
  if "rq_url rq = wi_base w @ ''/v1/list?path='' @ v" "rq_method rq = ''GET''" "wi_decode w v = Some q"
  using that by (simp add: route_request_def plain_routes_def query_routes_def strip_prefix_def)

section \<open>A peer that honours the caller\<close>

definition honours :: "sys \<Rightarrow> env \<Rightarrow> node \<Rightarrow> node_identity \<Rightarrow> grant \<Rightarrow> bool" where
  "honours y n s i g \<longleftrightarrow> List.find (\<lambda>g. g_node_id g = node_id (sy_x y) i) (grants_of s) = Some g
     \<and> g_fingerprint g = fingerprint (sy_x y) i \<and> grant_live (en_clk n 2) g"

definition fresh_call :: "sys \<Rightarrow> env \<Rightarrow> node \<Rightarrow> u64 \<Rightarrow> (string \<times> string) list \<Rightarrow> bool" where
  "fresh_call y n s t hs \<longleftrightarrow> abs_diff (en_clk n 0) t \<le> MAX_SKEW_SECS
     \<and> (case map_of hs ''x-doclink-sig'' of None \<Rightarrow> False
       | Some sg \<Rightarrow> map_of (purge_seen (en_clk n 1) (nd_seen s)) sg = None)"

lemma with_grant_honoured:
  assumes "hex_laws (sy_x y)" "sig_laws (sy_x y)" "honours y n s i g"
    and "fresh_call y n s t (auth_headers_body (sy_x y) i t nb m pq body)"
    and "\<And>seen. fst (k g (s\<lparr>nd_seen := seen\<rparr>)) = r"
  shows "fst (with_grant y n (map_of (auth_headers_body (sy_x y) i t nb m pq body)) m pq body k s) = r"
proof -
  obtain sg where sg: "map_of (auth_headers_body (sy_x y) i t nb m pq body) ''x-doclink-sig'' = Some sg"
    "map_of (purge_seen (en_clk n 1) (nd_seen s)) sg = None" "abs_diff (en_clk n 0) t \<le> MAX_SKEW_SECS"
    using assms(4) by (auto simp: fresh_call_def split: option.splits)
  show ?thesis
    using honest_accepted [OF assms(1,2) refl sg(3,1,2)] assms(3,5) by (simp add: with_grant_def honours_def)
qed

text \<open>The certificate of a node carries its identity key.\<close>

lemma own_cert_pinned:
  assumes "sig_laws x" "x_cert_spki x cert = Some (ED25519_SPKI_HEADER @ verifying_key x i)"
    "rs_tls r = Some (Some cert)"
  shows "pinned x r (fingerprint x i)"
  using assms by (auto simp: pinned_def sig_laws_def verifying_key_def fingerprint_def eq_ignore_ascii_case_def)

section \<open>A download across the wire\<close>

lemma serve_whole_file:
  "\<exists>d. serve_file y None p content = Inr d \<and> dl_status d = 200 \<and> dl_stream d = content
    \<and> map_of (dl_headers d) ''content-range'' = None"
  by (auto simp: serve_file_def Let_def range_parts_def parse_range_def)

lemma auth_headers_no_range: "map_of (auth_headers_body x i t nb m pq b) ''range'' = None"
  by (simp add: auth_headers_body_def Let_def)

lemma remote_download:
  assumes laws: "hex_laws (sy_x y)" "sig_laws (sy_x y)" and net: "cl_http cl = node_http y n w s"
    and peer: "fst (peer_lookup (cl_now cl k) nid a) = Inr \<lparr>pt_base = wi_base w, pt_fingerprint = fingerprint (sy_x y) ib\<rparr>"
    and cert: "x_cert_spki (sy_x y) (wi_cert w) = Some (ED25519_SPKI_HEADER @ verifying_key (sy_x y) ib)"
    and url: "wi_decode w (x_url_encode (sy_x y) path) = Some path"
    and trust: "honours y n s (nd_identity (ad_node a)) g"
    and fresh: "fresh_call y n s (cl_ts cl k) (auth_headers (sy_x y) (nd_identity (ad_node a)) (cl_ts cl k)
        (cl_nonce cl k) ''GET'' (file_path_q (sy_x y) path))"
    and scope: "g_allow_files g" "can_read_file (g_paths g) path"
    and disk: "resolve (nd_fs s) (nd_share s) path = Inr p" "read_file (nd_fs s) p = Some content"
  shows "\<exists>f. fst (proxy_file (sy_x y) cl k nid path None a) = Inr f \<and> rl_status f = 200 \<and> rl_body f = Inr content"
proof -
  let ?x = "sy_x y" and ?i = "nd_identity (ad_node a)"
  let ?rq = "file_request ?x ?i cl k (wi_base w) path None"
  let ?h = "map_of (auth_headers_body ?x ?i (cl_ts cl k) (cl_nonce cl k) ''GET'' (file_path_q ?x path) [])"
  obtain d where d: "serve_file y None p content = Inr d" "dl_status d = 200" "dl_stream d = content"
    "map_of (dl_headers d) ''content-range'' = None" using serve_whole_file by blast
  have rq: "rq_url ?rq = wi_base w @ ''/v1/file?path='' @ x_url_encode ?x path" "rq_method ?rq = ''GET''"
    "map_of (rq_headers ?rq) = ?h"
    by (simp_all add: file_request_def signed_get_def auth_headers_def file_path_q_def)
  have "fst (file_handler y n ?h path s) = Inr d"
    unfolding file_handler_def
    by (rule with_grant_honoured [OF laws trust fresh [unfolded auth_headers_def]])
      (use scope disk d(1) auth_headers_no_range in simp)
  then have "cl_http cl ?rq = Inr (as_response w (OkFile d))"
    using route_query_routes [OF rq(1,2) url] rq(3)
    by (simp add: net node_http_def serve_def answer_def)
  moreover have "pinned ?x (as_response w (OkFile d)) (fingerprint ?x ib)"
    by (rule own_cert_pinned [OF laws(2) cert]) (simp add: as_response_def)
  ultimately have "send_pinned ?x cl (fingerprint ?x ib) ?rq = Inr (as_response w (OkFile d))"
    by (simp add: send_pinned_Inr)
  then have "fst (proxy_file ?x cl k nid path None a) = Inr (relay (cl_json cl) path (as_response w (OkFile d)))"
    using peer d(2) by (simp add: proxy_file_def with_peer_def case_prod_beta as_response_def is_success_def)
  then show ?thesis using d by (simp add: relay_def Let_def as_response_def response_headers_def response_body_def)
qed

section \<open>An upload across the wire\<close>

lemma require_auth_status:
  assumes "require_auth x clk h m pq b s = (Inl e, s')"
  shows "400 \<le> ae_status e"
proof -
  have "verify_signed_headers x now h m pq b = Inl e \<Longrightarrow> 400 \<le> ae_status e" for now
    by (auto simp: verify_signed_headers_def Let_def auth_error_new_def split: option.splits if_splits sum.splits)
  moreover have "reject_replays now sg seen = (Inl e, seen') \<Longrightarrow> 400 \<le> ae_status e" for now sg seen seen'
    by (auto simp: reject_replays_def Let_def auth_error_new_def split: if_splits)
  moreover have "check_grant x now p gs nid pk = Inl e \<Longrightarrow> 400 \<le> ae_status e" for now p gs nid pk
    by (auto simp: check_grant_def no_grant_error_def auth_error_new_def split: option.splits if_splits)
  ultimately show ?thesis using assms by (auto simp: require_auth_def split: sum.splits prod.splits)
qed

lemma with_grant_status:
  assumes "fst (with_grant y n h m pq b k s) = Inl e"
    and "\<And>g s e. fst (k g s) = Inl e \<Longrightarrow> 400 \<le> he_status e"
  shows "400 \<le> he_status e"
  using assms require_auth_status
  by (auto simp: with_grant_def auth_into_response_def coded_err_def split: sum.splits prod.splits)

lemma upload_refusal_status:
  assumes "fst (upload_handler y n h nm body s) = Inl e"
  shows "400 \<le> he_status e"
  using assms unfolding upload_handler_def Let_def
  by (auto simp: err_def split: if_splits sum.splits prod.splits elim!: with_grant_status)

abbreviation upload_request :: "ext \<Rightarrow> node_identity \<Rightarrow> client \<Rightarrow> string \<Rightarrow> string \<Rightarrow> bytes \<Rightarrow> http_request" where
  "upload_request x i cl base nm body \<equiv>
     signed_post x i cl 0 [] base (''/v1/upload?name='' @ x_url_encode x nm) body"

lemma remote_upload_answer:
  assumes net: "cl_http cl = node_http y n w s"
    and peer: "fst (peer_lookup (cl_now cl 0) nid a) = Inr \<lparr>pt_base = wi_base w, pt_fingerprint = fp\<rparr>"
    and url: "wi_decode w (x_url_encode x nm) = Some nm"
    and rq: "rq = upload_request x (nd_identity (ad_node a)) cl (wi_base w) nm body"
    and resp: "serve y n (wi_ip w) (map_of (rq_headers rq)) (PostUpload nm body) s = (resp, s')"
    and up: "fst (proxy_upload x cl 0 nid nm body a) = Inr u"
  shows "is_success (response_status resp) \<and> node_after y n w s rq = s'
    \<and> pj_upload (cl_json cl) (pj_text (cl_json cl) (as_response w resp) (response_body w resp)) = Inr u"
proof -
  obtain t where t: "answer_text x cl True fp rq = Inr t" "pj_upload (cl_json cl) t = Inr u"
    using up peer unfolding rq
    by (auto simp: proxy_upload_def with_peer_def case_prod_beta invalid_response_def split: sum.splits)
  obtain r b where r: "cl_http cl rq = Inr r" "is_success (rs_status r)" "rs_body r = Inr b"
    "t = pj_text (cl_json cl) r b" using answer_text_Inr [OF t(1)] .
  have route: "route_request w rq = Some (PostUpload nm body)"
    using route_upload [of rq w "x_url_encode x nm" nm] url by (simp add: rq signed_post_def)
  then have "r = as_response w resp" using r(1) resp by (simp add: net node_http_def)
  then show ?thesis using r t(2) route resp by (simp add: as_response_def node_after_def)
qed

lemma remote_upload:
  assumes net: "cl_http cl = node_http y n w s"
    and peer: "fst (peer_lookup (cl_now cl 0) nid a) = Inr \<lparr>pt_base = wi_base w, pt_fingerprint = fp\<rparr>"
    and url: "wi_decode w (x_url_encode x nm) = Some nm"
    and rq: "rq = upload_request x (nd_identity (ad_node a)) cl (wi_base w) nm body"
    and json: "\<And>r v. pj_upload (cl_json cl) (pj_text (cl_json cl) r (wi_json w (OkUpload v))) = Inr v"
    and up: "fst (proxy_upload x cl 0 nid nm body a) = Inr u"
  shows "upload_handler y n (map_of (rq_headers rq)) nm body s = (Inr u, node_after y n w s rq)"
proof -
  let ?h = "map_of (rq_headers rq)"
  obtain resp s' where sv: "serve y n (wi_ip w) ?h (PostUpload nm body) s = (resp, s')" by force
  note ans = remote_upload_answer [OF net peer url rq sv up]
  have ok: "\<not> (\<exists>e. resp = Refusal e \<and> 400 \<le> he_status e)" using ans by (auto simp: is_success_def)
  then have small: "\<not> sy_body_limit y < length body" using sv by (auto simp: serve_def buffered_def err_def)
  obtain v s2 where v: "upload_handler y n ?h nm body s = (v, s2)" by force
  show ?thesis
  proof (cases v)
    case (Inl e)
    then have "400 \<le> he_status e" using upload_refusal_status [of y n ?h nm body s e] v by simp
    then show ?thesis using ok sv small v Inl by (auto simp: serve_def answer_def buffered_def)
  next
    case (Inr u')
    then have "resp = OkUpload u'" "s' = s2" using sv small v by (auto simp: serve_def answer_def buffered_def)
    then show ?thesis using ans json [of "as_response w resp" u'] v Inr by (simp add: response_body_def)
  qed
qed

section \<open>A status poll across the wire\<close>

definition admitted :: "env \<Rightarrow> wire \<Rightarrow> node \<Rightarrow> bool" where
  "admitted n w s \<longleftrightarrow> (case wi_ip w of None \<Rightarrow> True | Some ip \<Rightarrow> fst (allow (en_instant n) ip (nd_limiter s)))"

lemma route_status:
  "route_request w rq = Some (GetPairStatus q)"
  if "rq_url rq = wi_base w @ ''/v1/pair/status?node_id='' @ v" "rq_method rq = ''GET''" "wi_decode w v = Some q"
  using that by (simp add: route_request_def plain_routes_def query_routes_def strip_prefix_def)

lemma own_status_answered:
  assumes "hex_laws (sy_x y)" "sig_laws (sy_x y)"
    and "fresh_call y n s t (auth_headers_body (sy_x y) i t nb ''GET'' (status_path_q (sy_x y) (node_id (sy_x y) i)) [])"
  shows "fst (pair_status_handler y n (map_of (auth_headers_body (sy_x y) i t nb ''GET''
      (status_path_q (sy_x y) (node_id (sy_x y) i)) [])) (node_id (sy_x y) i) s)
    = Inr (pair_status_lookup (en_clk n 2) (nd_pairing s) (grants_of s) (node_id (sy_x y) i))"
proof -
  let ?x = "sy_x y" and ?nid = "node_id (sy_x y) i"
  let ?hs = "auth_headers_body ?x i t nb ''GET'' (status_path_q ?x ?nid) []"
  let ?pk = "x_hex_encode ?x (verifying_key ?x i)"
  obtain sg where sg: "map_of ?hs ''x-doclink-sig'' = Some sg" "map_of (purge_seen (en_clk n 1) (nd_seen s)) sg = None"
    "abs_diff (en_clk n 0) t \<le> MAX_SKEW_SECS" using assms(3) by (auto simp: fresh_call_def split: option.splits)
  have "verify ?x ?pk (request_canonical ''GET'' (status_path_q ?x ?nid) (show_u64 t) (x_hex_encode ?x nb) []) sg = Inr ()"
    using sg(1) verify_own [OF assms(1,2), of i] by (auto simp: auth_headers_body_def Let_def)
  then have "verify_signed_headers ?x (en_clk n 0) (map_of ?hs) ''GET'' (status_path_q ?x ?nid) [] = Inr (?nid, ?pk, sg)"
    using sg unfolding verify_headers_Inr by (simp add: auth_headers_body_def Let_def)
  then show ?thesis using sg(2) fingerprint_of_own_pubkey [OF assms(1), of i]
    by (simp add: pair_status_handler_def reject_replays_def Let_def node_id_def)
qed

lemma remote_poll:
  assumes laws: "hex_laws (sy_x y)" "sig_laws (sy_x y)" and net: "cl_http cl = node_http y n w s"
    and cert: "x_cert_spki (sy_x y) (wi_cert w) = Some (ED25519_SPKI_HEADER @ verifying_key (sy_x y) ib)"
    and url: "wi_decode w (x_url_encode (sy_x y) (node_id (sy_x y) i)) = Some (node_id (sy_x y) i)"
    and json: "\<And>st. pj_pair_status (cl_json cl) (wi_json w (OkPair st)) = Inr st"
    and fresh: "fresh_call y n s (cl_ts cl k) (auth_headers (sy_x y) i (cl_ts cl k) (cl_nonce cl k) ''GET''
        (status_path_q (sy_x y) (node_id (sy_x y) i)))" "admitted n w s"
  shows "status_fetch (sy_x y) i cl k (wi_base w) (status_path_q (sy_x y) (node_id (sy_x y) i)) (fingerprint (sy_x y) ib)
    = Some (ps_status (pair_status_lookup (en_clk n 2) (nd_pairing s) (grants_of s) (node_id (sy_x y) i)))"
proof -
  let ?x = "sy_x y" and ?nid = "node_id (sy_x y) i"
  let ?st = "pair_status_lookup (en_clk n 2) (nd_pairing s) (grants_of s) ?nid"
  let ?rq = "signed_get ?x i cl k (wi_base w) (status_path_q ?x ?nid)"
  let ?h = "map_of (auth_headers_body ?x i (cl_ts cl k) (cl_nonce cl k) ''GET'' (status_path_q ?x ?nid) [])"
  have rq: "rq_url ?rq = wi_base w @ ''/v1/pair/status?node_id='' @ x_url_encode ?x ?nid" "rq_method ?rq = ''GET''"
    "map_of (rq_headers ?rq) = ?h"
    by (simp_all add: signed_get_def auth_headers_def status_path_q_def)
  have st: "fst (pair_status_handler y n ?h ?nid s') = Inr ?st"
    if "nd_seen s' = nd_seen s" "nd_pairing s' = nd_pairing s" "nd_grants s' = nd_grants s" for s'
  proof -
    have "fresh_call y n s' (cl_ts cl k) (auth_headers_body ?x i (cl_ts cl k) (cl_nonce cl k) ''GET'' (status_path_q ?x ?nid) [])"
      using fresh(1) unfolding fresh_call_def auth_headers_def that(1) .
    from own_status_answered [OF laws this] show ?thesis by (simp only: that)
  qed
  have "fst (serve y n (wi_ip w) ?h (GetPairStatus ?nid) s) = OkPair ?st"
    using fresh(2) st by (auto simp: serve_def rate_limit_pair_def answer_def admitted_def Let_def
        split: option.split prod.split)
  then have "cl_http cl ?rq = Inr (as_response w (OkPair ?st))"
    using route_status [OF rq(1,2) url] rq(3) by (simp add: net node_http_def)
  moreover have "pinned ?x (as_response w (OkPair ?st)) (fingerprint ?x ib)"
    by (rule own_cert_pinned [OF laws(2) cert]) (simp add: as_response_def)
  then obtain got where "peer_check ?x (rs_tls (as_response w (OkPair ?st))) (Some (fingerprint ?x ib)) = Inr got"
    using peer_check_pinned by blast
  ultimately show ?thesis using json by (simp add: status_fetch_def as_response_def response_body_def)
qed

end
