(* ===== verification/Machine.thy ===== *)
theory Machine
  imports DataPlane Admin Proxy Calls
begin

text \<open>The whole node as a transition system: requests from the network, the owner's actions and
  the background loops of @<doclinkd/src/main.rs> and @<doclinkd/src/store.rs>, one at a time, in any
  order. The label of a step tells the owner's decisions from everything else. What holds in every
  reachable state follows by rule induction.\<close>

section \<open>Steps\<close>

datatype label = Peer_Request | Owner_Decision string string | Owner_Revoke string | Owner_Other | Background

inductive step :: "admin_sys \<Rightarrow> admin \<Rightarrow> label \<Rightarrow> admin \<Rightarrow> bool" for y where
  peer: "step y a Peer_Request (a\<lparr>ad_node := snd (serve (as_sys y) n ip h req (ad_node a))\<rparr>)"
| decide: "step y a (Owner_Decision nid (db_decision b)) (snd (snd (decide_request y m nid b a)))"
| revoke: "step y a (Owner_Revoke fp) (snd (on_node (revoke_grant y n fp) a))"
| update: "step y a Owner_Other (snd (on_node (update_grant y n fp u) a))"
| share: "step y a Owner_Other (snd (on_node (share_item y n path fps) a))"
| forget: "step y a Owner_Other (snd (on_node (remove_contact y n nid) a))"
| erase: "step y a Owner_Other (snd (on_node (myshare_delete n path) a))"
| accept: "step y a Owner_Other (snd (on_node (admin_inbox_accept n nm) a))"
| discard: "step y a Owner_Other (snd (on_node (inbox_discard n nm) a))"
| settings: "step y a Owner_Other (snd (put_settings y m adv chk a))"
| check: "step y a Owner_Other (snd (update_check y now parse gh a))"
| upgrade: "step y a Owner_Other (snd (update_apply y stage a))"
| peers: "step y a Owner_Other (snd (list_peers now a))"
| stop: "step y a Owner_Other (shutdown_node a)"
| add: "step y a Owner_Other (snd (add_contact y m cl polls body a))"
| inspect: "step y a Owner_Other (snd (contact_fingerprint y m cl polls raw host a))"
| ask: "step y a Owner_Other (snd (contact_status y cl nid a))"
| send: "step y a Owner_Other (snd (send_file y n cl nid path a))"
| browse: "step y a Owner_Other (snd (browse_list y cl nid path a))"
| fetch: "step y a Owner_Other (snd (browse_file y cl h nid path a))"
| preview: "step y a Owner_Other (snd (browse_raw y cl h nid path a))"
| search: "step y a Owner_Other (snd (search_all y cls order q a))"
| print_there: "step y a Owner_Other (snd (print_on_peer_admin y cl target job a))"
| print_here: "step y a Owner_Other (snd (print_remote y cl stamp stage shell nid path a))"
| sweep: "step y a Background (a\<lparr>ad_node := (ad_node a)\<lparr>
    nd_grants := fst (sweep_tick (sy_grants (as_sys y)) faults now now2 clk (nd_grants (ad_node a)) (nd_events (ad_node a))),
    nd_events := snd (sweep_tick (sy_grants (as_sys y)) faults now now2 clk (nd_grants (ad_node a)) (nd_events (ad_node a)))\<rparr>\<rparr>)"
| verifier: "step y a Background (a\<lparr>ad_node := (ad_node a)\<lparr>nd_contacts := verifier_tick (sy_x (as_sys y))
    (sy_contacts (as_sys y)) faults fetch ps (ni_node_id (nd_node (ad_node a))) (nd_contacts (ad_node a))\<rparr>\<rparr>)"
| discovery: "step y a Background (a\<lparr>ad_peers := browser_event now (ni_node_id (nd_node (ad_node a))) ev (ad_peers a)\<rparr>)"
| keepalive: "step y a Background (a\<lparr>ad_peers := keepalive_tick (sy_x (as_sys y)) get now kclk (ad_peers a)\<rparr>)"

inductive run :: "admin_sys \<Rightarrow> admin \<Rightarrow> label list \<Rightarrow> admin \<Rightarrow> bool" for y where
  stay: "run y a [] a"
| more: "run y a ls b \<Longrightarrow> step y b l c \<Longrightarrow> run y a (ls @ [l]) c"

inductive_cases decision_stepE: "step y a (Owner_Decision nid d) b"
inductive_cases run_snocE: "run y a (ls @ [l]) b"

section \<open>The invariant\<close>

definition grants_sane :: "grants_file \<Rightarrow> bool" where
  "grants_sane gs \<longleftrightarrow> distinct (map g_fingerprint gs)
     \<and> list_all (\<lambda>g. g_node_id g = take 16 (g_fingerprint g)) gs"

definition pending_sane :: "ext \<Rightarrow> pairing \<Rightarrow> bool" where
  "pending_sane x p \<longleftrightarrow> list_all (\<lambda>(k, e). case fingerprint_from_pubkey_hex x (pr_pubkey_hex (pe_request e)) of
     None \<Rightarrow> False | Some fp \<Rightarrow> take 16 fp = k) (pending p)"

definition node_sane :: "ext \<Rightarrow> node \<Rightarrow> bool" where
  "node_sane x s \<longleftrightarrow> grants_sane (grants_of s) \<and> pairing_ok (nd_pairing s) \<and> pending_sane x (nd_pairing s)
     \<and> length (items (nd_events s)) \<le> CAP"

definition admin_sane :: "ext \<Rightarrow> admin \<Rightarrow> bool" where
  "admin_sane x a \<longleftrightarrow> node_sane x (ad_node a) \<and> registry_ok (ad_peers a)"

definition boot :: "admin_sys \<Rightarrow> admin \<Rightarrow> bool" where
  "boot y a \<longleftrightarrow> grants_sane (grants_of (ad_node a)) \<and> nd_pairing (ad_node a) = pairing_default
     \<and> nd_events (ad_node a) = events_default \<and> ad_peers a = []"

lemma boot_sane: "boot y a \<Longrightarrow> admin_sane x a"
  using pairing_ok_default by (simp add: boot_def admin_sane_def node_sane_def pending_sane_def
      pairing_default_def events_default_def registry_ok_def)

section \<open>Peers\<close>

lemma push_event_sane: "node_sane x s \<Longrightarrow> node_sane x (push_event now k t b s)"
  by (simp add: node_sane_def push_event_def push_items_cap)

lemma node_sane_cong:
  "nd_grants s' = nd_grants s \<Longrightarrow> nd_pairing s' = nd_pairing s \<Longrightarrow> nd_events s' = nd_events s \<Longrightarrow>
    node_sane x s' = node_sane x s"
  by (simp add: node_sane_def)

lemma node_sane_simps [simp]:
  "node_sane x (s\<lparr>nd_seen := a\<rparr>) = node_sane x s" "node_sane x (s\<lparr>nd_fs := fs\<rparr>) = node_sane x s"
  "node_sane x (s\<lparr>nd_print := lp\<rparr>) = node_sane x s" "node_sane x (s\<lparr>nd_contacts := cs\<rparr>) = node_sane x s"
  "node_sane x (s\<lparr>nd_limiter := l\<rparr>) = node_sane x s"
  by (simp_all add: node_sane_def)

lemma with_grant_sane:
  assumes "node_sane x s" "\<And>g seen. node_sane x (snd (k g (s\<lparr>nd_seen := seen\<rparr>)))"
  shows "node_sane x (snd (with_grant y n h method path_q body k s))"
proof -
  obtain seen where "snd (require_auth (sy_x y) (en_clk n) h method path_q body s) = s\<lparr>nd_seen := seen\<rparr>"
    using require_auth_state by blast
  then show ?thesis using assms by (auto simp: with_grant_def split: prod.split sum.split)
qed

lemma authenticated_handlers_sane:
  assumes "node_sane x s"
  shows "node_sane x (snd (list_handler y n h p s))" "node_sane x (snd (file_handler y n h p s))"
    "node_sane x (snd (search_handler y n h p s))" "node_sane x (snd (upload_handler y n h p b s))"
    "node_sane x (snd (print_handler y n h p b s))"
  unfolding list_handler_def file_handler_def search_handler_def upload_handler_def print_handler_def
  using assms by (auto simp: Let_def intro!: with_grant_sane push_event_sane
      split: sum.split option.split prod.split)

lemma pending_sane_admit:
  assumes "pending_sane x p" "fingerprint_from_pubkey_hex x (pr_pubkey_hex req) = Some fp"
    "take 16 fp = pr_node_id req"
  shows "pending_sane x (snd (admit_pending now now2 req p))"
  using assms by (fastforce simp: pending_sane_def admit_pending_def prune_pending_def Let_def list_all_iff
      dest: set_update_alist split: if_splits)

lemma pair_request_sane:
  assumes "node_sane (sy_x y) s"
  shows "node_sane (sy_x y) (snd (pair_request_handler y n b s))"
proof -
  have adm: "node_sane (sy_x y) (snd (admit_request n req s))"
    if "fingerprint_from_pubkey_hex (sy_x y) (pr_pubkey_hex req) = Some fp" "take 16 fp = pr_node_id req" for req fp
  proof -
    obtain r p where p: "admit_pending (en_clk n 1) (en_clk n 2) req (nd_pairing s) = (r, p)" by force
    have "pairing_ok p" "pending_sane (sy_x y) p"
      using assms admit_pending_ok [of "nd_pairing s" "en_clk n 1" "en_clk n 2" req] pending_sane_admit [OF _ that] p
      by (auto simp: node_sane_def dest: arg_cong [of _ _ snd]) (metis snd_conv)+
    then have "node_sane (sy_x y) (s\<lparr>nd_pairing := p\<rparr>)" using assms by (simp add: node_sane_def)
    then show ?thesis using p push_event_sane by (auto simp: admit_request_def Let_def split: sum.split)
  qed
  show ?thesis using assms adm
    by (auto simp: pair_request_handler_def Let_def split: option.split sum.split)
qed

lemma pair_decision_sane:
  assumes "node_sane x s"
  shows "node_sane x (snd (pair_decision_handler y n b s))"
proof -
  have "node_sane x (s\<lparr>nd_pairing := remember_decision now nid resp (nd_pairing s)\<rparr>)" for now nid resp
    using assms by (simp add: node_sane_def pending_sane_def remember_decision_ok)
  then show ?thesis using assms
    by (auto simp: pair_decision_handler_def label_contact_def Let_def split: option.split sum.split)
qed

lemma pair_status_sane: "node_sane x s \<Longrightarrow> node_sane x (snd (pair_status_handler y n h i s))"
  by (auto simp: pair_status_handler_def Let_def split: option.split sum.split prod.split)

lemma serve_sane: "node_sane (sy_x y) s \<Longrightarrow> node_sane (sy_x y) (snd (serve y n ip h req s))"
  by (cases req) (auto simp: serve_def answer_def buffered_def rate_limit_pair_def Let_def authenticated_handlers_sane
      pair_request_sane pair_decision_sane pair_status_sane split: option.split prod.split)

section \<open>The owner and the background loops\<close>

lemma grants_sane_upsert:
  assumes "grants_sane gs" "g_node_id g = take 16 (g_fingerprint g)"
  shows "grants_sane (grants_upsert g gs)"
  using assms gf.inv_put [of gs g] by (auto simp: grants_sane_def grants_upsert_def list_all_iff)

lemma grants_sane_filter: "grants_sane gs \<Longrightarrow> grants_sane (filter P gs)"
  by (auto simp: grants_sane_def list_all_iff distinct_map_filter)

lemma grants_sane_map:
  "(\<And>g. g_fingerprint (f g) = g_fingerprint g) \<Longrightarrow> (\<And>g. g_node_id (f g) = g_node_id g) \<Longrightarrow>
    grants_sane gs \<Longrightarrow> grants_sane (map f gs)"
  by (auto simp: grants_sane_def list_all_iff o_def)

lemma grants_sane_update_first:
  assumes "\<And>g. g_fingerprint (f g) = g_fingerprint g" "\<And>g. g_node_id (f g) = g_node_id g" "grants_sane gs"
  shows "grants_sane (update_first P f gs)"
  using assms update_first_key [of g_fingerprint f P gs]
  by (auto simp: grants_sane_def list_all_iff dest: update_first_set)

lemma pending_sane_delete: "pending_sane x p \<Longrightarrow> pending_sane x (p\<lparr>pending := AList.delete nid (pending p)\<rparr>)"
  using delete_set_sub [of nid "pending p"] by (auto simp: pending_sane_def list_all_iff)

lemma decision_sane:
  assumes s: "node_sane x s"
    and a: "apply_decision_with_perms x cd faults now nid d dur af ap (nd_pairing s) (nd_grants s) = (r, p, st)"
  shows "node_sane x (s\<lparr>nd_pairing := p, nd_grants := st\<rparr>)"
proof -
  have "pairing_ok p" using apply_pairing_ok [OF _ a] s by (simp add: node_sane_def)
  moreover have "pending_sane x p"
    using a s pending_sane_delete [of x "nd_pairing s" nid]
    by (auto simp: apply_decision_with_perms_def Let_def node_sane_def pending_sane_def
        split: option.splits if_splits prod.splits)
  moreover have "grants_sane (st_data st)"
    using grants_after_decision [OF a]
  proof
    assume "\<exists>e fp files print. map_of (pending (nd_pairing s)) nid = Some e
      \<and> fingerprint_from_pubkey_hex x (pr_pubkey_hex (pe_request e)) = Some fp
      \<and> (files \<or> print) \<and> d = ''approve''
      \<and> st_data st = grants_upsert (granted now dur files print fp (pe_request e)) (grants_of s)"
    then obtain e fp files print where e: "map_of (pending (nd_pairing s)) nid = Some e"
      "fingerprint_from_pubkey_hex x (pr_pubkey_hex (pe_request e)) = Some fp"
      "st_data st = grants_upsert (granted now dur files print fp (pe_request e)) (grants_of s)" by blast
    have "take 16 fp = nid \<and> pr_node_id (pe_request e) = nid"
      using map_of_SomeD [OF e(1)] s e(2)
      by (fastforce simp: node_sane_def pending_sane_def pairing_ok_def list_all_iff)
    then show ?thesis using s e(3) by (auto simp: granted_def node_sane_def intro!: grants_sane_upsert)
  qed (use s in \<open>simp add: node_sane_def\<close>)
  ultimately show ?thesis using s by (simp add: node_sane_def)
qed

lemma list_peers_sane: "admin_sane x a \<Longrightarrow> admin_sane x (snd (list_peers now a))"
  using registry_ok_snapshot [of "ad_peers a" now]
  by (simp add: list_peers_def admin_sane_def case_prod_beta)

lemma push_decision_state: "snd (push_decision_to_requester y m nid b a) = snd (list_peers (en_clk (ae_env m) 1) a)"
  by (simp add: push_decision_to_requester_def requester_base_def case_prod_beta)

lemma decide_sane:
  assumes "admin_sane (sy_x (as_sys y)) a"
  shows "admin_sane (sy_x (as_sys y)) (snd (snd (decide_request y m nid b a)))"
proof -
  obtain r p st where d: "apply_decision_with_perms (sy_x (as_sys y)) (sy_grants (as_sys y)) (en_faults (ae_env m))
       (en_clk (ae_env m) 0) nid (db_decision b) (db_duration_secs b) (db_allow_files b) (db_allow_print b)
       (nd_pairing (ad_node a)) (nd_grants (ad_node a)) = (r, p, st)" by (metis prod.collapse)
  let ?a = "a\<lparr>ad_node := (ad_node a)\<lparr>nd_pairing := p, nd_grants := st\<rparr>\<rparr>"
  have a: "admin_sane (sy_x (as_sys y)) ?a"
    using assms decision_sane [OF _ d] by (simp add: admin_sane_def)
  have "snd (snd (decide_request y m nid b a)) = (case r of Inl e \<Rightarrow> ?a
      | Inr resp \<Rightarrow> snd (push_decision_to_requester y m nid b ?a))"
    using d by (simp add: decide_request_def Let_def case_prod_beta split: sum.split)
  then show ?thesis using a list_peers_sane [OF a] by (simp add: push_decision_state split: sum.split)
qed

lemma on_node_sane:
  "admin_sane x a \<Longrightarrow> node_sane x (snd (f (ad_node a))) \<Longrightarrow> admin_sane x (snd (on_node f a))"
  by (simp add: on_node_def admin_sane_def case_prod_beta)

lemma save_grants_sane:
  "node_sane x s \<Longrightarrow> grants_sane gs \<Longrightarrow> node_sane x (snd (save_grants y n gs s))"
  by (simp add: node_sane_def)

lemma updated_grant_keys [simp]:
  "g_fingerprint (updated_grant u g) = g_fingerprint g" "g_node_id (updated_grant u g) = g_node_id g"
  by (simp_all add: updated_grant_def)

lemma owner_node_sane:
  assumes "node_sane x s"
  shows "node_sane x (snd (revoke_grant y n fp s))" "node_sane x (snd (update_grant y n fp u s))"
    "node_sane x (snd (share_item y n path fps s))" "node_sane x (snd (remove_contact y n nid s))"
    "node_sane x (snd (myshare_delete n path s))" "node_sane x (snd (admin_inbox_accept n nm s))"
    "node_sane x (snd (inbox_discard n nm s))"
proof -
  have g: "grants_sane (grants_of s)" using assms by (simp add: node_sane_def)
  show "node_sane x (snd (revoke_grant y n fp s))"
    using save_grants_sane [OF assms grants_sane_filter [OF g]] assms
    by (simp add: revoke_grant_def Let_def case_prod_beta)
  have u: "grants_sane (update_first (\<lambda>g. g_fingerprint g = fp) (updated_grant u) (grants_of s))"
    by (rule grants_sane_update_first [OF _ _ g]) simp_all
  then have "node_sane x (s\<lparr>nd_grants := (nd_grants s)\<lparr>st_data :=
      update_first (\<lambda>g. g_fingerprint g = fp) (updated_grant u) (grants_of s)\<rparr>\<rparr>)"
    using assms by (simp add: node_sane_def)
  then show "node_sane x (snd (update_grant y n fp u s))"
    using save_grants_sane [OF assms u] assms
    by (simp add: update_grant_def Let_def case_prod_beta split: option.split)
  have "grants_sane (map (share_on_grant f path fps) (grants_of s))" for f
    by (rule grants_sane_map [OF _ _ g]) simp_all
  then show "node_sane x (snd (share_item y n path fps s))"
    using save_grants_sane [OF assms] assms
    by (simp add: share_item_def Let_def case_prod_beta split: sum.split)
qed (use assms in \<open>simp_all add: remove_contact_def myshare_delete_def admin_inbox_accept_def
    inbox_discard_def Let_def case_prod_beta\<close>)

lemma announce_items: "length (items e) \<le> CAP \<Longrightarrow> length (items (announce now clk g e)) \<le> CAP"
  using push_items_cap
  by (auto simp: announce_def claim_expiry_def Let_def split: option.split)

lemma fold_announce_items: "length (items e) \<le> CAP \<Longrightarrow> length (items (fold (announce now clk) gs e)) \<le> CAP"
  by (induction gs arbitrary: e) (simp_all add: announce_items)

lemma sweep_data: "st_data (fst (sweep_tick c faults now now2 clk st e)) = snd (prune_expired now2 (st_data st))"
  "snd (sweep_tick c faults now now2 clk st e) = fold (announce now clk) (st_data st) e"
  by (simp_all add: sweep_tick_def Let_def case_prod_beta)

lemma registry_ok_keepalive: "registry_ok r \<Longrightarrow> registry_ok (keepalive_tick x get now clk r)"
proof -
  have "registry_ok r \<Longrightarrow> registry_ok (fold (\<lambda>p r. if P p then registry_touch (clk (p_node_id p)) (p_node_id p) r else r) ps r)"
    for P ps r by (induction ps arbitrary: r) (simp_all add: registry_ok_touch)
  note f = this [of _ "\<lambda>p. keepalive_ok x (get (peer_base_url (p_addr p) (p_http_port p) @ ''/v1/info''))"]
  show "registry_ok r \<Longrightarrow> registry_ok (keepalive_tick x get now clk r)"
    unfolding keepalive_tick_def case_prod_beta Let_def by (rule f) (rule registry_ok_snapshot)
qed

lemma settings_node: "\<exists>fs. ad_node (snd (put_settings y m adv chk a)) = (ad_node a)\<lparr>nd_fs := fs\<rparr>
    \<and> ad_peers (snd (put_settings y m adv chk a)) = ad_peers a"
proof -
  have 1: "ad_node (snd (toggle_advertise m adv a)) = ad_node a \<and> ad_peers (snd (toggle_advertise m adv a)) = ad_peers a" for a
    by (simp add: toggle_advertise_def)
  have 2: "\<exists>fs. ad_node (snd (persist_settings y m cfg a)) = (ad_node a)\<lparr>nd_fs := fs\<rparr>
      \<and> ad_peers (snd (persist_settings y m cfg a)) = ad_peers a" for cfg a
    by (auto simp: persist_settings_def case_prod_beta split: sum.split intro: exI [of _ "nd_fs (ad_node a)"])
  obtain r a1 where t: "toggle_advertise m adv a = (r, a1)" by force
  have a1: "ad_node a1 = ad_node a" "ad_peers a1 = ad_peers a" using 1 [of a] t by simp_all
  let ?a2 = "case chk of None \<Rightarrow> a1 | Some v \<Rightarrow> a1\<lparr>ad_check_updates := v\<rparr>"
  have a2: "ad_node ?a2 = ad_node a" "ad_peers ?a2 = ad_peers a" using a1 by (simp_all split: option.split)
  have "snd (put_settings y m adv chk a) = (case r of Inl e \<Rightarrow> a1
      | Inr _ \<Rightarrow> snd (persist_settings y m (snapshot_config y ?a2) ?a2))"
    using t by (simp add: put_settings_def Let_def case_prod_beta split: sum.split)
  then show ?thesis using 2 [of "snapshot_config y ?a2" ?a2] a1 a2
    by (cases r) (auto intro: exI [of _ "nd_fs (ad_node a)"])
qed

text \<open>The owner's calls to other PCs leave the node as it is, apart from its contacts and its events.\<close>

lemmas owner_calls =
  browsed_owner_calls [THEN browsed_called] browsed_print_on [THEN browsed_called] browsed_search_all [THEN browsed_called]
  called_add_contact called_send_file

lemma called_sane: "called a b \<Longrightarrow> admin_sane x a \<Longrightarrow> admin_sane x b"
  by (auto simp: called_def admin_sane_def node_sane_def)

lemma called_grants: "called a b \<Longrightarrow> nd_grants (ad_node b) = nd_grants (ad_node a)"
  by (simp add: called_def)

lemma step_sane:
  assumes "step y a l b" "admin_sane (sy_x (as_sys y)) a"
  shows "admin_sane (sy_x (as_sys y)) b"
  using assms
proof (induction rule: step.induct)
  case (peer a n ip h req)
  then show ?case using serve_sane [of "as_sys y" "ad_node a" n ip h req] by (simp add: admin_sane_def)
next
  case (settings a m adv chk)
  then show ?case using settings_node [of y m adv chk a] by (auto simp: admin_sane_def)
next
  case (sweep a faults now now2 clk)
  then show ?case using fold_announce_items grants_sane_filter
    by (simp add: admin_sane_def node_sane_def sweep_data prune_expired_def Let_def)
next
  case (peers a now)
  then show ?case by (rule list_peers_sane)
next
  case (decide a nid b m)
  then show ?case by (rule decide_sane)
next
  case (discovery a now ev)
  then show ?case by (simp add: admin_sane_def registry_ok_event)
next
  case (keepalive a get now kclk)
  then show ?case by (simp add: admin_sane_def registry_ok_keepalive)
qed (auto simp: owner_node_sane admin_sane_def shutdown_node_def update_check_def update_apply_def Let_def
    case_prod_beta intro!: on_node_sane [unfolded admin_sane_def] owner_calls [THEN called_sane, unfolded admin_sane_def])

lemma run_sane: "run y a ls b \<Longrightarrow> admin_sane (sy_x (as_sys y)) a \<Longrightarrow> admin_sane (sy_x (as_sys y)) b"
  by (induction rule: run.induct) (auto intro: step_sane)

section \<open>Where grants come from\<close>

definition holds_grant :: "string \<Rightarrow> admin \<Rightarrow> bool" where
  "holds_grant fp a \<longleftrightarrow> fp \<in> g_fingerprint ` set (grants_of (ad_node a))"

lemma on_node_node [simp]: "ad_node (snd (on_node f a)) = snd (f (ad_node a))"
  by (simp add: on_node_def case_prod_beta)

lemma revoke_grant_data: "grants_of (snd (revoke_grant y n fp s)) = filter (\<lambda>g. g_fingerprint g \<noteq> fp) (grants_of s)"
proof (cases "length (filter (\<lambda>g. g_fingerprint g \<noteq> fp) (grants_of s)) = length (grants_of s)")
  case True
  then have "filter (\<lambda>g. g_fingerprint g \<noteq> fp) (grants_of s) = grants_of s"
    using filter_length_less [of "\<lambda>g. g_fingerprint g \<noteq> fp" "grants_of s"] by (intro filter_True) blast
  then show ?thesis by (simp add: revoke_grant_def Let_def)
qed (simp add: revoke_grant_def Let_def case_prod_beta)

lemma update_grant_data: "grants_of (snd (update_grant y n fp u s)) = (case find_grant fp (grants_of s) of
    None \<Rightarrow> grants_of s | Some _ \<Rightarrow> update_first (\<lambda>g. g_fingerprint g = fp) (updated_grant u) (grants_of s))"
  by (simp add: update_grant_def Let_def case_prod_beta split: option.split)

lemma share_item_data: "\<exists>f. grants_of (snd (share_item y n path fps s)) = grants_of s
    \<or> grants_of (snd (share_item y n path fps s)) = map (share_on_grant f path fps) (grants_of s)"
  by (auto simp: share_item_def Let_def case_prod_beta split: sum.split)

lemma owner_fingerprints:
  "fp \<in> g_fingerprint ` set (grants_of (snd (revoke_grant y n fp' s))) \<longleftrightarrow>
    fp \<in> g_fingerprint ` set (grants_of s) \<and> fp \<noteq> fp'"
  "map g_fingerprint (grants_of (snd (update_grant y n fp' u s))) = map g_fingerprint (grants_of s)"
  "map g_fingerprint (grants_of (snd (share_item y n path fps s))) = map g_fingerprint (grants_of s)"
  by (auto simp: revoke_grant_data update_grant_data share_item_def Let_def case_prod_beta o_def update_first_key
      split: sum.split option.split)

lemma other_owner_grants:
  "nd_grants (snd (remove_contact y n nid s)) = nd_grants s"
  "nd_grants (snd (myshare_delete n path s)) = nd_grants s"
  "nd_grants (snd (admin_inbox_accept n nm s)) = nd_grants s"
  "nd_grants (snd (inbox_discard n nm s)) = nd_grants s"
  by (simp_all add: remove_contact_def myshare_delete_def admin_inbox_accept_def inbox_discard_def
      Let_def case_prod_beta)

lemma map_fingerprint_image: "map g_fingerprint gs' = map g_fingerprint gs \<Longrightarrow>
    g_fingerprint ` set gs' = g_fingerprint ` set gs"
  by (metis set_map)

lemma decide_new_grant:
  assumes "admin_sane (sy_x (as_sys y)) a" "holds_grant fp (snd (snd (decide_request y m nid b a)))"
    "\<not> holds_grant fp a"
  shows "db_decision b = ''approve'' \<and> nid = take 16 fp"
proof -
  obtain r p st where d: "apply_decision_with_perms (sy_x (as_sys y)) (sy_grants (as_sys y)) (en_faults (ae_env m))
       (en_clk (ae_env m) 0) nid (db_decision b) (db_duration_secs b) (db_allow_files b) (db_allow_print b)
       (nd_pairing (ad_node a)) (nd_grants (ad_node a)) = (r, p, st)" by (metis prod.collapse)
  have "grants_of (ad_node (snd (snd (decide_request y m nid b a)))) = st_data st"
    using d by (simp add: decide_request_def Let_def case_prod_beta push_decision_state split: sum.split)
  then have new: "fp \<in> g_fingerprint ` set (st_data st)" "fp \<notin> g_fingerprint ` set (grants_of (ad_node a))"
    using assms(2,3) by (simp_all add: holds_grant_def)
  then obtain e fp' files print where e: "map_of (pending (nd_pairing (ad_node a))) nid = Some e"
    "fingerprint_from_pubkey_hex (sy_x (as_sys y)) (pr_pubkey_hex (pe_request e)) = Some fp'"
    "db_decision b = ''approve''"
    "st_data st = grants_upsert (granted (en_clk (ae_env m) 0) (db_duration_secs b) files print fp' (pe_request e))
      (grants_of (ad_node a))"
    using grants_after_decision [OF d] by auto
  have "fp = fp'" using new e(4) by (auto simp: grants_upsert_def granted_def)
  moreover have "take 16 fp' = nid"
    using map_of_SomeD [OF e(1)] assms(1) e(2)
    by (fastforce simp: admin_sane_def node_sane_def pending_sane_def list_all_iff)
  ultimately show ?thesis using e(3) by simp
qed

lemma step_new_grant:
  assumes "step y a l b" "admin_sane (sy_x (as_sys y)) a" "holds_grant fp b" "\<not> holds_grant fp a"
  shows "l = Owner_Decision (take 16 fp) ''approve''"
  using assms
proof (induction rule: step.induct)
  case (decide a nid b m)
  then show ?case using decide_new_grant by blast
next
  case (peer a n ip h req)
  then show ?case by (simp add: holds_grant_def serve_keeps_grants)
next
  case (update a n fp' u)
  then show ?case using map_fingerprint_image [OF owner_fingerprints(2)] by (simp add: holds_grant_def)
next
  case (share a n path fps)
  then show ?case using map_fingerprint_image [OF owner_fingerprints(3)] by (simp add: holds_grant_def)
next
  case (settings a m adv chk)
  then show ?case using settings_node [of y m adv chk a] by (auto simp: holds_grant_def)
next
  case (sweep a faults now now2 clk)
  then show ?case by (auto simp: holds_grant_def sweep_data prune_expired_def Let_def)
qed (auto simp: holds_grant_def owner_fingerprints(1) other_owner_grants shutdown_node_def update_check_def
    update_apply_def Let_def case_prod_beta owner_calls [THEN called_grants])

lemma run_new_grant:
  assumes "run y a ls b" "admin_sane (sy_x (as_sys y)) a" "\<not> holds_grant fp a"
  shows "holds_grant fp b \<Longrightarrow> Owner_Decision (take 16 fp) ''approve'' \<in> set ls"
  using assms
proof (induction rule: run.induct)
  case (more a ls b l c)
  then show ?case using step_new_grant [OF more.hyps(2) run_sane [OF more.hyps(1)]] by fastforce
qed simp

lemma revoke_drops:
  assumes "step y a (Owner_Revoke fp) b"
  shows "\<not> holds_grant fp b"
  using assms by (cases rule: step.cases) (auto simp: holds_grant_def owner_fingerprints(1))

end
