(* ===== verification/Access.thy ===== *)
theory Access
  imports Prelude Store Node Registry Admin Machine
begin

text \<open>What the node promises about access, apart from how it keeps it: a map from keys to grants, and for
  each label of a step what may happen to the map. The daemon of @<Machine> refines it.\<close>

section \<open>The promise\<close>

type_synonym acl = "string \<Rightarrow> grant option"

definition same_terms :: "grant \<Rightarrow> grant \<Rightarrow> bool" where
  "same_terms g g' \<longleftrightarrow> g_fingerprint g' = g_fingerprint g \<and> g_node_id g' = g_node_id g \<and> g_name g' = g_name g
     \<and> g_granted_unix g' = g_granted_unix g \<and> g_expires_unix g' = g_expires_unix g"

definition kept :: "(grant \<Rightarrow> bool) \<Rightarrow> acl \<Rightarrow> acl" where
  "kept P m fp = (case m fp of None \<Rightarrow> None | Some g \<Rightarrow> if P g then Some g else None)"

inductive astep :: "label \<Rightarrow> acl \<Rightarrow> acl \<Rightarrow> bool" where
  requested: "astep Peer_Request m m"
| undecided: "astep (Owner_Decision nid d) m m"
| approved: "g_fingerprint g = fp \<Longrightarrow> g_node_id g = take 16 fp \<Longrightarrow>
    astep (Owner_Decision (take 16 fp) ''approve'') m (m(fp \<mapsto> g))"
| revoked: "astep (Owner_Revoke fp) m (m(fp := None))"
| rescoped: "\<forall>fp. rel_option same_terms (m fp) (m' fp) \<Longrightarrow> astep Owner_Other m m'"
| lapsed: "astep Background m (kept (grant_live now) m)"
| idle: "astep Background m m"

inductive arun :: "acl \<Rightarrow> label list \<Rightarrow> acl \<Rightarrow> bool" where
  halt: "arun m [] m"
| go: "arun m ls m' \<Longrightarrow> astep l m' m'' \<Longrightarrow> arun m (ls @ [l]) m''"

inductive_cases requestedE: "astep Peer_Request m m'"
inductive_cases backgroundE: "astep Background m m'"

lemma same_terms_refl [simp]: "same_terms g g"
  by (simp add: same_terms_def)

lemma same_terms_updated [simp]: "same_terms g (updated_grant u g)"
  by (simp add: same_terms_def updated_grant_def)

lemma same_terms_share [simp]: "same_terms g (share_on_grant f path fps g)"
  by (simp add: same_terms_def share_on_grant_def split: option.split)

lemma rel_same [simp]: "rel_option same_terms v v"
  by (cases v) simp_all

section \<open>The daemon keeps it\<close>

definition acl_of :: "admin \<Rightarrow> acl" where
  "acl_of a fp = find_grant fp (grants_of (ad_node a))"

lemma acl_cong: "grants_of (ad_node b) = grants_of (ad_node a) \<Longrightarrow> acl_of b = acl_of a"
  by (simp add: acl_of_def fun_eq_iff)

lemma astep_other: "acl_of b = acl_of a \<Longrightarrow> astep Owner_Other (acl_of a) (acl_of b)"
  by (rule astep.rescoped) simp

lemma same_terms_key: "same_terms g g' \<Longrightarrow> g_fingerprint g' = g_fingerprint g"
  by (simp add: same_terms_def)

lemma astep_idle: "acl_of b = acl_of a \<Longrightarrow> astep Background (acl_of a) (acl_of b)"
  by (simp add: astep.idle)

lemma find_update_first:
  assumes "\<And>g. same_terms g (f g)"
  shows "rel_option same_terms (find_grant k gs) (find_grant k (update_first P f gs))"
  using assms assms [THEN same_terms_key] by (induction gs) (simp_all add: find_grant_def)

lemma find_map:
  assumes "\<And>g. same_terms g (f g)"
  shows "rel_option same_terms (find_grant k gs) (find_grant k (map f gs))"
  using assms assms [THEN same_terms_key] by (induction gs) (simp_all add: find_grant_def)

lemma decided_grants:
  assumes "admin_sane (sy_x (as_sys y)) a"
  shows "grants_of (ad_node (snd (snd (decide_request y m nid b a)))) = grants_of (ad_node a)
    \<or> (\<exists>g. db_decision b = ''approve'' \<and> nid = take 16 (g_fingerprint g) \<and> g_node_id g = nid
      \<and> grants_of (ad_node (snd (snd (decide_request y m nid b a)))) = grants_upsert g (grants_of (ad_node a)))"
proof -
  obtain r p st where d: "apply_decision_with_perms (sy_x (as_sys y)) (sy_grants (as_sys y)) (en_faults (ae_env m))
       (en_clk (ae_env m) 0) nid (db_decision b) (db_duration_secs b) (db_allow_files b) (db_allow_print b)
       (nd_pairing (ad_node a)) (nd_grants (ad_node a)) = (r, p, st)" by (metis prod.collapse)
  have st: "grants_of (ad_node (snd (snd (decide_request y m nid b a)))) = st_data st"
    using d by (simp add: decide_request_def Let_def case_prod_beta push_decision_state split: sum.split)
  have waiting: "take 16 fp = nid \<and> pr_node_id (pe_request e) = nid"
    if "map_of (pending (nd_pairing (ad_node a))) nid = Some e"
      "fingerprint_from_pubkey_hex (sy_x (as_sys y)) (pr_pubkey_hex (pe_request e)) = Some fp" for e fp
    using map_of_SomeD [OF that(1)] assms that(2)
    by (fastforce simp: admin_sane_def node_sane_def pending_sane_def pairing_ok_def list_all_iff)
  from grants_after_decision [OF d] show ?thesis
  proof
    assume "\<exists>e fp files print. map_of (pending (nd_pairing (ad_node a))) nid = Some e
      \<and> fingerprint_from_pubkey_hex (sy_x (as_sys y)) (pr_pubkey_hex (pe_request e)) = Some fp
      \<and> (files \<or> print) \<and> db_decision b = ''approve''
      \<and> st_data st = grants_upsert (granted (en_clk (ae_env m) 0) (db_duration_secs b) files print fp (pe_request e))
          (grants_of (ad_node a))"
    then obtain e fp files print where e: "map_of (pending (nd_pairing (ad_node a))) nid = Some e"
      "fingerprint_from_pubkey_hex (sy_x (as_sys y)) (pr_pubkey_hex (pe_request e)) = Some fp" "db_decision b = ''approve''"
      "st_data st = grants_upsert (granted (en_clk (ae_env m) 0) (db_duration_secs b) files print fp (pe_request e))
          (grants_of (ad_node a))" by blast
    show ?thesis unfolding st
      by (rule disjI2, rule exI [of _ "granted (en_clk (ae_env m) 0) (db_duration_secs b) files print fp (pe_request e)"])
        (use e waiting [OF e(1,2)] in \<open>simp add: granted_def\<close>)
  qed (simp add: st)
qed

lemma step_refines:
  assumes "step y a l b" "admin_sane (sy_x (as_sys y)) a"
  shows "astep l (acl_of a) (acl_of b)"
  using assms
proof (induction rule: step.induct)
  case (peer a n ip h req)
  have "acl_of (a\<lparr>ad_node := snd (serve (as_sys y) n ip h req (ad_node a))\<rparr>) = acl_of a"
    by (rule acl_cong) (simp add: serve_keeps_grants)
  then show ?case by (simp add: astep.requested)
next
  case (decide a nid b m)
  then have dist: "distinct (map g_fingerprint (grants_of (ad_node a)))"
    by (simp add: admin_sane_def node_sane_def grants_sane_def)
  from decided_grants [OF decide, of m nid b] show ?case
  proof
    assume "\<exists>g. db_decision b = ''approve'' \<and> nid = take 16 (g_fingerprint g) \<and> g_node_id g = nid
      \<and> grants_of (ad_node (snd (snd (decide_request y m nid b a)))) = grants_upsert g (grants_of (ad_node a))"
    then obtain g where g: "db_decision b = ''approve''" "nid = take 16 (g_fingerprint g)" "g_node_id g = nid"
      "grants_of (ad_node (snd (snd (decide_request y m nid b a)))) = grants_upsert g (grants_of (ad_node a))" by blast
    have eq: "acl_of (snd (snd (decide_request y m nid b a))) = (acl_of a)(g_fingerprint g \<mapsto> g)"
      using gf.lookup_put [OF dist] g(4) by (auto simp: acl_of_def)
    show ?thesis unfolding eq g(1) unfolding g(2) by (rule astep.approved) (use g in simp_all)
  next
    assume "grants_of (ad_node (snd (snd (decide_request y m nid b a)))) = grants_of (ad_node a)"
    then have "acl_of (snd (snd (decide_request y m nid b a))) = acl_of a" by (rule acl_cong)
    then show ?thesis by (simp add: astep.undecided)
  qed
next
  case (revoke a fp n)
  then have "acl_of (snd (on_node (revoke_grant y n fp) a)) = (acl_of a)(fp := None)"
    by (intro ext) (simp add: revoke_grant_data acl_of_def find_grant_def find_filter_key)
  then show ?case by (simp only: astep.revoked)
next
  case (update a n fp u)
  show ?case
    by (rule astep.rescoped) (auto simp: acl_of_def update_grant_data intro: find_update_first split: option.split)
next
  case (share a n path fps)
  obtain f where f: "grants_of (snd (share_item y n path fps (ad_node a))) = grants_of (ad_node a)
      \<or> grants_of (snd (share_item y n path fps (ad_node a))) = map (share_on_grant f path fps) (grants_of (ad_node a))"
    using share_item_data by blast
  show ?case
    by (rule astep.rescoped) (use f in \<open>auto simp: acl_of_def intro!: find_map\<close>)
next
  case (settings a m adv chk)
  have "acl_of (snd (put_settings y m adv chk a)) = acl_of a"
    using settings_node [of y m adv chk a] by (intro acl_cong) auto
  then show ?case by (rule astep_other)
next
  case (sweep a faults now now2 clk)
  then have dist: "distinct (map g_fingerprint (grants_of (ad_node a)))"
    by (simp add: admin_sane_def node_sane_def grants_sane_def)
  have "acl_of (a\<lparr>ad_node := (ad_node a)\<lparr>
      nd_grants := fst (sweep_tick (sy_grants (as_sys y)) faults now now2 clk (nd_grants (ad_node a)) (nd_events (ad_node a))),
      nd_events := e\<rparr>\<rparr>) = kept (grant_live now2) (acl_of a)" for e
    using gf.lookup_retain [OF dist] by (simp add: acl_of_def kept_def sweep_data prune_expired_def Let_def fun_eq_iff)
  then show ?case by (simp add: astep.lapsed)
qed (auto simp: other_owner_grants shutdown_node_def update_check_def update_apply_def Let_def case_prod_beta
    owner_calls [THEN called_grants] acl_of_def intro!: astep_idle astep_other acl_cong)

lemma run_refines: "run y a ls b \<Longrightarrow> admin_sane (sy_x (as_sys y)) a \<Longrightarrow> arun (acl_of a) ls (acl_of b)"
proof (induction rule: run.induct)
  case (more a ls b l c)
  then show ?case using step_refines run_sane by (blast intro: arun.go)
qed (rule arun.halt)

end
