(* ===== verification/Startup.thy ===== *)
theory Startup
  imports Config Registry Admin
begin

text \<open>The start of the daemon, @<main> of @<doclinkd/src/main.rs>: the configuration and the command
  line, the identity, the stores, the two roots, the two ports with their fallback, the published
  admin port, the advertisement, and the state the two servers begin with. The background loops it
  spawns are steps of the whole node, not of the start. What the operating system answers is an
  argument; the numbers are those of a release build, where the addition of ports wraps.\<close>

section \<open>Advertising\<close>

text \<open>@<primary_ipv4> asks the routing table with one socket per target: @<probe> is the local address
  that socket has, if it can be had, and whether it is a loopback address.\<close>

type_synonym ipv4 = "nat \<times> nat \<times> nat \<times> nat"

definition probe_ipv4 :: "(ipv4 \<Rightarrow> u16 \<Rightarrow> (ipv4 \<times> bool) option) \<Rightarrow> ipv4 \<Rightarrow> u16 \<Rightarrow> ipv4 option" where
  "probe_ipv4 probe target port = (case probe target port of
     Some (a, loopback) \<Rightarrow> if loopback then None else Some a | None \<Rightarrow> None)"

definition PROBES :: "(ipv4 \<times> u16) list" where
  "PROBES = [((8, 8, 8, 8), 80), ((1, 1, 1, 1), 443), ((224, 0, 0, 251), 5353)]"

definition primary_ipv4 :: "(ipv4 \<Rightarrow> u16 \<Rightarrow> (ipv4 \<times> bool) option) \<Rightarrow> ipv4 option" where
  "primary_ipv4 probe = (case List.find (\<lambda>(ip, port). probe_ipv4 probe ip port \<noteq> None) PROBES of
     None \<Rightarrow> None | Some (ip, port) \<Rightarrow> probe_ipv4 probe ip port)"

fun show_ipv4 :: "ipv4 \<Rightarrow> string" where
  "show_ipv4 (a, b, c, d) = join_with ''.'' [show_nat a, show_nat b, show_nat c, show_nat d]"

record service =
  sv_type :: string
  sv_instance :: string
  sv_host :: string
  sv_ip :: string
  sv_port :: u16
  sv_props :: "(string \<times> string) list"

definition service_info_for :: "ipv4 option \<Rightarrow> string \<Rightarrow> string \<Rightarrow> u16 \<Rightarrow> service option" where
  "service_info_for ip nid name port = map_option (\<lambda>ip.
     \<lparr>sv_type = MDNS_SERVICE_TYPE, sv_instance = ''doclink-'' @ nid, sv_host = mdns_host_name name,
      sv_ip = show_ipv4 ip, sv_port = port,
      sv_props = [(''node_id'', nid), (''http_port'', show_nat (unat port))]\<rparr>) ip"

text \<open>@<register> is the answer of the mDNS daemon, which also refuses a malformed service.\<close>

definition advertise_service :: "(service \<Rightarrow> bool) \<Rightarrow> ipv4 option \<Rightarrow> string \<Rightarrow> string \<Rightarrow> u16 \<Rightarrow> bool" where
  "advertise_service register ip nid name port = (case service_info_for ip nid name port of
     Some svc \<Rightarrow> register svc | None \<Rightarrow> False)"

section \<open>Ports\<close>

definition sat_add16 :: "u16 \<Rightarrow> u16 \<Rightarrow> u16" where
  "sat_add16 a b = (if unat a + unat b < 2 ^ 16 then a + b else 65535)"

definition port_range :: "u16 \<Rightarrow> u16 \<Rightarrow> u16 list" where
  "port_range a b = map of_nat [unat a ..< Suc (unat b)]"

definition bind_with_fallback :: "(u16 \<Rightarrow> bool) \<Rightarrow> u16 \<Rightarrow> u16 \<Rightarrow> u16 option" where
  "bind_with_fallback free preferred tries =
     List.find free (port_range preferred (sat_add16 preferred (tries - 1)))"

section \<open>The start\<close>

record cli =
  cl_config :: "path option"
  cl_port :: "u16 option"

text \<open>What is on the machine before the start: the file system, the key file and the three stores.\<close>

record machine_disk =
  md_fs :: fsys
  md_key :: "bytes option"
  md_grants :: disk
  md_contacts :: disk
  md_print :: disk

record start_env =
  se_var :: "string \<Rightarrow> string option"
  se_cwd :: path
  se_path :: "string \<Rightarrow> path"
  se_parse :: "string \<Rightarrow> toml_fields option"
  se_key_io :: "bool \<times> bool \<times> bool"
  se_fresh_key :: bytes
  se_readable :: "nat \<Rightarrow> bool"
  se_io :: "nat \<Rightarrow> io_out"
  se_now :: u64
  se_free_data :: "u16 \<Rightarrow> bool"
  se_free_admin :: "u16 \<Rightarrow> bool"
  se_tls_ok :: bool
  se_mdns :: bool
  se_probe :: "ipv4 \<Rightarrow> u16 \<Rightarrow> (ipv4 \<times> bool) option"
  se_register :: "service \<Rightarrow> bool"

datatype start_error = Start_Config config_error | Start_Key key_error | Start_Store open_error
  | Start_Share share_error | Start_Inbox inbox_error | Start_No_Port | Start_Tls | Start_Panic

definition effective_config :: "start_env \<Rightarrow> cli \<Rightarrow> fsys \<Rightarrow> start_error + config" where
  "effective_config v c fs = (case config_load (se_var v) (se_parse v) fs (config_file (se_cwd v) (cl_config c)) of
     Inl e \<Rightarrow> Inl (Start_Config e)
   | Inr cfg \<Rightarrow> Inr (case cl_port c of Some p \<Rightarrow> cfg\<lparr>cf_http_port := p\<rparr> | None \<Rightarrow> cfg))"

definition node_info_of :: "ext \<Rightarrow> string \<Rightarrow> node_identity \<Rightarrow> config \<Rightarrow> node_info" where
  "node_info_of x version i cfg = \<lparr>ni_node_id = node_id x i, ni_name = cf_node_name cfg,
     ni_version = PROTOCOL_VERSION, ni_fingerprint = fingerprint x i, ni_app_version = version\<rparr>"

text \<open>The stores and the roots, in the order they are opened; the roots are created when missing.\<close>

record opened =
  op_grants :: "grants_file store"
  op_contacts :: "contacts_file store"
  op_share :: share_root
  op_inbox :: inbox_root
  op_print :: "local_print_file store"

definition open_state :: "sys \<Rightarrow> start_env \<Rightarrow> config \<Rightarrow> machine_disk \<Rightarrow> (start_error + opened) \<times> fsys" where
  "open_state y v cfg d = (case store_open (sy_grants y) (se_readable v 0) (md_grants d) of
     Inl e \<Rightarrow> (Inl (Start_Store e), md_fs d)
   | Inr gs \<Rightarrow> (case store_open (sy_contacts y) (se_readable v 1) (md_contacts d) of
       Inl e \<Rightarrow> (Inl (Start_Store e), md_fs d)
     | Inr cs \<Rightarrow> (case share_new (se_io v 0) (se_now v) (se_path v (cf_share_root cfg)) (md_fs d) of
         (Inl e, fs) \<Rightarrow> (Inl (Start_Share e), fs)
       | (Inr sh, fs) \<Rightarrow> (case inbox_new (se_io v 1) (se_now v) (se_path v (cf_inbox_root cfg)) fs of
           (Inl e, fs) \<Rightarrow> (Inl (Start_Inbox e), fs)
         | (Inr ib, fs) \<Rightarrow> (case store_open (sy_print y) (se_readable v 2) (md_print d) of
             Inl e \<Rightarrow> (Inl (Start_Store e), fs)
           | Inr lp \<Rightarrow> (Inr \<lparr>op_grants = gs, op_contacts = cs, op_share = sh, op_inbox = ib,
               op_print = lp\<rparr>, fs))))))"

definition bind_ports :: "start_env \<Rightarrow> u16 \<Rightarrow> start_error + u16 \<times> u16" where
  "bind_ports v preferred = (case bind_with_fallback (se_free_data v) preferred 200 of
     None \<Rightarrow> Inl Start_No_Port
   | Some dp \<Rightarrow> if \<not> se_tls_ok v then Inl Start_Tls
       else (case bind_with_fallback (se_free_admin v) (dp + 1) 200 of
         None \<Rightarrow> Inl Start_No_Port | Some ap \<Rightarrow> Inr (dp, ap)))"

definition ADMIN_PORT_FILE :: string where "ADMIN_PORT_FILE = ''doclink-admin.port''"

text \<open>The data server opens its own roots on the same configuration, and panics when it cannot.\<close>

definition data_roots :: "start_env \<Rightarrow> config \<Rightarrow> fsys \<Rightarrow> (start_error + share_root \<times> inbox_root) \<times> fsys" where
  "data_roots v cfg fs = (case share_new (se_io v 3) (se_now v) (se_path v (cf_share_root cfg)) fs of
     (Inl e, fs) \<Rightarrow> (Inl Start_Panic, fs)
   | (Inr sh, fs) \<Rightarrow> (case inbox_new (se_io v 4) (se_now v) (se_path v (cf_inbox_root cfg)) fs of
       (Inl e, fs) \<Rightarrow> (Inl Start_Panic, fs)
     | (Inr ib, fs) \<Rightarrow> (Inr (sh, ib), fs)))"

definition update_idle :: update_state where
  "update_idle = \<lparr>up_last_check_unix = None, up_status = None, up_checking = False,
     up_downloading = None, up_error = None, up_applied = False\<rparr>"

text \<open>@<AppState::new> of both servers: they share the stores, the pairing state and the events.\<close>

definition assemble :: "admin_sys \<Rightarrow> start_env \<Rightarrow> cli \<Rightarrow> config \<Rightarrow> node_identity \<Rightarrow> opened
    \<Rightarrow> share_root \<times> inbox_root \<Rightarrow> u16 \<times> u16 \<Rightarrow> fsys \<Rightarrow> admin" where
  "assemble y v c cfg i os roots ports fs = \<lparr>
     ad_node = node_new (node_info_of (sy_x (as_sys y)) (as_version y) i cfg) (fst roots) (snd roots)
       (cf_inbox_max_size cfg) (op_grants os) (op_contacts os) pairing_default events_default (op_print os) i fs,
     ad_peers = [], ad_admin_port = snd ports, ad_scan_enabled = cf_subnet_scan cfg, ad_shutdown = False,
     ad_advertiser = se_mdns v, ad_advertise_on = cf_advertise cfg, ad_data_port = fst ports,
     ad_config_path = config_file (se_cwd v) (cl_config c), ad_check_updates = cf_check_updates cfg,
     ad_update = update_idle\<rparr>"

text \<open>Whether the service is on the network after the start; a failure is only logged.\<close>

definition advertised_at_start :: "start_env \<Rightarrow> admin \<Rightarrow> bool" where
  "advertised_at_start v a \<longleftrightarrow> ad_advertise_on a \<and> ad_advertiser a
     \<and> advertise_service (se_register v) (primary_ipv4 (se_probe v)) (ni_node_id (nd_node (ad_node a)))
         (ni_name (nd_node (ad_node a))) (ad_data_port a)"

definition daemon_start :: "admin_sys \<Rightarrow> start_env \<Rightarrow> cli \<Rightarrow> machine_disk
    \<Rightarrow> (start_error + admin) \<times> machine_disk" where
  "daemon_start y v c d = (case effective_config v c (md_fs d) of
     Inl e \<Rightarrow> (Inl e, d)
   | Inr cfg \<Rightarrow> let
       (rd, dir, wr) = se_key_io v;
       (ki, key) = load_or_generate (md_key d) rd dir wr (se_fresh_key v);
       d = d\<lparr>md_key := key\<rparr>
     in case ki of
       Inl e \<Rightarrow> (Inl (Start_Key e), d)
     | Inr i \<Rightarrow> (case open_state (as_sys y) v cfg d of
         (Inl e, fs) \<Rightarrow> (Inl e, d\<lparr>md_fs := fs\<rparr>)
       | (Inr os, fs) \<Rightarrow> (case bind_ports v (cf_http_port cfg) of
           Inl e \<Rightarrow> (Inl e, d\<lparr>md_fs := fs\<rparr>)
         | Inr ports \<Rightarrow> let
             (_, fs) = fs_write (se_io v 2) (se_now v) (se_cwd v @ [ADMIN_PORT_FILE])
               (show_nat (unat (snd ports))) fs
           in case data_roots v cfg fs of
             (Inl e, fs) \<Rightarrow> (Inl e, d\<lparr>md_fs := fs\<rparr>)
           | (Inr roots, fs) \<Rightarrow> (Inr (assemble y v c cfg i os roots ports fs), d\<lparr>md_fs := fs\<rparr>))))"

section \<open>What a start that succeeds has done\<close>

lemma daemon_start_Inr:
  assumes "daemon_start y v c d = (Inr a, d')"
  obtains cfg i os fs1 ports roots fs3 where
    "effective_config v c (md_fs d) = Inr cfg"
    "load_or_generate (md_key d) (fst (se_key_io v)) (fst (snd (se_key_io v))) (snd (snd (se_key_io v)))
       (se_fresh_key v) = (Inr i, md_key d')"
    "open_state (as_sys y) v cfg (d\<lparr>md_key := md_key d'\<rparr>) = (Inr os, fs1)"
    "bind_ports v (cf_http_port cfg) = Inr ports"
    "data_roots v cfg (snd (fs_write (se_io v 2) (se_now v) (se_cwd v @ [ADMIN_PORT_FILE])
       (show_nat (unat (snd ports))) fs1)) = (Inr roots, fs3)"
    "a = assemble y v c cfg i os roots ports fs3" "md_fs d' = fs3" "md_grants d' = md_grants d"
    "md_contacts d' = md_contacts d" "md_print d' = md_print d"
proof -
  obtain rd dir wr where k: "se_key_io v = (rd, dir, wr)" by (metis prod.collapse)
  show ?thesis
    using assms that
    by (auto simp: daemon_start_def k Let_def split: sum.splits prod.splits)
qed

lemma open_state_Inr:
  assumes "open_state y v cfg d = (Inr os, fs)"
  shows "store_open (sy_grants y) (se_readable v 0) (md_grants d) = Inr (op_grants os)"
    "store_open (sy_contacts y) (se_readable v 1) (md_contacts d) = Inr (op_contacts os)"
    "store_open (sy_print y) (se_readable v 2) (md_print d) = Inr (op_print os)"
    "\<exists>fs0. share_new (se_io v 0) (se_now v) (se_path v (cf_share_root cfg)) (md_fs d) = (Inr (op_share os), fs0)
      \<and> inbox_new (se_io v 1) (se_now v) (se_path v (cf_inbox_root cfg)) fs0 = (Inr (op_inbox os), fs)"
  using assms by (auto simp: open_state_def split: sum.splits prod.splits)

section \<open>Ports\<close>

lemma find_first:
  "List.find P xs = Some x \<longleftrightarrow> (\<exists>i < length xs. x = xs ! i \<and> P x \<and> (\<forall>j < i. \<not> P (xs ! j)))"
  by (auto simp: find_Some_iff)

lemma unat_sat_add16: "unat (sat_add16 a b) = min (unat a + unat b) (2 ^ 16 - 1)"
proof (cases "unat a + unat b < 2 ^ 16")
  case True
  then show ?thesis by (simp add: sat_add16_def unat_word_ariths)
next
  case False
  then show ?thesis by (simp add: sat_add16_def)
qed

lemma unat_u16_of_nat: "n < 2 ^ 16 \<Longrightarrow> unat (of_nat n :: u16) = n"
  by (simp add: unat_of_nat take_bit_nat_eq_self_iff)

lemma port_range_nth:
  assumes "i < length (port_range a b)"
  shows "unat (port_range a b ! i) = unat a + i" "unat a + i \<le> unat b"
proof -
  have i: "unat a + i < Suc (unat b)" using assms by (simp add: port_range_def del: upt_Suc)
  then show "unat a + i \<le> unat b" by simp
  moreover have "unat b < 2 ^ LENGTH(16)" by (rule unsigned_less)
  ultimately have "unat a + i < 2 ^ 16" by simp
  then show "unat (port_range a b ! i) = unat a + i"
    using i unat_u16_of_nat [of "unat a + i"] by (simp add: port_range_def del: upt_Suc of_nat_add)
qed

lemma bind_first_free:
  assumes "bind_with_fallback free preferred tries = Some p"
  shows "free p" "unat preferred \<le> unat p" "unat p \<le> unat preferred + unat (tries - 1)"
    "\<And>q. unat preferred \<le> unat q \<Longrightarrow> unat q < unat p \<Longrightarrow> \<not> free q"
proof -
  let ?l = "sat_add16 preferred (tries - 1)"
  obtain i where i: "i < length (port_range preferred ?l)" "p = port_range preferred ?l ! i" "free p"
    "\<forall>j < i. \<not> free (port_range preferred ?l ! j)"
    using assms unfolding bind_with_fallback_def find_first by blast
  note n = port_range_nth [OF i(1)]
  show "free p" by (rule i(3))
  show "unat preferred \<le> unat p" "unat p \<le> unat preferred + unat (tries - 1)"
    using n i(2) by (simp_all add: unat_sat_add16)
  fix q :: u16 assume q: "unat preferred \<le> unat q" "unat q < unat p"
  let ?j = "unat q - unat preferred"
  have j: "?j < i" using q n i(2) by simp
  then have "unat (port_range preferred ?l ! ?j) = unat q"
    using port_range_nth(1) [of ?j] i(1) q by simp
  then show "\<not> free q" using i(4) j by (metis word_unat_eq_iff)
qed

lemma bind_finds_free:
  assumes "unat preferred \<le> unat q" "unat q \<le> unat (sat_add16 preferred (tries - 1))" "free q"
  shows "bind_with_fallback free preferred tries \<noteq> None"
proof -
  let ?l = "sat_add16 preferred (tries - 1)"
  have "q = of_nat (unat q)" by simp
  then have "q \<in> set (port_range preferred ?l)"
    using assms(1,2) unfolding port_range_def by (auto simp del: upt_Suc intro: image_eqI [of _ _ "unat q"])
  then show ?thesis using assms(3) by (auto simp: bind_with_fallback_def find_None_iff)
qed

lemma bind_preferred: "free p \<Longrightarrow> bind_with_fallback free p tries = Some p"
proof -
  assume p: "free p"
  have "unat p \<le> unat (sat_add16 p (tries - 1))"
    using unsigned_less [of p, where ?'a = nat] by (simp add: unat_sat_add16)
  then have "port_range p (sat_add16 p (tries - 1)) = p # map of_nat [Suc (unat p) ..< Suc (unat (sat_add16 p (tries - 1)))]"
    by (simp add: port_range_def upt_conv_Cons del: upt_Suc)
  then show ?thesis using p by (simp add: bind_with_fallback_def)
qed

lemma unat_next_port: "p \<noteq> 65535 \<Longrightarrow> unat (p + 1) = Suc (unat p)" for p :: u16
proof -
  assume p: "p \<noteq> 65535"
  have "p + 1 \<noteq> 0"
  proof
    assume "p + 1 = 0"
    then have "p = - 1" by (simp add: eq_neg_iff_add_eq_0)
    then show False using p by simp
  qed
  then show ?thesis by (metis add.commute unatSuc)
qed

lemma bind_ports_Inr:
  assumes "bind_ports v preferred = Inr (dp, ap)"
  shows "bind_with_fallback (se_free_data v) preferred 200 = Some dp"
    "bind_with_fallback (se_free_admin v) (dp + 1) 200 = Some ap" "se_tls_ok v"
  using assms by (auto simp: bind_ports_def split: option.splits if_splits)

section \<open>The roots of the two servers\<close>

lemma share_new_Inr:
  "share_new io now p fs = (Inr r, fs') \<Longrightarrow> canon fs' p = Some (sh_root r)
    \<and> fs' = snd (fs_create_dir_all io now p fs)"
  by (auto simp: share_new_def Let_def split: prod.splits if_splits option.splits)

lemma inbox_new_Inr:
  "inbox_new io now p fs = (Inr r, fs') \<Longrightarrow> canon fs' p = Some (ib_root r)
    \<and> fs' = snd (fs_create_dir_all io now p fs)"
  by (auto simp: inbox_new_def Let_def split: prod.splits if_splits option.splits)

lemma data_roots_Inr:
  assumes "data_roots v cfg fs = (Inr (sh, ib), fs')"
  obtains fs0 where "share_new (se_io v 3) (se_now v) (se_path v (cf_share_root cfg)) fs = (Inr sh, fs0)"
    "inbox_new (se_io v 4) (se_now v) (se_path v (cf_inbox_root cfg)) fs0 = (Inr ib, fs')"
  using assms that by (auto simp: data_roots_def split: sum.splits prod.splits)

lemma share_root_eq: "sh_root r = sh_root r' \<Longrightarrow> r = (r' :: share_root)"
  by (cases r, cases r') simp

lemma inbox_root_eq: "ib_root r = ib_root r' \<Longrightarrow> r = (r' :: inbox_root)"
  by (cases r, cases r') simp

text \<open>The owner's server and the data server open the same roots, which are directories reached
  without links; what the admin port file holds stays as it was written.\<close>

lemma roots_agree:
  assumes os: "open_state y v cfg d = (Inr os, fs1)"
    and w: "grows fs1 fs2" and dr: "data_roots v cfg fs2 = (Inr (sh, ib), fs3)"
  shows "sh = op_share os" "ib = op_inbox os" "canon fs3 (se_path v (cf_share_root cfg)) = Some (sh_root sh)"
    "canon fs3 (se_path v (cf_inbox_root cfg)) = Some (ib_root ib)"
proof -
  obtain fs0 where o1: "share_new (se_io v 0) (se_now v) (se_path v (cf_share_root cfg)) (md_fs d) = (Inr (op_share os), fs0)"
    "inbox_new (se_io v 1) (se_now v) (se_path v (cf_inbox_root cfg)) fs0 = (Inr (op_inbox os), fs1)"
    using open_state_Inr(4) [OF os] by blast
  obtain fs4 where d1: "share_new (se_io v 3) (se_now v) (se_path v (cf_share_root cfg)) fs2 = (Inr sh, fs4)"
    "inbox_new (se_io v 4) (se_now v) (se_path v (cf_inbox_root cfg)) fs4 = (Inr ib, fs3)"
    using data_roots_Inr [OF dr] by blast
  have g: "grows fs0 fs1" "grows fs2 fs4" "grows fs4 fs3"
    using inbox_new_Inr [OF o1(2)] share_new_Inr [OF d1(1)] inbox_new_Inr [OF d1(2)] grows_create_dirs by auto
  have 1: "canon fs4 (se_path v (cf_share_root cfg)) = Some (sh_root (op_share os))"
    using share_new_Inr [OF o1(1)] canon_grows grows_trans [OF grows_trans [OF g(1) w] g(2)] by blast
  have 2: "canon fs3 (se_path v (cf_inbox_root cfg)) = Some (ib_root (op_inbox os))"
    using inbox_new_Inr [OF o1(2)] canon_grows grows_trans [OF w grows_trans [OF g(2,3)]] by blast
  show "sh = op_share os" using share_new_Inr [OF d1(1)] 1 share_root_eq by auto
  show "ib = op_inbox os" using inbox_new_Inr [OF d1(2)] 2 inbox_root_eq by auto
  show "canon fs3 (se_path v (cf_share_root cfg)) = Some (sh_root sh)"
    using share_new_Inr [OF d1(1)] canon_grows [OF _ g(3)] by blast
  show "canon fs3 (se_path v (cf_inbox_root cfg)) = Some (ib_root ib)"
    using inbox_new_Inr [OF d1(2)] by blast
qed

lemma data_roots_keeps:
  assumes "data_roots v cfg fs = (Inr roots, fs')"
  shows "fs_get fs q = Some n \<Longrightarrow> fs_get fs' q = Some n" "fs_denied fs' = fs_denied fs" "grows fs fs'"
proof -
  obtain sh ib where r: "roots = (sh, ib)" by fastforce
  obtain fs0 where n: "share_new (se_io v 3) (se_now v) (se_path v (cf_share_root cfg)) fs = (Inr sh, fs0)"
    "inbox_new (se_io v 4) (se_now v) (se_path v (cf_inbox_root cfg)) fs0 = (Inr ib, fs')"
    using data_roots_Inr [OF assms [unfolded r]] by blast
  note d = share_new_Inr [OF n(1), THEN conjunct2] inbox_new_Inr [OF n(2), THEN conjunct2]
  show "fs_get fs q = Some n \<Longrightarrow> fs_get fs' q = Some n" "fs_denied fs' = fs_denied fs" "grows fs fs'"
    unfolding d by (auto simp: create_dirs_keeps intro: grows_trans [OF grows_create_dirs grows_create_dirs])
qed

text \<open>A written file is read back after directories were added.\<close>

lemma read_file_kept:
  assumes "read_file fs p = Some b" "grows fs fs'" "fs_denied fs' = fs_denied fs"
    "\<And>q n. fs_get fs q = Some n \<Longrightarrow> fs_get fs' q = Some n"
  shows "read_file fs' p = Some b"
proof -
  obtain q m where q: "canon fs p = Some q" "q \<notin> set (fs_denied fs)" "fs_get fs q = Some (FFile b m)"
    using assms(1) by (auto simp: read_file_def metadata_def split: option.splits fnode.splits if_splits)
  then show ?thesis using canon_grows [OF q(1) assms(2)] assms(3,4)
    by (simp add: read_file_def metadata_def)
qed

section \<open>Settings outlive the daemon\<close>

lemma put_settings_Inr:
  assumes "put_settings y m adv chk a = (Inr r, a')"
  obtains t where "as_toml y (snapshot_config y a') = Inr t"
    "fs_write (ae_write_config m) (en_clk (ae_env m) 0) (ad_config_path a) t (nd_fs (ad_node a)) = (True, nd_fs (ad_node a'))"
    "ad_advertise_on a' = adv" "ad_check_updates a' = (case chk of None \<Rightarrow> ad_check_updates a | Some v \<Rightarrow> v)"
    "nd_node (ad_node a') = nd_node (ad_node a)" "nd_inbox_max (ad_node a') = nd_inbox_max (ad_node a)"
    "ad_scan_enabled a' = ad_scan_enabled a"
proof -
  obtain tr a1 where t: "toggle_advertise m adv a = (tr, a1)" by force
  have a1: "ad_node a1 = ad_node a" "ad_config_path a1 = ad_config_path a" "ad_check_updates a1 = ad_check_updates a"
    "ad_scan_enabled a1 = ad_scan_enabled a" "\<And>u. tr = Inr u \<Longrightarrow> ad_advertise_on a1 = adv"
    using t by (auto simp: toggle_advertise_def split: if_splits)
  let ?a2 = "case chk of None \<Rightarrow> a1 | Some v \<Rightarrow> a1\<lparr>ad_check_updates := v\<rparr>"
  obtain u where u: "tr = Inr u" using assms t by (cases tr) (auto simp: put_settings_def)
  have a2: "ad_node ?a2 = ad_node a" "ad_config_path ?a2 = ad_config_path a" "ad_scan_enabled ?a2 = ad_scan_enabled a"
    "ad_advertise_on ?a2 = adv" "ad_check_updates ?a2 = (case chk of None \<Rightarrow> ad_check_updates a | Some v \<Rightarrow> v)"
    using a1 u by (auto split: option.split)
  have p: "persist_settings y m (snapshot_config y ?a2) ?a2 = (Inr (), a')"
    using assms t u by (auto simp: put_settings_def Let_def split: prod.splits sum.splits)
  obtain w where w: "as_toml y (snapshot_config y ?a2) = Inr w"
    "fs_write (ae_write_config m) (en_clk (ae_env m) 0) (ad_config_path a) w (nd_fs (ad_node a)) = (True, nd_fs (ad_node a'))"
    "a' = ?a2\<lparr>ad_node := (ad_node ?a2)\<lparr>nd_fs := nd_fs (ad_node a')\<rparr>\<rparr>"
    using p unfolding persist_settings_def a2(1,2) by (auto split: sum.splits prod.splits if_splits)
  have "snapshot_config y a' = snapshot_config y ?a2"
    by (subst w(3)) (simp add: snapshot_config_def)
  moreover have "ad_advertise_on a' = adv" "ad_scan_enabled a' = ad_scan_enabled a"
    "ad_check_updates a' = (case chk of None \<Rightarrow> ad_check_updates a | Some v \<Rightarrow> v)"
    "nd_node (ad_node a') = nd_node (ad_node a)" "nd_inbox_max (ad_node a') = nd_inbox_max (ad_node a)"
    using a2 by (subst w(3), simp)+
  ultimately show ?thesis using that w(1,2) by simp
qed

lemma settings_load:
  assumes "put_settings y m adv chk a = (Inr r, a')" "toml_law (as_toml y) parse" "fs_denied (nd_fs (ad_node a)) = []"
  shows "config_load var parse (nd_fs (ad_node a')) (ad_config_path a) = Inr (snapshot_config y a')"
  using assms(1) by (rule put_settings_Inr) (rule load_after_write [OF assms(2) _ _ assms(3)])

lemma start_config:
  assumes "daemon_start y v c d = (Inr a, d')" "effective_config v c (md_fs d) = Inr cfg"
  shows "ad_advertise_on a = cf_advertise cfg" "ad_check_updates a = cf_check_updates cfg"
    "ad_scan_enabled a = cf_subnet_scan cfg" "ni_name (nd_node (ad_node a)) = cf_node_name cfg"
    "nd_inbox_max (ad_node a) = cf_inbox_max_size cfg"
    "bind_ports v (cf_http_port cfg) = Inr (ad_data_port a, ad_admin_port a)"
  using assms by (auto elim!: daemon_start_Inr simp: assemble_def node_new_def node_info_of_def)

section \<open>What is advertised is found\<close>

text \<open>How a browser sees an advertised service.\<close>

definition resolved :: "service \<Rightarrow> string \<Rightarrow> service_info" where
  "resolved svc full = \<lparr>si_node_id = map_of (sv_props svc) ''node_id'',
     si_http_port = map_of (sv_props svc) ''http_port'', si_addresses = [(sv_ip svc, V4_Routable)],
     si_fullname = full\<rparr>"

lemma advertised_found:
  assumes "service_info_for ip nid name port = Some svc" "nid \<noteq> self_id"
  shows "map_of (browser_event now self_id (ServiceResolved (resolved svc full)) r) nid
    = Some \<lparr>p_node_id = nid, p_name = full, p_addr = sv_ip svc, p_http_port = port, p_fingerprint = [],
        p_last_seen_unix = now\<rparr>"
proof -
  have "unat port < 2 ^ LENGTH(16)" by (rule unsigned_less)
  then have "parse_uint 65536 (show_nat (unat port)) = Some (unat port)" by (simp add: parse_show_nat)
  then show ?thesis using assms
    by (auto simp: service_info_for_def resolved_def browser_event_def pick_addr_def registry_upsert_def
        update_conv Let_def)
qed

lemma goodbye_forgets_service:
  assumes "CHR ''.'' \<notin> set nid" "registry_ok r"
  shows "map_of (browser_event now self_id (ServiceRemoved (full_instance_name nid)) r) nid = None"
proof -
  have "strip_prefix ''doclink-'' (full_instance_name nid) = Some (nid @ CHR ''.'' # MDNS_SERVICE_TYPE)"
    by (simp add: full_instance_name_def strip_prefix_def)
  moreover have "hd (split_on (CHR ''.'') (nid @ CHR ''.'' # w)) = nid" for w
    using assms(1) by (simp add: split_on_append)
  ultimately show ?thesis by (simp add: browser_event_def registry_remove_def delete_conv')
qed

section \<open>The port file\<close>

text \<open>Whether a start gets to write the port file and can.\<close>

definition port_file_written :: "admin_sys \<Rightarrow> start_env \<Rightarrow> cli \<Rightarrow> machine_disk \<Rightarrow> bool" where
  "port_file_written y v c d = (case effective_config v c (md_fs d) of
     Inl e \<Rightarrow> False
   | Inr cfg \<Rightarrow> (case open_state (as_sys y) v cfg d of
       (Inl e, fs) \<Rightarrow> False
     | (Inr os, fs) \<Rightarrow> (case bind_ports v (cf_http_port cfg) of
         Inl e \<Rightarrow> False
       | Inr ports \<Rightarrow> fst (fs_write (se_io v 2) (se_now v) (se_cwd v @ [ADMIN_PORT_FILE])
           (show_nat (unat (snd ports))) fs))))"

lemma open_state_key [simp]: "open_state y v cfg (d\<lparr>md_key := k\<rparr>) = open_state y v cfg d"
  by (simp add: open_state_def split: sum.split prod.split)

end
