(* ===== verification/Lifecycle.thy ===== *)
theory Lifecycle
  imports Machine Startup
begin

text \<open>The daemon over many runs: it starts from what is on the disk, takes the steps of a running
  node, and stops between two steps or crashes within one. What is in the state files outlives it.\<close>

section \<open>Runs and restarts\<close>

text \<open>A computer is off, with what its disk holds, or runs the daemon; the key file is written by the
  start only.\<close>

datatype computer = Off machine_disk | On admin "bytes option"

definition disk_of :: "admin \<Rightarrow> bytes option \<Rightarrow> machine_disk" where
  "disk_of a key = \<lparr>md_fs = nd_fs (ad_node a), md_key = key, md_grants = st_disk (nd_grants (ad_node a)),
     md_contacts = st_disk (nd_contacts (ad_node a)), md_print = st_disk (nd_print (ad_node a))\<rparr>"

text \<open>A crash in the middle of a step leaves each state file old or new, as the saving of a store by
  renaming does; nothing is said of the other files.\<close>

definition crashed :: "admin \<Rightarrow> admin \<Rightarrow> bytes option \<Rightarrow> machine_disk \<Rightarrow> bool" where
  "crashed a b key d \<longleftrightarrow> md_key d = key
     \<and> main_file (md_grants d) \<in> {main_file (st_disk (nd_grants (ad_node a))), main_file (st_disk (nd_grants (ad_node b)))}"

inductive life :: "admin_sys \<Rightarrow> computer \<Rightarrow> label list \<Rightarrow> computer \<Rightarrow> bool" for y where
  begun: "life y s [] s"
| start: "life y s ls (Off d) \<Longrightarrow> daemon_start y v c d = (Inr a, d') \<Longrightarrow> life y s ls (On a (md_key d'))"
| start_fails: "life y s ls (Off d) \<Longrightarrow> daemon_start y v c d = (Inl e, d') \<Longrightarrow> life y s ls (Off d')"
| act: "life y s ls (On a key) \<Longrightarrow> step y a l b \<Longrightarrow> life y s (ls @ [l]) (On b key)"
| stop: "life y s ls (On a key) \<Longrightarrow> life y s ls (Off (disk_of a key))"
| crash: "life y s ls (On a key) \<Longrightarrow> step y a l b \<Longrightarrow> crashed a b key d \<Longrightarrow> life y s (ls @ [l]) (Off d)"

section \<open>What a step writes to the file of the grants\<close>

definition saved_or_kept :: "'t codec \<Rightarrow> 't store \<Rightarrow> 't store \<Rightarrow> bool" where
  "saved_or_kept c st st' \<longleftrightarrow> main_file (st_disk st') = main_file (st_disk st)
     \<or> (\<exists>t. cd_ser c (st_data st') = Some t \<and> main_file (st_disk st') = Some t)"

lemma kept_refl [simp]: "saved_or_kept c st st"
  by (simp add: saved_or_kept_def)

lemma kept_data [simp]: "saved_or_kept c st (st\<lparr>st_data := t\<rparr>)"
  by (simp add: saved_or_kept_def)

lemma kept_save [simp]: "saved_or_kept c st (snd (store_save c faults (st\<lparr>st_data := t\<rparr>)))"
  by (auto simp: saved_or_kept_def store_save_def split: option.split prod.split)
    (metis run_save)

lemma kept_save_grants: "saved_or_kept (sy_grants (as_sys y)) (nd_grants s) (nd_grants (snd (save_grants y n gs s)))"
  using kept_save [of "sy_grants (as_sys y)" "nd_grants s" "en_faults n" gs] by (simp add: save_grants_def case_prod_beta)

lemma kept_owner:
  "saved_or_kept (sy_grants (as_sys y)) (nd_grants s) (nd_grants (snd (revoke_grant y n fp s)))"
  "saved_or_kept (sy_grants (as_sys y)) (nd_grants s) (nd_grants (snd (update_grant y n fp u s)))"
  "saved_or_kept (sy_grants (as_sys y)) (nd_grants s) (nd_grants (snd (share_item y n path fps s)))"
  using kept_save_grants
  by (auto simp: revoke_grant_def update_grant_def share_item_def Let_def case_prod_beta split: option.split sum.split)

lemma kept_decision:
  "saved_or_kept cd st (snd (snd (apply_decision_with_perms x cd faults now nid d dur af ap p st)))"
  by (auto simp: apply_decision_with_perms_def Let_def case_prod_beta split: option.split)

lemma kept_decide: "saved_or_kept (sy_grants (as_sys y)) (nd_grants (ad_node a))
    (nd_grants (ad_node (snd (snd (decide_request y m nid b a)))))"
proof -
  obtain r p st where d: "apply_decision_with_perms (sy_x (as_sys y)) (sy_grants (as_sys y)) (en_faults (ae_env m))
       (en_clk (ae_env m) 0) nid (db_decision b) (db_duration_secs b) (db_allow_files b) (db_allow_print b)
       (nd_pairing (ad_node a)) (nd_grants (ad_node a)) = (r, p, st)" by (metis prod.collapse)
  have "ad_node (snd (list_peers now a')) = ad_node a'" for now a'
    by (simp add: list_peers_def case_prod_beta)
  then have "nd_grants (ad_node (snd (snd (decide_request y m nid b a)))) = st"
    using d by (simp add: decide_request_def Let_def case_prod_beta push_decision_state split: sum.split)
  then show ?thesis using kept_decision [of "sy_grants (as_sys y)" "nd_grants (ad_node a)"] d by (metis snd_conv)
qed

lemma kept_sweep: "saved_or_kept c st (fst (sweep_tick c faults now now2 clk st e))"
  by (simp add: sweep_tick_def Let_def case_prod_beta)

lemma step_file:
  assumes "step y a l b"
  shows "saved_or_kept (sy_grants (as_sys y)) (nd_grants (ad_node a)) (nd_grants (ad_node b))"
  using assms
proof (induction rule: step.induct)
  case (peer a n ip h req)
  then show ?case by (simp add: serve_keeps_grants)
next
  case (settings a m adv chk)
  then show ?case using settings_node [of y m adv chk a] by auto
next
  case (sweep a faults now now2 clk)
  then show ?case by (simp add: kept_sweep)
next
  case (decide a nid b m)
  then show ?case by (rule kept_decide)
qed (auto simp: kept_owner other_owner_grants list_peers_def shutdown_node_def update_check_def
    update_apply_def Let_def case_prod_beta owner_calls [THEN called_grants])

section \<open>The state files stay well formed\<close>

definition stored_sane :: "grants_file codec \<Rightarrow> bytes option \<Rightarrow> bool" where
  "stored_sane c m \<longleftrightarrow> (\<forall>t gs. m = Some t \<longrightarrow> cd_de c t = Some gs \<longrightarrow> grants_sane gs)"

fun computer_ok :: "admin_sys \<Rightarrow> computer \<Rightarrow> bool" where
  "computer_ok y (Off d) = stored_sane (sy_grants (as_sys y)) (main_file (md_grants d))"
| "computer_ok y (On a key) = (admin_sane (sy_x (as_sys y)) a
     \<and> stored_sane (sy_grants (as_sys y)) (main_file (st_disk (nd_grants (ad_node a)))))"

lemma saved_sane:
  assumes "codec_ok c" "saved_or_kept c st st'" "stored_sane c (main_file (st_disk st))" "grants_sane (st_data st')"
  shows "stored_sane c (main_file (st_disk st'))"
  using assms unfolding saved_or_kept_def stored_sane_def codec_ok_def by (metis option.inject)

lemma daemon_start_state:
  assumes "daemon_start y v c d = (Inr a, d')"
  shows "store_open (sy_grants (as_sys y)) (se_readable v 0) (md_grants d) = Inr (nd_grants (ad_node a))"
    "nd_pairing (ad_node a) = pairing_default" "nd_events (ad_node a) = events_default" "ad_peers a = []"
    "md_grants d' = md_grants d"
    "fst (load_or_generate (md_key d) (fst (se_key_io v)) (fst (snd (se_key_io v))) (snd (snd (se_key_io v)))
       (se_fresh_key v)) = Inr (nd_identity (ad_node a))"
    "snd (load_or_generate (md_key d) (fst (se_key_io v)) (fst (snd (se_key_io v))) (snd (snd (se_key_io v)))
       (se_fresh_key v)) = md_key d'"
proof -
  let ?k = "load_or_generate (md_key d) (fst (se_key_io v)) (fst (snd (se_key_io v))) (snd (snd (se_key_io v)))
    (se_fresh_key v)"
  obtain cfg i os fs1 roots fs3 and ports :: "u16 \<times> u16" where
    k: "?k = (Inr i, md_key d')"
    and os: "open_state (as_sys y) v cfg (d\<lparr>md_key := md_key d'\<rparr>) = (Inr os, fs1)"
    and a: "a = assemble y v c cfg i os roots ports fs3" and g: "md_grants d' = md_grants d"
    using assms by (elim daemon_start_Inr) blast
  show "store_open (sy_grants (as_sys y)) (se_readable v 0) (md_grants d) = Inr (nd_grants (ad_node a))"
    using open_state_Inr(1) [OF os] by (simp add: a assemble_def node_new_def)
  show "nd_pairing (ad_node a) = pairing_default" "nd_events (ad_node a) = events_default" "ad_peers a = []"
    "fst ?k = Inr (nd_identity (ad_node a))"
    by (simp_all add: a k assemble_def node_new_def)
  show "md_grants d' = md_grants d" "snd ?k = md_key d'" by (simp_all add: g k)
qed

lemma daemon_start_fails:
  assumes "daemon_start y v c d = (Inl e, d')"
  shows "md_grants d' = md_grants d"
    "md_key d' = md_key d \<or> md_key d' = snd (load_or_generate (md_key d) (fst (se_key_io v)) (fst (snd (se_key_io v)))
       (snd (snd (se_key_io v))) (se_fresh_key v))"
  using assms by (auto simp: daemon_start_def Let_def case_prod_beta split: sum.splits)

lemma opened_disk: "store_open c readable d = Inr st \<Longrightarrow> st_disk st = d"
  by (auto simp: store_open_def split: option.splits if_splits)

lemma opened_sane:
  assumes "store_open c readable d = Inr st" "stored_sane c (main_file d)" "grants_sane (cd_default c)"
  shows "grants_sane (st_data st)" "main_file (st_disk st) = main_file d"
  using assms by (auto simp: store_open_def stored_sane_def split: option.splits if_splits)

lemma life_ok:
  assumes "codec_ok (sy_grants (as_sys y))" "cd_default (sy_grants (as_sys y)) = []"
  shows "life y s ls s' \<Longrightarrow> computer_ok y s \<Longrightarrow> computer_ok y s'"
proof (induction rule: life.induct)
  case (start s ls d v c a d')
  have g: "stored_sane (sy_grants (as_sys y)) (main_file (md_grants d))" using start by simp
  note st = daemon_start_state [OF start(2)]
  have "grants_sane (cd_default (sy_grants (as_sys y)))" by (simp add: assms(2) grants_sane_def)
  note o = opened_sane [OF st(1) g this]
  then have "boot y a" using st by (simp add: boot_def)
  then show ?case using boot_sane o(2) g by simp
next
  case (act s ls a key l b)
  then have "admin_sane (sy_x (as_sys y)) b" using step_sane by simp
  then show ?case using act saved_sane [OF assms(1) step_file [OF act(2)]]
    by (simp add: admin_sane_def node_sane_def)
next
  case (crash s ls a key l b d)
  then have "grants_sane (grants_of (ad_node b))" using step_sane by (simp add: admin_sane_def node_sane_def)
  then show ?case using crash saved_sane [OF assms(1) step_file [OF crash(2)]]
    by (auto simp: crashed_def)
qed (simp_all add: daemon_start_fails(1) disk_of_def)

section \<open>A key keeps no grant it was not given\<close>

definition stored_grant :: "grants_file codec \<Rightarrow> string \<Rightarrow> bytes option \<Rightarrow> bool" where
  "stored_grant c fp m \<longleftrightarrow> (\<exists>t gs. m = Some t \<and> cd_de c t = Some gs \<and> fp \<in> g_fingerprint ` set gs)"

fun grants_key :: "admin_sys \<Rightarrow> string \<Rightarrow> computer \<Rightarrow> bool" where
  "grants_key y fp (Off d) = stored_grant (sy_grants (as_sys y)) fp (main_file (md_grants d))"
| "grants_key y fp (On a key) = (holds_grant fp a
     \<or> stored_grant (sy_grants (as_sys y)) fp (main_file (st_disk (nd_grants (ad_node a)))))"

lemma saved_grant:
  assumes "codec_ok c" "saved_or_kept c st st'" "stored_grant c fp (main_file (st_disk st'))"
    "\<not> stored_grant c fp (main_file (st_disk st))"
  shows "fp \<in> g_fingerprint ` set (st_data st')"
  using assms unfolding saved_or_kept_def stored_grant_def codec_ok_def by (metis option.inject)

lemma opened_grant:
  assumes "store_open c readable d = Inr st" "cd_default c = []" "fp \<in> g_fingerprint ` set (st_data st)"
  shows "stored_grant c fp (main_file d)"
  using assms by (auto simp: store_open_def stored_grant_def split: option.splits if_splits)

lemma life_new_grant:
  assumes c: "codec_ok (sy_grants (as_sys y))" "cd_default (sy_grants (as_sys y)) = []"
  shows "life y s ls s' \<Longrightarrow> computer_ok y s \<Longrightarrow> \<not> grants_key y fp s \<Longrightarrow> grants_key y fp s' \<Longrightarrow>
    Owner_Decision (take 16 fp) ''approve'' \<in> set ls"
proof (induction rule: life.induct)
  case (start s ls d v cl a d')
  note st = daemon_start_state [OF start(2)]
  have "grants_key y fp (Off d)"
    using start(6) opened_disk [OF st(1)] opened_grant [OF st(1) c(2), of fp] by (auto simp: holds_grant_def)
  then show ?case using start by blast
next
  case (act s ls a key l b)
  show ?case
  proof (cases "grants_key y fp (On a key)")
    case False
    have "admin_sane (sy_x (as_sys y)) a" using life_ok [OF c act(1) act(4)] by simp
    moreover have "holds_grant fp b"
      using False act(6) saved_grant [OF c(1) step_file [OF act(2)]] by (auto simp: holds_grant_def)
    ultimately show ?thesis using False step_new_grant [OF act(2)] by simp
  qed (use act in simp)
next
  case (crash s ls a key l b d)
  show ?case
  proof (cases "grants_key y fp (On a key)")
    case False
    have "admin_sane (sy_x (as_sys y)) a" using life_ok [OF c crash(1) crash(5)] by simp
    moreover have "holds_grant fp b"
      using False crash(3,7) saved_grant [OF c(1) step_file [OF crash(2)]]
      by (auto simp: holds_grant_def crashed_def)
    ultimately show ?thesis using False step_new_grant [OF crash(2)] by simp
  qed (use crash in simp)
qed (auto simp: daemon_start_fails(1) disk_of_def)

text \<open>A revocation that is answered with success leaves the key neither in memory nor on the disk.\<close>

lemma revoked_key:
  assumes "codec_ok (sy_grants (as_sys y))" "revoke_grant y n fp (ad_node a) = (Inr u, s')"
  shows "\<not> grants_key y fp (On (a\<lparr>ad_node := s'\<rparr>) key)"
proof -
  let ?gs = "filter (\<lambda>g. g_fingerprint g \<noteq> fp) (grants_of (ad_node a))"
  let ?c = "sy_grants (as_sys y)"
  obtain st where st: "store_save ?c (en_faults n) ((nd_grants (ad_node a))\<lparr>st_data := ?gs\<rparr>) = (True, st)"
    "nd_grants s' = st"
    using assms(2) by (auto simp: revoke_grant_def save_grants_def Let_def split: if_splits prod.splits)
  have d: "st_data st = ?gs" using store_save_data st(1) by (metis snd_conv store.select_convs(1) store.surjective store.update_convs(1))
  obtain t where t: "cd_ser ?c ?gs = Some t" "cd_de ?c t = Some ?gs"
    using assms(1) unfolding codec_ok_def by blast
  have "main_file (st_disk st) = Some t"
    using st(1) t(1) by (auto simp: store_save_def split: prod.splits dest: run_save)
  then show ?thesis using d st(2) t(2) by (auto simp: holds_grant_def stored_grant_def)
qed

section \<open>The identity\<close>

lemma push_event_identity [simp]: "nd_identity (push_event now k t b s) = nd_identity s"
  by (simp add: push_event_def)

lemma serve_identity: "nd_identity (snd (serve y n ip h req s)) = nd_identity s"
proof -
  have "nd_identity (snd (list_handler y n h p s)) = nd_identity s" "nd_identity (snd (file_handler y n h p s)) = nd_identity s"
    "nd_identity (snd (search_handler y n h p s)) = nd_identity s" "nd_identity (snd (upload_handler y n h p b s)) = nd_identity s"
    "nd_identity (snd (print_handler y n h p b s)) = nd_identity s" for s p b
    unfolding list_handler_def file_handler_def search_handler_def upload_handler_def print_handler_def
    by (auto simp: Let_def intro!: with_grant_keeps [where f = nd_identity] split: sum.split option.split prod.split)
  moreover have "nd_identity (snd (pair_request_handler y n b s)) = nd_identity s"
    "nd_identity (snd (pair_decision_handler y n b s)) = nd_identity s"
    "nd_identity (snd (pair_status_handler y n h i s)) = nd_identity s" for s b i
    by (auto simp: pair_request_handler_def admit_request_def pair_decision_handler_def label_contact_def
        pair_status_handler_def Let_def split: sum.split option.split prod.split)
  ultimately show ?thesis
    by (cases req) (auto simp: serve_def answer_def buffered_def rate_limit_pair_def Let_def
        split: option.split prod.split)
qed

lemma owner_identity:
  "nd_identity (snd (revoke_grant y n fp s)) = nd_identity s" "nd_identity (snd (update_grant y n fp u s)) = nd_identity s"
  "nd_identity (snd (share_item y n path fps s)) = nd_identity s" "nd_identity (snd (remove_contact y n nid s)) = nd_identity s"
  "nd_identity (snd (myshare_delete n path s)) = nd_identity s" "nd_identity (snd (admin_inbox_accept n nm s)) = nd_identity s"
  "nd_identity (snd (inbox_discard n nm s)) = nd_identity s"
  by (auto simp: revoke_grant_def update_grant_def share_item_def save_grants_def remove_contact_def myshare_delete_def
      admin_inbox_accept_def inbox_discard_def Let_def case_prod_beta split: option.split sum.split)

lemma decide_identity: "nd_identity (ad_node (snd (snd (decide_request y m nid b a)))) = nd_identity (ad_node a)"
proof -
  have "ad_node (snd (list_peers now a')) = ad_node a'" for now a'
    by (simp add: list_peers_def case_prod_beta)
  then show ?thesis by (simp add: decide_request_def Let_def case_prod_beta push_decision_state split: sum.split)
qed

lemma add_contact_identity: "nd_identity (ad_node (snd (add_contact y n cl polls body a))) = nd_identity (ad_node a)"
proof -
  let ?i = "normalize_id (sy_x (as_sys y)) (ab_node_id body)"
  obtain found a1 where r: "resolve_peer_base y n polls ?i (ab_host body) a = (found, a1)" by force
  have n: "ad_node a1 = ad_node a" using browsed_node [OF browsed_resolve [of a y n polls ?i "ab_host body"]] by (simp add: r)
  show ?thesis unfolding add_contact_def Let_def r prod.case case_prod_beta
    by (auto simp: n save_contact_def case_prod_beta split: option.split sum.split)
qed

lemma send_file_identity: "nd_identity (ad_node (snd (send_file y n cl nid path a))) = nd_identity (ad_node a)"
proof -
  have "ad_node (snd (proxy_upload x cl 0 nid nm body a)) = ad_node a" for x nm body
    by (rule browsed_node [OF browsed_calls(5)])
  then show ?thesis unfolding send_file_def Let_def case_prod_beta by (auto split: sum.split)
qed

lemmas browsing = browsed_owner_calls browsed_print_on browsed_search_all

lemma step_identity: "step y a l b \<Longrightarrow> nd_identity (ad_node b) = nd_identity (ad_node a)"
proof (induction rule: step.induct)
  case (settings a m adv chk)
  then show ?case using settings_node [of y m adv chk a] by auto
qed (auto simp: serve_identity owner_identity decide_identity add_contact_identity send_file_identity list_peers_def
    shutdown_node_def update_check_def update_apply_def Let_def case_prod_beta browsing [THEN browsed_node])

fun key_bytes :: "computer \<Rightarrow> bytes option" where
  "key_bytes (Off d) = md_key d"
| "key_bytes (On a key) = key"

fun key_in_use :: "computer \<Rightarrow> bool" where
  "key_in_use (Off d) = True"
| "key_in_use (On a key) = (key = Some (signing_key (nd_identity (ad_node a))))"

lemma loaded_key:
  assumes "fst (load_or_generate file rd dir wr fresh) = Inr i"
  shows "snd (load_or_generate file rd dir wr fresh) = Some (signing_key i)"
    "file = Some b \<Longrightarrow> snd (load_or_generate file rd dir wr fresh) = file"
  using assms by (auto simp: load_or_generate_def split: option.splits if_splits)

lemma kept_key: "file = Some b \<Longrightarrow> snd (load_or_generate file rd dir wr fresh) = file"
  by (simp add: load_or_generate_def)

lemma life_key:
  "life y s ls s' \<Longrightarrow> key_in_use s \<Longrightarrow>
    key_in_use s' \<and> (key_bytes s = Some k \<longrightarrow> key_bytes s' = Some k)"
proof (induction rule: life.induct)
  case (start s ls d v c a d')
  note st = daemon_start_state(6,7) [OF start(2)]
  have "md_key d = Some k \<Longrightarrow> md_key d' = Some k" using st(2) kept_key by metis
  then show ?case using start loaded_key(1) [OF st(1)] st(2) by simp
next
  case (start_fails s ls d v c e d')
  then show ?case using daemon_start_fails(2) [OF start_fails(2)] kept_key by auto
next
  case (act s ls a key l b)
  then show ?case using step_identity by auto
qed (auto simp: disk_of_def crashed_def)

end
