(* ===== verification/Shell.thy ===== *)
theory Shell
  imports Prelude Utf8 Files Admin
begin

text \<open>The window shell, @<doclink-win/src/main.rs>: finding the daemon through its port file, the
  minimal HTTP client of the event poller, the poller with its cursor, the toast card and the commands
  of the event loop. The tray, its icon and the loop around the commands are in
  @<Tray>; the windows themselves are outside; what the operating system and the network answer is an argument.\<close>

section \<open>The daemon's port\<close>

definition ADMIN_ADDR_PORT :: u16 where "ADMIN_ADDR_PORT = 37656"

definition DATA_PORT :: u16 where "DATA_PORT = 37655"

definition parse_u16 :: "string \<Rightarrow> u16 option" where
  "parse_u16 s = map_option of_nat (parse_uint (2 ^ 16) s)"

text \<open>@<read_to_string>: a file that is UTF-8.\<close>

definition read_text :: "fsys \<Rightarrow> path \<Rightarrow> string option" where
  "read_text fs p = (case read_file fs p of
     Some b \<Rightarrow> if valid_utf8 b then Some b else None | None \<Rightarrow> None)"

text \<open>@<dir> is the directory of the executable, when it is known.\<close>

definition read_admin_port :: "fsys \<Rightarrow> path option \<Rightarrow> u16" where
  "read_admin_port fs dir = (case dir of
     None \<Rightarrow> ADMIN_ADDR_PORT
   | Some d \<Rightarrow> (case Option.bind (read_text fs (d @ [''doclink-admin.port''])) (\<lambda>t. parse_u16 (trim t)) of
       Some port \<Rightarrow> port | None \<Rightarrow> ADMIN_ADDR_PORT))"

section \<open>Starting and stopping the daemon\<close>

definition crlf :: string where "crlf = [CHR 0x0D, CHR 0x0A]"

definition host_header :: "u16 \<Rightarrow> string" where
  "host_header port = ''127.0.0.1:'' @ show_nat (unat port)"

definition shutdown_request :: "u16 \<Rightarrow> string" where
  "shutdown_request port = ''POST /v1/admin/shutdown HTTP/1.1'' @ crlf @ ''Host: '' @ host_header port @ crlf
     @ ''Content-Length: 0'' @ crlf @ ''Connection: close'' @ crlf @ crlf"

text \<open>What happens outside: the request that is written when the port answers, and the kill when
  the daemon is still up at each of the probes of five seconds.\<close>

datatype stop_effect = Sent string | Killed

definition stop_daemon :: "bool \<Rightarrow> bool list \<Rightarrow> u16 \<Rightarrow> stop_effect list" where
  "stop_daemon connects probes port = (if connects then [Sent (shutdown_request port)] else [])
     @ (if list_all (\<lambda>up. up) probes then [Killed] else [])"

text \<open>@<probes> are the answers of @<admin_up>: the first before anything is started, the rest every
  100 ms until 15 s are over. The result tells whether the shell holds a daemon it started, and
  whether one was spawned.\<close>

definition ensure_daemon :: "bool \<Rightarrow> bool \<Rightarrow> bool \<Rightarrow> bool list \<Rightarrow> bool \<times> bool" where
  "ensure_daemon up_first exe_exists spawned probes = (if up_first then (False, False)
     else if \<not> exe_exists \<or> \<not> spawned then (False, False)
     else (list_ex (\<lambda>up. up) probes, True))"

definition FW_MDNS_RULE :: string where "FW_MDNS_RULE = ''DocLink mDNS (UDP 5353)''"

definition FW_DATA_RULE :: string where "FW_DATA_RULE = ''DocLink data (TCP 37655)''"

text \<open>@<netsh> is the output of the listing of one rule, when the command could be run.\<close>

definition firewall_rule_exists :: "(string \<Rightarrow> bytes option) \<Rightarrow> string \<Rightarrow> bool" where
  "firewall_rule_exists netsh name = (case netsh (''name='' @ name) of
     Some out \<Rightarrow> contains name (from_utf8_lossy out) | None \<Rightarrow> False)"

definition ensure_firewall :: "(string \<Rightarrow> bytes option) \<Rightarrow> string option" where
  "ensure_firewall netsh = (if firewall_rule_exists netsh FW_MDNS_RULE \<and> firewall_rule_exists netsh FW_DATA_RULE
     then None
     else Some (''-NoProfile -NonInteractive -WindowStyle Hidden -Command '' @ [CHR 0x22]
       @ ''New-NetFirewallRule -DisplayName '' @ [CHR 0x27] @ FW_MDNS_RULE @ [CHR 0x27]
       @ '' -Direction Inbound -Action Allow -Protocol UDP -LocalPort 5353 -Profile Private | Out-Null; ''
       @ ''New-NetFirewallRule -DisplayName '' @ [CHR 0x27] @ FW_DATA_RULE @ [CHR 0x27]
       @ '' -Direction Inbound -Action Allow -Protocol TCP -LocalPort '' @ show_nat (unat DATA_PORT)
       @ '' -Profile Private | Out-Null'' @ [CHR 0x22]))"

section \<open>The HTTP client\<close>

text \<open>@<split_once> with a string: the first occurrence of a separator.\<close>

fun split_at_str :: "string \<Rightarrow> string \<Rightarrow> (string \<times> string) option" where
  "split_at_str sep [] = (if sep = [] then Some ([], []) else None)"
| "split_at_str sep (c # r) = (if prefix sep (c # r) then Some ([], drop (length sep) (c # r))
     else map_option (\<lambda>(a, b). (c # a, b)) (split_at_str sep r))"

definition hex_digit_val :: "char \<Rightarrow> nat" where
  "hex_digit_val c = (let b = byte_of c in
     if b \<le> 57 then b - 48 else if b \<le> 70 then b - 55 else b - 87)"

definition hex_number :: "string \<Rightarrow> nat" where
  "hex_number s = foldl (\<lambda>n c. n * 16 + hex_digit_val c) 0 s"

text \<open>@<usize::from_str_radix> with radix 16.\<close>

definition parse_hex :: "string \<Rightarrow> nat option" where
  "parse_hex s = (let ds = drop_plus s in
     if ds \<noteq> [] \<and> list_all is_hexdigit ds \<and> hex_number ds < 2 ^ 64 then Some (hex_number ds) else None)"

text \<open>Slicing a string panics inside a character; a result of @<None> is that panic.\<close>

definition char_boundary :: "string \<Rightarrow> nat \<Rightarrow> bool" where
  "char_boundary s n \<longleftrightarrow> n = length s \<or> (n < length s \<and> \<not> is_cont (s ! n))"

lemma split_at_str_shorter: "split_at_str sep s = Some (a, b) \<Longrightarrow> sep \<noteq> [] \<Longrightarrow> length b < length s"
proof (induction s arbitrary: a)
  case (Cons c s)
  then show ?case by (cases sep) (auto simp: less_SucI split: if_splits)
qed (simp split: if_splits)

function dechunk :: "string \<Rightarrow> string option" where
  "dechunk rest = (case split_at_str crlf rest of
     None \<Rightarrow> Some []
   | Some (len_line, remainder) \<Rightarrow> (case parse_hex (trim len_line) of
       None \<Rightarrow> Some []
     | Some len \<Rightarrow>
       if len = 0 \<or> length remainder < len then Some []
       else if \<not> char_boundary remainder len then None
       else (case strip_prefix crlf (drop len remainder) of
         None \<Rightarrow> Some (take len remainder)
       | Some r \<Rightarrow> map_option (\<lambda>out. take len remainder @ out) (dechunk r))))"
  by pat_completeness auto
termination
proof (relation "measure length", simp)
  fix rest x len_line remainder len r
  assume s: "split_at_str crlf rest = Some x" "(len_line, remainder) = x"
    and r: "strip_prefix crlf (drop len remainder) = Some r"
  have "length remainder < length rest"
    using s split_at_str_shorter [of crlf rest len_line remainder] by (simp add: crlf_def)
  moreover have "length r \<le> length remainder"
    using r by (auto simp: strip_prefix_def split: if_splits)
  ultimately show "(r, rest) \<in> measure length" by simp
qed

declare dechunk.simps [simp del]

definition http_get_request :: "u16 \<Rightarrow> string \<Rightarrow> string" where
  "http_get_request port p = ''GET '' @ p @ '' HTTP/1.1'' @ crlf @ ''Host: '' @ host_header port @ crlf
     @ ''Connection: close'' @ crlf @ ''Accept: application/json'' @ crlf @ crlf"

datatype fetched = No_Answer | Body string | Panicked

definition http_body :: "bytes \<Rightarrow> fetched" where
  "http_body buf = (let t = from_utf8_lossy buf in case split_at_str (crlf @ crlf) t of
     None \<Rightarrow> No_Answer
   | Some (_, body) \<Rightarrow>
     if contains ''transfer-encoding: chunked'' (ascii_lowercase t)
     then (case dechunk body of Some out \<Rightarrow> Body out | None \<Rightarrow> Panicked)
     else Body body)"

text \<open>@<net> is the exchange on one connection: the bytes that came before its end, unless some
  step of it failed.\<close>

definition http_get_json :: "(u16 \<Rightarrow> string \<Rightarrow> bytes option) \<Rightarrow> u16 \<Rightarrow> string \<Rightarrow> fetched" where
  "http_get_json net port p = (case net port (http_get_request port p) of
     None \<Rightarrow> No_Answer | Some buf \<Rightarrow> http_body buf)"

section \<open>The poller\<close>

record daemon_event =
  dv_id :: u64
  dv_title :: string
  dv_body :: string

definition TOAST_CURSOR_FILE :: string where "TOAST_CURSOR_FILE = ''doclink-events.cursor''"

definition load_cursor :: "fsys \<Rightarrow> path option \<Rightarrow> u64" where
  "load_cursor fs dir = (case dir of
     None \<Rightarrow> 0
   | Some d \<Rightarrow> (case read_text fs (d @ [TOAST_CURSOR_FILE]) of
       None \<Rightarrow> 0 | Some t \<Rightarrow> (case parse_u64 (trim t) of Some n \<Rightarrow> n | None \<Rightarrow> 0)))"

definition save_cursor :: "io_out \<Rightarrow> u64 \<Rightarrow> path option \<Rightarrow> u64 \<Rightarrow> fsys \<Rightarrow> fsys" where
  "save_cursor io now dir i fs = (case dir of
     None \<Rightarrow> fs | Some d \<Rightarrow> snd (fs_write io now (d @ [TOAST_CURSOR_FILE]) (show_u64 i) fs))"

definition sanitize :: "string \<Rightarrow> string" where
  "sanitize s = map (\<lambda>c. if c = CHR ''|'' then CHR ''/'' else c) s"

definition toast_command :: "daemon_event \<Rightarrow> string" where
  "toast_command ev = ''toast-show|'' @ sanitize (dv_title ev) @ ''|'' @ sanitize (dv_body ev)"

record poller =
  po_last :: u64
  po_primed :: bool
  po_prev_up :: "bool option"

definition poller_start :: "fsys \<Rightarrow> path option \<Rightarrow> poller" where
  "poller_start fs dir = (let i = load_cursor fs dir in
     \<lparr>po_last = i, po_primed = (i \<noteq> 0), po_prev_up = None\<rparr>)"

record poll_env =
  pe_dir :: "path option"
  pe_up :: "u16 \<Rightarrow> bool"
  pe_net :: "u16 \<Rightarrow> string \<Rightarrow> bytes option"
  pe_parse :: "string \<Rightarrow> daemon_event list option"
  pe_io :: io_out
  pe_now :: u64

text \<open>The loop over the events of one answer.\<close>

fun show_new :: "daemon_event list \<Rightarrow> u64 \<Rightarrow> string list \<times> u64" where
  "show_new [] last_id = ([], last_id)"
| "show_new (ev # evs) last_id = (if last_id < dv_id ev
     then (let (cs, l) = show_new evs (dv_id ev) in (toast_command ev # cs, l))
     else show_new evs last_id)"

definition events_path :: "u64 \<Rightarrow> string" where
  "events_path i = ''/v1/admin/events?since='' @ show_u64 i"

text \<open>One turn of the loop: the commands it sends to the window, the state of the poller (@<None>
  when the thread died) and the disk.\<close>

definition poll_tick :: "poll_env \<Rightarrow> fsys \<Rightarrow> poller \<Rightarrow> string list \<times> poller option \<times> fsys" where
  "poll_tick v fs p = (let
     port = read_admin_port fs (pe_dir v);
     up = pe_up v port;
     reload = (if po_prev_up p = Some False \<and> up then [''web-reload''] else []);
     p = p\<lparr>po_prev_up := Some up\<rparr>
   in if \<not> up then (reload, Some p, fs)
   else (case http_get_json (pe_net v) port (events_path (po_last p)) of
       No_Answer \<Rightarrow> (reload, Some p, fs)
     | Panicked \<Rightarrow> (reload, None, fs)
     | Body body \<Rightarrow> (case pe_parse v body of
         None \<Rightarrow> (reload, Some p, fs)
       | Some evs \<Rightarrow>
         if \<not> po_primed p then (if evs = [] then (reload, Some (p\<lparr>po_primed := True\<rparr>), fs)
           else (let i = dv_id (last evs) in (reload, Some (p\<lparr>po_primed := True, po_last := i\<rparr>),
             save_cursor (pe_io v) (pe_now v) (pe_dir v) i fs)))
         else (let (cs, i) = show_new evs (po_last p) in
           (reload @ cs, Some (p\<lparr>po_last := i\<rparr>),
            if i \<noteq> 0 then save_cursor (pe_io v) (pe_now v) (pe_dir v) i fs else fs)))))"

section \<open>Toasts and the event loop\<close>

text \<open>@<ta_card> tells whether the card could be built; @<ta_script> is the last script it ran.\<close>

record toasts =
  ta_card :: bool
  ta_visible :: bool
  ta_script :: "string option"
  ta_queue :: "(string \<times> string) list"

definition toasts_new :: "bool \<Rightarrow> toasts" where
  "toasts_new built = \<lparr>ta_card = built, ta_visible = False, ta_script = None, ta_queue = []\<rparr>"

text \<open>What the web view answers: the text of a string as JSON, and whether a script runs.\<close>

record web_env =
  we_json :: "string \<Rightarrow> string option"
  we_eval :: "string \<Rightarrow> bool"

definition json_or_empty :: "web_env \<Rightarrow> string \<Rightarrow> string" where
  "json_or_empty w s = (case we_json w s of Some j \<Rightarrow> j | None \<Rightarrow> [CHR 0x22, CHR 0x22])"

definition toast_show :: "web_env \<Rightarrow> string \<Rightarrow> string \<Rightarrow> toasts \<Rightarrow> toasts" where
  "toast_show w title body t = (if \<not> ta_card t then t
     else let script = ''showToast('' @ json_or_empty w title @ '', '' @ json_or_empty w body @ '');'' in
       if we_eval w script then t\<lparr>ta_visible := True, ta_script := Some script\<rparr> else t)"

definition close_current :: "web_env \<Rightarrow> toasts \<Rightarrow> toasts" where
  "close_current w t = (let t = (if ta_card t then t\<lparr>ta_visible := False\<rparr> else t) in
     case ta_queue t of [] \<Rightarrow> t | (a, b) # q \<Rightarrow> toast_show w a b (t\<lparr>ta_queue := q\<rparr>))"

record shell =
  sh_visible :: bool
  sh_flag :: bool
  sh_minimized :: bool
  sh_maximized :: bool
  sh_reloads :: nat
  sh_toasts :: toasts
  sh_child :: bool
  sh_exit :: bool
  sh_stopped :: "stop_effect list"

definition shell_start :: "bool \<Rightarrow> bool \<Rightarrow> bool \<Rightarrow> shell" where
  "shell_start autostart built child = \<lparr>sh_visible = (\<not> autostart), sh_flag = True, sh_minimized = False,
     sh_maximized = False, sh_reloads = 0, sh_toasts = toasts_new built, sh_child = child, sh_exit = False,
     sh_stopped = []\<rparr>"

definition window_shown :: "bool \<Rightarrow> shell \<Rightarrow> shell" where
  "window_shown v s = s\<lparr>sh_visible := v, sh_flag := v\<rparr>"

text \<open>The user events of the loop. @<stop> is what stopping the daemon meets outside.\<close>

definition on_command :: "web_env \<Rightarrow> bool \<times> bool list \<Rightarrow> u16 \<Rightarrow> string \<Rightarrow> shell \<Rightarrow> shell" where
  "on_command w stop admin_port cmd s = (
     if cmd = ''drag'' then s
     else if cmd = ''minimize'' then s\<lparr>sh_minimized := True\<rparr>
     else if cmd = ''maximize'' then s\<lparr>sh_maximized := \<not> sh_maximized s\<rparr>
     else if cmd = ''close'' then window_shown False s
     else if cmd = ''open'' then window_shown True s
     else (case strip_prefix ''toast-show|'' cmd of
       Some rest \<Rightarrow> (let (title, body) = (case split_once (CHR ''|'') rest of Some x \<Rightarrow> x | None \<Rightarrow> (rest, []))
         in s\<lparr>sh_toasts := toast_show w title body (sh_toasts s)\<rparr>)
     | None \<Rightarrow>
       if cmd = ''toast-close'' then s\<lparr>sh_toasts := close_current w (sh_toasts s)\<rparr>
       else if cmd = ''toast-open'' then window_shown True (s\<lparr>sh_toasts := close_current w (sh_toasts s)\<rparr>)
       else if cmd = ''web-reload'' then s\<lparr>sh_reloads := Suc (sh_reloads s)\<rparr>
       else if cmd = ''autostart-hide'' then window_shown False s
       else if cmd = ''quit'' then s\<lparr>sh_exit := True, sh_stopped := sh_stopped s
         @ (if sh_child s then stop_daemon (fst stop) (snd stop) admin_port else [])\<rparr>
       else s))"

definition on_close_requested :: "shell \<Rightarrow> shell" where
  "on_close_requested s = window_shown False s"

section \<open>Splitting\<close>

lemma crlf_simps [simp]: "crlf \<noteq> []" "CHR 0x0D \<in> set crlf"
  by (simp_all add: crlf_def)

lemma split_skip:
  assumes "c \<notin> set l"
  shows "split_at_str (c # sep) (l @ s) = map_option (\<lambda>(a, b). (l @ a, b)) (split_at_str (c # sep) s)"
  using assms by (induction l; cases "split_at_str (c # sep) s") auto

lemma split_prefix: "prefix sep s \<Longrightarrow> split_at_str sep s = Some ([], drop (length sep) s)"
  by (cases s) auto

lemma split_found: "split_at_str sep (sep @ s) = Some ([], s)"
  using split_prefix [of sep "sep @ s"] by simp

lemma split_crlf: "CHR 0x0D \<notin> set l \<Longrightarrow> split_at_str crlf (l @ crlf @ s) = Some (l, s)"
  using split_skip [of "CHR 0x0D" l "[CHR 0x0A]" "crlf @ s"] split_found [of crlf s] by (simp add: crlf_def)

lemma split_crlf_None: "CHR 0x0D \<notin> set l \<Longrightarrow> split_at_str crlf l = None"
  using split_skip [of "CHR 0x0D" l "[CHR 0x0A]" "[]"] by (simp add: crlf_def)

text \<open>An HTTP head: lines that are not empty, each with its line end, and the empty line.\<close>

definition http_head :: "string list \<Rightarrow> string" where
  "http_head ls = concat (map (\<lambda>l. l @ crlf) ls) @ crlf"

definition head_line :: "string \<Rightarrow> bool" where
  "head_line l \<longleftrightarrow> l \<noteq> [] \<and> CHR 0x0D \<notin> set l \<and> valid_utf8 l"

lemma split_head:
  assumes "ls \<noteq> []" "list_all head_line ls"
  shows "\<exists>a. split_at_str (crlf @ crlf) (http_head ls @ body) = Some (a, body)"
  using assms
proof (induction ls)
  case (Cons l ls)
  let ?sep = "[CHR 0x0A, CHR 0x0D, CHR 0x0A]"
  have l: "CHR 0x0D \<notin> set l" using Cons.prems by (simp add: head_line_def)
  have sep: "crlf @ crlf = CHR 0x0D # ?sep" by (simp add: crlf_def)
  have "\<exists>a. split_at_str (CHR 0x0D # ?sep) (crlf @ http_head ls @ body) = Some (a, body)"
  proof (cases ls)
    case Nil
    then show ?thesis by (simp add: http_head_def crlf_def)
  next
    case (Cons k ks)
    then obtain d k' where k: "k = d # k'" "d \<noteq> CHR 0x0D"
      using Cons.prems by (cases k) (auto simp: head_line_def)
    have "\<not> prefix (CHR 0x0D # ?sep) (crlf @ http_head ls @ body)"
      using k Cons by (simp add: http_head_def crlf_def)
    then show ?thesis using Cons.IH Cons.prems Cons unfolding sep by (auto simp: crlf_def)
  qed
  then show ?case using split_skip [OF l, of ?sep "crlf @ http_head ls @ body"] unfolding sep
    by (auto simp: http_head_def)
qed simp

lemma valid_crlf [simp]: "valid_utf8 (crlf @ s) = valid_utf8 s"
  by (rule valid_append) (rule valid_ascii, auto simp: crlf_def)

lemma valid_head: "list_all head_line ls \<Longrightarrow> valid_utf8 (http_head ls @ s) = valid_utf8 s"
  by (induction ls) (simp_all add: http_head_def head_line_def valid_append)

text \<open>The answer of a server that states its length.\<close>

lemma http_body_plain:
  assumes "ls \<noteq> []" "list_all head_line ls" "valid_utf8 body"
    "\<not> contains ''transfer-encoding: chunked'' (ascii_lowercase (http_head ls @ body))"
  shows "http_body (http_head ls @ body) = Body body"
  using split_head [OF assms(1,2), of body] assms(3,4)
  by (auto simp: http_body_def Let_def lossy_valid valid_head [OF assms(2)])

lemma contains_in_body: "contains n b \<Longrightarrow> contains n (a @ b)"
  unfolding contains_append by (metis append.assoc)

lemma contains_in_head: "contains n a \<Longrightarrow> contains n (a @ b)"
  unfolding contains_append by (metis append.assoc)

lemma ascii_lowercase_append [simp]: "ascii_lowercase (a @ b) = ascii_lowercase a @ ascii_lowercase b"
  by (simp add: ascii_lowercase_def)

text \<open>The same answer whose body happens to hold the marker of chunked framing.\<close>

lemma http_body_marker:
  assumes "ls \<noteq> []" "list_all head_line ls" "valid_utf8 body" "CHR 0x0D \<notin> set body"
    "contains ''transfer-encoding: chunked'' (ascii_lowercase body)"
  shows "http_body (http_head ls @ body) = Body []"
  using split_head [OF assms(1,2), of body] assms(3,5) split_crlf_None [OF assms(4)]
  by (auto simp: http_body_def Let_def lossy_valid valid_head [OF assms(2)] contains_in_body dechunk.simps [of body])

section \<open>Chunked framing\<close>

text \<open>The encoder of the other side: each chunk with its length in hexadecimal, then a chunk of
  length zero.\<close>

definition hex_digit :: "nat \<Rightarrow> char" where
  "hex_digit n = char_of (if n < 10 then 48 + n else 55 + n)"

fun show_hex :: "nat \<Rightarrow> string" where
  "show_hex n = (if n < 16 then [hex_digit n] else show_hex (n div 16) @ [hex_digit (n mod 16)])"

declare show_hex.simps [simp del]

definition chunked :: "string list \<Rightarrow> string" where
  "chunked cs = concat (map (\<lambda>c. show_hex (length c) @ crlf @ c @ crlf) cs) @ ''0'' @ crlf @ crlf"

lemma hex_digit_props:
  assumes "n < 16"
  shows "is_hexdigit (hex_digit n)" "hex_digit_val (hex_digit n) = n"
  using assms by (auto simp: hex_digit_def is_hexdigit_def is_digit_def hex_digit_val_def Let_def)

lemma show_hex_digits: "c \<in> set (show_hex n) \<Longrightarrow> is_hexdigit c"
proof (induction n rule: show_hex.induct)
  case (1 n)
  then show ?case
    using hex_digit_props(1) [of n] hex_digit_props(1) [of "n mod 16"]
    by (cases "n < 16") (auto simp: show_hex.simps [of n])
qed

lemma hex_number_show [simp]: "hex_number (show_hex n) = n"
proof (induction n rule: show_hex.induct)
  case (1 n)
  then show ?case
    using hex_digit_props(2) [of n] hex_digit_props(2) [of "n mod 16"]
    by (cases "n < 16") (simp_all add: show_hex.simps [of n] hex_number_def)
qed

lemma hexdigit_plain: "is_hexdigit c \<Longrightarrow> byte_of c < 128 \<and> 47 < byte_of c \<and> c \<noteq> CHR 0x0D \<and> c \<noteq> CHR ''+''"
  by (auto simp: is_hexdigit_def is_digit_def)

lemma show_hex_not_Nil [simp]: "show_hex n \<noteq> []"
  by (subst show_hex.simps) simp

lemma no_ws_char: "w \<in> set ws_chars \<Longrightarrow> \<not> is_hexdigit (hd w) \<and> \<not> is_hexdigit (last w) \<and> w \<noteq> []"
  by (auto simp: ws_chars_def is_hexdigit_def is_digit_def)

lemma trim_hexdigits:
  assumes "s \<noteq> []" "is_hexdigit (hd s)" "is_hexdigit (last s)"
  shows "trim s = s"
  unfolding trim_id
proof (intro ballI conjI notI)
  fix w assume w: "w \<in> set ws_chars"
  { assume "prefix w s"
    then have "hd s = hd w" using no_ws_char [OF w] by (auto simp: prefix_def)
    then show False using assms(2) no_ws_char [OF w] by simp }
  { assume "suffix w s"
    then have "last s = last w" using no_ws_char [OF w] by (auto simp: suffix_def)
    then show False using assms(3) no_ws_char [OF w] by simp }
qed

lemma trim_show_hex: "trim (show_hex n) = show_hex n"
  using show_hex_digits [OF hd_in_set [OF show_hex_not_Nil]] show_hex_digits [OF last_in_set [OF show_hex_not_Nil]]
  by (intro trim_hexdigits) simp_all

lemma digit_hexdigit: "is_digit c \<Longrightarrow> is_hexdigit c"
  by (simp add: is_hexdigit_def)

lemma trim_show_nat: "trim (show_nat n) = show_nat n"
  using show_nat_digits [OF hd_in_set [OF show_nat_not_Nil]] show_nat_digits [OF last_in_set [OF show_nat_not_Nil]]
  by (intro trim_hexdigits) (simp_all add: digit_hexdigit)

lemma parse_show_hex: "n < 2 ^ 64 \<Longrightarrow> parse_hex (trim (show_hex n)) = Some n"
proof -
  assume n: "n < 2 ^ 64"
  have "drop_plus (show_hex n) = show_hex n"
    using show_hex_digits [of _ n] hexdigit_plain by (cases "show_hex n") (auto simp: drop_plus_def)
  then show ?thesis using n show_hex_digits [of _ n]
    by (simp add: trim_show_hex parse_hex_def Let_def list_all_iff)
qed

lemma dechunk_step:
  assumes "c \<noteq> []" "length c < 2 ^ 64"
  shows "dechunk (show_hex (length c) @ crlf @ c @ crlf @ r) = map_option (\<lambda>out. c @ out) (dechunk r)"
proof -
  have h: "CHR 0x0D \<notin> set (show_hex (length c))"
    using show_hex_digits [of "CHR 0x0D" "length c"] by (auto dest: hexdigit_plain)
  have b: "char_boundary (c @ crlf @ r) (length c)"
    by (simp add: char_boundary_def crlf_def nth_append is_cont_def)
  show ?thesis
    using assms(1) parse_show_hex [OF assms(2)] b
    by (subst dechunk.simps) (simp add: split_crlf [OF h] strip_prefix_def)
qed

lemma dechunk_chunked:
  assumes "\<And>c. c \<in> set cs \<Longrightarrow> c \<noteq> [] \<and> length c < 2 ^ 64"
  shows "dechunk (chunked cs) = Some (concat cs)"
  using assms
proof (induction cs)
  case Nil
  have "show_hex 0 = ''0''" by code_simp
  then have "trim ''0'' = ''0''" using trim_show_hex [of 0] by simp
  then have "parse_hex (trim ''0'') = Some 0"
    by (simp add: parse_hex_def drop_plus_def is_hexdigit_def is_digit_def hex_number_def hex_digit_val_def)
  moreover have "split_at_str crlf (''0'' @ crlf @ crlf) = Some (''0'', crlf)"
    by (rule split_crlf) simp
  ultimately show ?case by (subst dechunk.simps) (simp add: chunked_def)
next
  case (Cons c cs)
  have "chunked (c # cs) = show_hex (length c) @ crlf @ c @ crlf @ chunked cs" by (simp add: chunked_def)
  then show ?case using dechunk_step [of c "chunked cs"] Cons by simp
qed

lemma valid_chunked: "list_all valid_utf8 cs \<Longrightarrow> valid_utf8 (chunked cs)"
proof (induction cs)
  case Nil
  show ?case unfolding chunked_def by (rule valid_ascii) (auto simp: crlf_def)
next
  case (Cons c cs)
  have "valid_utf8 (show_hex n)" for n
    by (rule valid_ascii) (use show_hex_digits [of _ n] hexdigit_plain in blast)
  moreover have "chunked (c # cs) = show_hex (length c) @ crlf @ c @ crlf @ chunked cs" by (simp add: chunked_def)
  ultimately show ?case using Cons by (simp add: valid_append)
qed

lemma http_body_chunked:
  assumes "ls \<noteq> []" "list_all head_line ls" "list_all valid_utf8 cs"
    "contains ''transfer-encoding: chunked'' (ascii_lowercase (http_head ls))"
    "\<And>c. c \<in> set cs \<Longrightarrow> c \<noteq> [] \<and> length c < 2 ^ 64"
  shows "http_body (http_head ls @ chunked cs) = Body (concat cs)"
  using split_head [OF assms(1,2), of "chunked cs"] assms(4) dechunk_chunked [OF assms(5)]
    valid_chunked [OF assms(3)]
  by (auto simp: http_body_def Let_def lossy_valid valid_head [OF assms(2)] contains_in_head)

section \<open>Toasts\<close>

lemma sanitize_bar [simp]: "CHR ''|'' \<notin> set (sanitize s)"
  by (auto simp: sanitize_def)

lemma split_once_bar: "c \<notin> set a \<Longrightarrow> split_once c (a @ c # b) = Some (a, b)"
  by (simp add: split_once_Some)

text \<open>The command of an event is read back as the event's own two lines.\<close>

lemma on_toast_command:
  "on_command w stop port (toast_command ev) s
    = s\<lparr>sh_toasts := toast_show w (sanitize (dv_title ev)) (sanitize (dv_body ev)) (sh_toasts s)\<rparr>"
proof -
  have "strip_prefix ''toast-show|'' (toast_command ev)
      = Some (sanitize (dv_title ev) @ CHR ''|'' # sanitize (dv_body ev))"
    by (simp add: toast_command_def strip_prefix_def)
  moreover have "hd (toast_command ev) = CHR ''t''" "take 7 (toast_command ev) = ''toast-s''"
    by (simp_all add: toast_command_def)
  ultimately show ?thesis
    by (auto simp: on_command_def split_once_bar)
qed

lemma toast_queue [simp]: "ta_queue (toast_show w a b t) = ta_queue t"
  by (simp add: toast_show_def Let_def)

lemma close_queue: "ta_queue t = [] \<Longrightarrow> ta_queue (close_current w t) = []"
  by (simp add: close_current_def)

lemma either_branch: "P a \<Longrightarrow> P b \<Longrightarrow> P (if c then a else b)"
  by simp

lemma queue_stays_empty:
  assumes "ta_queue (sh_toasts s) = []"
  shows "ta_queue (sh_toasts (on_command w stop port cmd s)) = []"
proof -
  let ?P = "\<lambda>s :: shell. ta_queue (sh_toasts s) = []"
  have q: "ta_queue (close_current w (sh_toasts s)) = []" by (rule close_queue [OF assms])
  have v: "?P (window_shown v s) \<longleftrightarrow> ?P s" for v s by (simp add: window_shown_def)
  show ?thesis
  proof (cases "strip_prefix ''toast-show|'' cmd")
    case None
    show ?thesis unfolding on_command_def None option.case
      by (intro either_branch [of ?P]; simp add: q v assms)
  next
    case (Some a)
    show ?thesis unfolding on_command_def Some option.case case_prod_beta Let_def
      by (intro either_branch [of ?P]; simp add: v assms)
  qed
qed

end
