(* ===== verification/Notify.thy ===== *)
theory Notify
  imports Shell Startup DataPlane
begin

text \<open>The window shell together with the daemon: the port file that leads the shell to the daemon, and
  the event ring that feeds its toasts.\<close>

section \<open>What the daemon answers\<close>

definition shown_of :: "event \<Rightarrow> daemon_event" where
  "shown_of ev = \<lparr>dv_id = ev_id ev, dv_title = ev_title ev, dv_body = ev_body ev\<rparr>"

text \<open>The poll of a poller reaches a daemon with these events.\<close>

definition feeds :: "poll_env \<Rightarrow> fsys \<Rightarrow> poller \<Rightarrow> events \<Rightarrow> bool" where
  "feeds v fs p e \<longleftrightarrow> (let port = read_admin_port fs (pe_dir v) in pe_up v port
     \<and> (\<exists>body. http_get_json (pe_net v) port (events_path (po_last p)) = Body body
          \<and> pe_parse v body = Some (map shown_of (since (po_last p) e))))"

lemma fed_tick:
  assumes "feeds v fs p e" "po_primed p"
  shows "poll_tick v fs p = ((if po_prev_up p = Some False then [''web-reload''] else [])
      @ fst (show_new (map shown_of (since (po_last p) e)) (po_last p)),
    Some (p\<lparr>po_prev_up := Some True, po_last := snd (show_new (map shown_of (since (po_last p) e)) (po_last p))\<rparr>),
    if snd (show_new (map shown_of (since (po_last p) e)) (po_last p)) \<noteq> 0
    then save_cursor (pe_io v) (pe_now v) (pe_dir v)
      (snd (show_new (map shown_of (since (po_last p) e)) (po_last p))) fs else fs)"
  using assms by (auto simp: feeds_def poll_tick_def Let_def case_prod_beta)

lemma missed_tick:
  assumes "\<not> pe_up v (read_admin_port fs (pe_dir v))
    \<or> http_get_json (pe_net v) (read_admin_port fs (pe_dir v)) (events_path (po_last p)) = No_Answer"
  shows "\<exists>up cs. poll_tick v fs p = (cs, Some (p\<lparr>po_prev_up := up\<rparr>), fs) \<and> set cs \<subseteq> {''web-reload''}"
  using assms by (auto simp: poll_tick_def Let_def)

section \<open>New events\<close>

fun news :: "u64 \<Rightarrow> (u64 \<times> string \<times> string \<times> string) list \<Rightarrow> event list" where
  "news i [] = []"
| "news i ((now, k, t, b) # ps) =
     \<lparr>ev_id = i + 1, ev_kind = k, ev_title = t, ev_body = b, ev_unix = now\<rparr> # news (i + 1) ps"

lemma length_news [simp]: "length (news i ps) = length ps"
  by (induction i ps rule: news.induct) auto

lemma push_all_news:
  "length (items e) \<le> CAP \<Longrightarrow>
    items (push_all ps e) = drop (length (items e) + length ps - CAP) (items e @ news (next_id e) ps)"
proof (induction ps e rule: push_all.induct)
  case (2 now k t b ps e)
  let ?e = "snd (push now k t b e)"
  let ?ev = "\<lparr>ev_id = next_id e + 1, ev_kind = k, ev_title = t, ev_body = b, ev_unix = now\<rparr>"
  have e: "next_id ?e = next_id e + 1" "items ?e = drop (Suc (length (items e)) - CAP) (items e @ [?ev])"
    by (simp_all add: push_def Let_def pop_to_cap_drop)
  have "items (push_all ps ?e) = drop (length (items ?e) + length ps - CAP) (items ?e @ news (next_id ?e) ps)"
    by (rule "2.IH") (simp add: e(2))
  also have "\<dots> = drop (length (items e) + length ((now, k, t, b) # ps) - CAP)
      (items e @ ?ev # news (next_id e + 1) ps)"
  proof (cases "length (items e) = CAP")
    case True
    then obtain v vs where v: "items e = v # vs" by (cases "items e") (auto simp: CAP_def)
    then show ?thesis using True by (simp add: e(1) e(2) v)
  next
    case False
    then have "Suc (length (items e)) - CAP = 0" using 2(2) by simp
    then show ?thesis by (simp add: e(1) e(2))
  qed
  finally show ?case by simp
qed simp

lemma show_new_all:
  assumes "unat i + length ps < u64_limit"
  shows "show_new (map shown_of (news i ps)) i
    = (map (\<lambda>ev. toast_command (shown_of ev)) (news i ps), i + of_nat (length ps))"
  using assms
proof (induction i ps rule: news.induct)
  case (2 i now k t b ps)
  have "i + 1 \<noteq> 0" by (rule unat_no_wrap) (use 2(2) in simp)
  then have u: "unat (i + 1) = Suc (unat i)" by (rule unat_succ)
  then have "i < i + 1" by (simp add: word_less_nat_alt)
  then show ?case using 2 u by (simp add: shown_of_def add.assoc)
qed simp

text \<open>The lines of a toast for a push.\<close>

fun toast_lines :: "u64 \<times> string \<times> string \<times> string \<Rightarrow> string" where
  "toast_lines (now, k, t, b) = ''toast-show|'' @ sanitize t @ ''|'' @ sanitize b"

lemma news_toasts: "map (\<lambda>ev. toast_command (shown_of ev)) (news i ps) = map toast_lines ps"
  by (induction i ps rule: news.induct) (simp_all add: toast_command_def shown_of_def)

lemma toast_lines_not_reload: "toast_lines p \<noteq> ''web-reload''"
  by (cases p) simp

section \<open>A cursor ahead of the daemon\<close>

lemma since_ahead:
  assumes "ring_ok e" "next_id e \<le> i"
  shows "since i e = []"
proof -
  have "length (map (\<lambda>v. unat (ev_id v)) (since i e)) = 0"
    unfolding since_ids [OF assms(1)] using assms(2) by (simp add: word_le_nat_alt)
  then show ?thesis by simp
qed

lemma stale_tick:
  assumes "ring_ok e" "next_id e \<le> po_last p" "po_primed p" "feeds v fs p e"
  shows "\<exists>fs'. poll_tick v fs p = ((if po_prev_up p = Some False then [''web-reload''] else []),
    Some (p\<lparr>po_prev_up := Some True\<rparr>), fs')"
  using fed_tick [OF assms(4,3)] since_ahead [OF assms(1,2)] by (cases p) simp

section \<open>The cursor file\<close>

lemma valid_show_nat: "valid_utf8 (show_nat n)"
  by (rule valid_ascii) (auto dest: show_nat_digits simp: is_digit_def)

lemma read_number:
  assumes "fs_write io now p (show_nat n) fs = (True, fs')" "fs_denied fs = []"
  shows "read_text fs' p = Some (show_nat n)"
  using read_after_write [OF assms] valid_show_nat by (simp add: read_text_def)

lemma cursor_read_back:
  assumes "fst (fs_write io now (d @ [TOAST_CURSOR_FILE]) (show_u64 i) fs)" "fs_denied fs = []"
  shows "load_cursor (save_cursor io now (Some d) i fs) (Some d) = i"
proof -
  obtain fs' where w: "fs_write io now (d @ [TOAST_CURSOR_FILE]) (show_u64 i) fs = (True, fs')"
    using assms(1) by (metis (full_types) prod.collapse)
  then have "read_text fs' (d @ [TOAST_CURSOR_FILE]) = Some (show_u64 i)"
    using read_number assms(2) unfolding show_u64_def by blast
  moreover have "trim (show_u64 i) = show_u64 i" by (simp add: show_u64_def trim_show_nat)
  ultimately show ?thesis by (simp add: load_cursor_def save_cursor_def w)
qed

section \<open>The port file\<close>

lemma port_read_back:
  assumes "read_text fs (d @ [''doclink-admin.port'']) = Some (show_nat (unat port))"
  shows "read_admin_port fs (Some d) = port"
proof -
  have "unat port < 2 ^ LENGTH(16)" by (rule unsigned_less)
  then show ?thesis using assms
    by (simp add: read_admin_port_def trim_show_nat parse_u16_def parse_show_nat)
qed

text \<open>The requests of the shell carry a host the guard of the daemon lets pass.\<close>

lemma host_header_allowed: "authority_allowed (host_header port) port"
proof -
  have d: "is_digit c \<Longrightarrow> lower_char c = c" for c by (auto simp: is_digit_def lower_char_def)
  have n: "ascii_lowercase (show_nat n) = show_nat n" for n
    unfolding ascii_lowercase_def using show_nat_digits d by (intro map_idI) blast
  have h: "ascii_lowercase ''127.0.0.1:'' = ''127.0.0.1:''" by code_simp
  have "is_hexdigit (last (show_nat (unat port)))"
    using show_nat_digits [OF last_in_set [OF show_nat_not_Nil]] by (rule digit_hexdigit)
  then have "trim (host_header port) = host_header port"
    by (intro trim_hexdigits) (simp_all add: host_header_def is_hexdigit_def is_digit_def)
  moreover have l: "ascii_lowercase (host_header port) = host_header port"
    unfolding host_header_def ascii_lowercase_append n h ..
  moreover have "strip_opt ''http://'' (host_header port) = host_header port"
    "strip_opt ''https://'' (host_header port) = host_header port"
    by (simp_all add: host_header_def strip_opt_def strip_prefix_def)
  ultimately have "bare_authority (host_header port) = ''127.0.0.1'' @ '':'' @ show_nat (unat port) @ []"
    unfolding bare_authority_def by (simp add: host_header_def)
  then show ?thesis unfolding authority_allowed_iff local_hosts_def by auto
qed

lemma start_publishes_port:
  assumes "daemon_start y v c d = (Inr a, d')" "port_file_written y v c d" "fs_denied (md_fs d) = []"
  shows "read_admin_port (nd_fs (ad_node a)) (Some (se_cwd v)) = ad_admin_port a"
  using assms(1)
proof (rule daemon_start_Inr)
  fix cfg i os fs1 roots fs3 and ports :: "u16 \<times> u16"
  let ?p = "se_cwd v @ [ADMIN_PORT_FILE]" and ?t = "show_nat (unat (snd ports))"
  assume cfg: "effective_config v c (md_fs d) = Inr cfg" and ports: "bind_ports v (cf_http_port cfg) = Inr ports"
    and "open_state (as_sys y) v cfg (d\<lparr>md_key := md_key d'\<rparr>) = (Inr os, fs1)"
    and dr: "data_roots v cfg (snd (fs_write (se_io v 2) (se_now v) ?p ?t fs1)) = (Inr roots, fs3)"
    and a: "a = assemble y v c cfg i os roots ports fs3"
  then have os: "open_state (as_sys y) v cfg d = (Inr os, fs1)" by simp
  obtain fs0 where n: "share_new (se_io v 0) (se_now v) (se_path v (cf_share_root cfg)) (md_fs d) = (Inr (op_share os), fs0)"
    "inbox_new (se_io v 1) (se_now v) (se_path v (cf_inbox_root cfg)) fs0 = (Inr (op_inbox os), fs1)"
    using open_state_Inr(4) [OF os] by auto
  have g: "fs_denied fs1 = []"
    using share_new_Inr [OF n(1)] inbox_new_Inr [OF n(2)] assms(3) by (simp add: create_dirs_keeps(2))
  obtain fs2 where w: "fs_write (se_io v 2) (se_now v) ?p ?t fs1 = (True, fs2)"
    using assms(2) by (simp add: port_file_written_def cfg os ports) (metis (full_types) prod.collapse)
  have k: "data_roots v cfg fs2 = (Inr roots, fs3)" using dr unfolding w by simp
  have "read_file fs3 ?p = Some ?t"
    by (rule read_file_kept [OF read_after_write(1) [OF w g]]) (rule data_roots_keeps [OF k], assumption?)+
  then have "read_text (nd_fs (ad_node a)) ?p = Some ?t"
    using valid_show_nat by (simp add: a assemble_def node_new_def read_text_def)
  then show ?thesis using port_read_back by (simp add: a assemble_def ADMIN_PORT_FILE_def)
qed

section \<open>A name that looks like chunked framing\<close>

definition MARKER :: string where "MARKER = ''transfer-encoding: chunked''"

text \<open>Text that JSON copies as it stands: printable ASCII without the quotation mark and the backslash.\<close>

definition plain_text :: "string \<Rightarrow> bool" where
  "plain_text s \<longleftrightarrow> list_all (\<lambda>c. 32 \<le> byte_of c \<and> byte_of c < 127 \<and> c \<noteq> CHR 0x22 \<and> c \<noteq> CHR 0x5C) s"

text \<open>What is documented of the JSON writer: UTF-8 without control characters, which holds the plain
  titles of the events it is given.\<close>

definition json_law :: "(event list \<Rightarrow> string) \<Rightarrow> bool" where
  "json_law json \<longleftrightarrow> (\<forall>evs. valid_utf8 (json evs) \<and> CHR 0x0D \<notin> set (json evs)
     \<and> (\<forall>ev \<in> set evs. plain_text (ev_title ev) \<longrightarrow> contains (ev_title ev) (json evs)))"

lemma contains_trans: "contains a b \<Longrightarrow> contains b c \<Longrightarrow> contains a c"
  unfolding contains_append by (metis append.assoc)

lemma contains_lower: "contains a b \<Longrightarrow> contains (ascii_lowercase a) (ascii_lowercase b)"
  unfolding contains_append by (metis ascii_lowercase_append)

lemma marker_tick:
  assumes "json_law json" "ls \<noteq> []" "list_all head_line ls"
    and "ev \<in> set (since (po_last p) e)" "plain_text (ev_title ev)" "contains MARKER (ascii_lowercase (ev_title ev))"
    and "pe_up v (read_admin_port fs (pe_dir v))"
    and "pe_net v (read_admin_port fs (pe_dir v)) (http_get_request (read_admin_port fs (pe_dir v)) (events_path (po_last p)))
      = Some (http_head ls @ json (since (po_last p) e))" "pe_parse v [] = None"
  shows "poll_tick v fs p = ((if po_prev_up p = Some False then [''web-reload''] else []),
    Some (p\<lparr>po_prev_up := Some True\<rparr>), fs)"
proof -
  let ?b = "json (since (po_last p) e)"
  have b: "valid_utf8 ?b" "CHR 0x0D \<notin> set ?b" "contains (ev_title ev) ?b"
    using assms(1,4,5) by (auto simp: json_law_def)
  have "contains MARKER (ascii_lowercase ?b)"
    using contains_trans [OF assms(6) contains_lower [OF b(3)]] .
  then have "http_body (http_head ls @ ?b) = Body []"
    using http_body_marker [OF assms(2,3) b(1,2)] by (simp add: MARKER_def)
  then show ?thesis using assms(7-9) by (simp add: poll_tick_def http_get_json_def Let_def)
qed

text \<open>The event of a new pairing request carries the name the peer chose.\<close>

lemma pair_request_event:
  assumes "pair_request_handler y n b s = (Inr resp, s')" "ps_status resp = Pending"
    and "sy_pair_request y b = Some req" "map_of (pending (nd_pairing s)) (pr_node_id req) = None"
  shows "\<exists>k body. nd_events s' = push_all [(en_clk n 3, k, pr_name req @ '' wants access to your files'', body)] (nd_events s)"
  using assms
  by (auto simp: pair_request_handler_def admit_request_def Let_def push_event_def
      split: option.splits sum.splits if_splits prod.splits) (rule exI, rule exI, rule refl)+

lemma new_event_seen:
  assumes "unat (next_id e) + 1 < u64_limit" "i \<le> next_id e"
  shows "\<exists>ev \<in> set (since i (push_all [(now, k, t, b)] e)). ev_title ev = t"
proof -
  have "next_id e + 1 \<noteq> 0" by (rule unat_no_wrap [OF assms(1)])
  then have "unat (next_id e + 1) = Suc (unat (next_id e))" by (rule unat_succ)
  then have "i < next_id e + 1" using assms(2) by (simp add: word_less_nat_alt word_le_nat_alt)
  moreover have "drop n (xs @ [x]) = drop n xs @ [x]" if "n \<le> length xs" for n and xs :: "event list" and x
    using that by simp
  ultimately show ?thesis
    by (simp add: push_def Let_def pop_to_cap_drop since_def CAP_def)
qed

end
