(* ===== verification/Interleave.thy ===== *)
theory Interleave
  imports Inbox
begin

text \<open>Uploads at the same time. @<write_file> of @<doclinkd/src/inbox.rs> looks for a free name and then
  awaits one file operation after the other, and no lock is held: at each @<await> another upload may
  run. Here it is a machine that takes one operation a step; alone it does what @<write_file> does, and
  any number of them share one inbox in any order of their steps. A single file operation is one step.\<close>

section \<open>One upload, step by step\<close>

datatype upload_pc = Choosing | Writing string | Renaming string | Noting string
  | Stored string | Failed string | Rejected

record upload =
  ul_name :: string
  ul_body :: bytes
  ul_meta :: inbox_meta
  ul_io :: "nat \<Rightarrow> io_out"
  ul_now :: u64
  ul_pc :: upload_pc

definition part_path :: "inbox_root \<Rightarrow> string \<Rightarrow> path" where
  "part_path r st = ib_root r @ [''.'' @ st @ ''.part'']"

definition stored_path :: "inbox_root \<Rightarrow> string \<Rightarrow> path" where
  "stored_path r st = ib_root r @ [st]"

definition upload_step :: "inbox_meta codec \<Rightarrow> inbox_root \<Rightarrow> upload \<Rightarrow> fsys \<Rightarrow> upload \<times> fsys" where
  "upload_step mc r u fs = (case ul_pc u of
     Choosing \<Rightarrow> (u\<lparr>ul_pc := (if \<not> valid_name (trim (ul_name u)) then Rejected
       else Writing (dedupe_in_dir fs (ib_root r) (trim (ul_name u))))\<rparr>, fs)
   | Writing st \<Rightarrow> (let (ok, fs') = fs_write (ul_io u 0) (ul_now u) (part_path r st) (ul_body u) fs in
       (u\<lparr>ul_pc := (if ok then Renaming st else Failed st)\<rparr>, fs'))
   | Renaming st \<Rightarrow> (case fs_rename (ul_io u 1) (part_path r st) (stored_path r st) fs of
       (Inl _, fs') \<Rightarrow> (u\<lparr>ul_pc := Failed st\<rparr>, fs') | (Inr _, fs') \<Rightarrow> (u\<lparr>ul_pc := Noting st\<rparr>, fs'))
   | Noting st \<Rightarrow> (case cd_ser mc (ul_meta u) of
       None \<Rightarrow> (u\<lparr>ul_pc := Stored st\<rparr>, fs)
     | Some raw \<Rightarrow> (let (ok, fs') = fs_write (ul_io u 2) (ul_now u) (sidecar_path r st) raw fs in
         (u\<lparr>ul_pc := (if ok then Stored st else Failed st)\<rparr>, fs')))
   | _ \<Rightarrow> (u, fs))"

text \<open>What the caller is told, and the name an upload has taken.\<close>

fun answered :: "upload_pc \<Rightarrow> (inbox_error + string) option" where
  "answered (Stored st) = Some (Inr st)"
| "answered (Failed st) = Some (Inl InboxIo)"
| "answered Rejected = Some (Inl InvalidName)"
| "answered _ = None"

fun chosen :: "upload_pc \<Rightarrow> string option" where
  "chosen (Writing st) = Some st"
| "chosen (Renaming st) = Some st"
| "chosen (Noting st) = Some st"
| "chosen (Stored st) = Some st"
| "chosen (Failed st) = Some st"
| "chosen _ = None"

definition alone :: "inbox_meta codec \<Rightarrow> inbox_root \<Rightarrow> nat \<Rightarrow> upload \<times> fsys \<Rightarrow> upload \<times> fsys" where
  "alone mc r n = (\<lambda>(u, fs). upload_step mc r u fs) ^^ n"

lemma alone_simps:
  "alone mc r 0 x = x" "alone mc r (Suc n) (u, fs) = alone mc r n (upload_step mc r u fs)"
  by (simp_all add: alone_def funpow_swap1 del: funpow.simps(2)) (simp add: funpow_Suc_right del: funpow.simps(2))

lemma alone_settled: "answered (ul_pc u) \<noteq> None \<Longrightarrow> alone mc r n (u, fs) = (u, fs)"
  by (induction n) (auto simp: alone_simps upload_step_def split: upload_pc.splits)

lemma upload_alone:
  assumes "ul_pc u = Choosing" "write_file mc (ul_io u) (ul_now u) r (ul_name u) (ul_body u) (ul_meta u) fs = (out, fs')"
  shows "\<exists>pc. alone mc r 4 (u, fs) = (u\<lparr>ul_pc := pc\<rparr>, fs') \<and> answered pc = Some out"
proof -
  let ?u = "\<lambda>pc. u\<lparr>ul_pc := pc\<rparr>"
  have 4: "(4 :: nat) = Suc (Suc (Suc (Suc 0)))" by simp
  define st where "st = dedupe_in_dir fs (ib_root r) (trim (ul_name u))"
  obtain ok fs1 where w: "fs_write (ul_io u 0) (ul_now u) (part_path r st) (ul_body u) fs = (ok, fs1)" by force
  obtain res fs2 where m: "fs_rename (ul_io u 1) (part_path r st) (stored_path r st) fs1 = (res, fs2)" by force
  note d = 4 alone_simps alone_settled upload_step_def assms(1) Let_def st_def [symmetric]
  consider "\<not> valid_name (trim (ul_name u))" | "valid_name (trim (ul_name u))" "\<not> ok"
    | e where "valid_name (trim (ul_name u))" ok "res = Inl e" | x where "valid_name (trim (ul_name u))" ok "res = Inr x"
    by (cases res) auto
  then show ?thesis
  proof cases
    case 1
    then show ?thesis using assms(2) by (auto simp: d write_file_def)
  next
    case 2
    then show ?thesis using assms(2) w by (auto simp: d write_file_def part_path_def)
  next
    case 3
    then show ?thesis using assms(2) w m by (auto simp: d write_file_def part_path_def stored_path_def)
  next
    case 4
    then show ?thesis using assms(2) w m
      by (auto simp: d write_file_def part_path_def stored_path_def split: option.splits prod.splits if_splits)
  qed
qed

section \<open>Any number of uploads\<close>

inductive together :: "inbox_meta codec \<Rightarrow> inbox_root \<Rightarrow> upload list \<Rightarrow> fsys \<Rightarrow> upload list \<Rightarrow> fsys \<Rightarrow> bool"
  for mc r us fs where
  started: "together mc r us fs us fs"
| turn: "together mc r us fs vs fs1 \<Longrightarrow> i < length vs \<Longrightarrow> upload_step mc r (vs ! i) fs1 = (u, fs2)
    \<Longrightarrow> together mc r us fs (vs[i := u]) fs2"

text \<open>What an upload must find on the disk at the point it has reached.\<close>

definition upload_holds :: "inbox_root \<Rightarrow> fsys \<Rightarrow> upload \<Rightarrow> bool" where
  "upload_holds r fs u \<longleftrightarrow> (let mine = Some (FFile (ul_body u) (Some (ul_now u))) in case ul_pc u of
     Renaming st \<Rightarrow> fs_get fs (part_path r st) = mine
   | Noting st \<Rightarrow> fs_get fs (stored_path r st) = mine
   | Stored st \<Rightarrow> fs_get fs (stored_path r st) = mine
   | _ \<Rightarrow> True)"

definition names_valid :: "upload list \<Rightarrow> bool" where
  "names_valid us \<longleftrightarrow> (\<forall>u \<in> set us. \<forall>st. chosen (ul_pc u) = Some st \<longrightarrow> valid_name st)"

definition all_hold :: "inbox_root \<Rightarrow> upload list \<Rightarrow> fsys \<Rightarrow> bool" where
  "all_hold r us fs \<longleftrightarrow> (\<forall>i < length us.
     (\<forall>j < length us. j \<noteq> i \<longrightarrow> chosen (ul_pc (us ! j)) = None \<or> chosen (ul_pc (us ! j)) \<noteq> chosen (ul_pc (us ! i)))
     \<longrightarrow> upload_holds r fs (us ! i))"

section \<open>Steps touch only the names of their upload\<close>

lemma step_fields:
  "upload_step mc r u fs = (u', fs') \<Longrightarrow> ul_body u' = ul_body u \<and> ul_now u' = ul_now u \<and> ul_name u' = ul_name u"
  by (auto simp: upload_step_def Let_def split: upload_pc.splits prod.splits sum.splits option.splits)

lemma step_chosen:
  assumes "upload_step mc r u fs = (u', fs')"
  shows "chosen (ul_pc u) \<noteq> None \<Longrightarrow> chosen (ul_pc u') = chosen (ul_pc u)"
    and "chosen (ul_pc u) = None \<Longrightarrow> fs' = fs"
    and "chosen (ul_pc u) = None \<Longrightarrow> chosen (ul_pc u') = Some st \<Longrightarrow> valid_name st"
  using assms dedupe_valid
  by (auto simp: upload_step_def Let_def split: upload_pc.splits prod.splits sum.splits option.splits if_splits)

lemma inbox_ok_write:
  assumes "inbox_ok fs r"
  shows "inbox_ok (snd (fs_write io now (ib_root r @ [w]) b fs)) r"
  by (rule inbox_ok_frame [OF assms, of _ w w])
    (use assms in \<open>auto simp: inbox_ok_def intro: no_links_write write_child_frame\<close>)

lemma inbox_ok_rename:
  assumes "inbox_ok fs r"
  shows "inbox_ok (snd (fs_rename io (ib_root r @ [w]) (ib_root r @ [w']) fs)) r"
  by (rule inbox_ok_frame [OF assms, of _ w w'])
    (use assms in \<open>auto simp: inbox_ok_def intro: no_links_rename rename_frame\<close>)

lemma step_inbox_ok:
  assumes "inbox_ok fs r" "upload_step mc r u fs = (u', fs')"
  shows "inbox_ok fs' r"
  using assms inbox_ok_write [OF assms(1)] inbox_ok_rename [OF assms(1)]
  by (auto simp: upload_step_def Let_def case_prod_beta part_path_def stored_path_def sidecar_path_def
      split: upload_pc.splits sum.splits option.splits)

lemma step_frame:
  assumes "inbox_ok fs r" "upload_step mc r u fs = (u', fs')" "chosen (ul_pc u) = Some st"
    and "q \<noteq> part_path r st" "q \<noteq> stored_path r st" "q \<noteq> sidecar_path r st"
  shows "fs_get fs' q = fs_get fs q"
proof -
  have w: "fs_get (snd (fs_write io now (ib_root r @ [w]) b fs)) q = fs_get fs q" if "q \<noteq> ib_root r @ [w]" for io now w b
    using assms(1) write_child_frame that unfolding inbox_ok_def by blast
  show ?thesis
    using assms(2-6) w rename_frame [of "part_path r st" "stored_path r st" q]
    by (auto simp: upload_step_def Let_def case_prod_beta part_path_def stored_path_def sidecar_path_def
        split: upload_pc.splits sum.splits option.splits)
qed

text \<open>The three paths of two uploads with different valid names are six.\<close>

lemma paths_apart:
  assumes "valid_name s" "valid_name t" "s \<noteq> t"
  shows "part_path r s \<notin> {part_path r t, stored_path r t, sidecar_path r t}"
    "stored_path r s \<notin> {part_path r t, stored_path r t, sidecar_path r t}"
proof -
  have v: "\<not> valid_name (''.'' @ w)" "\<not> valid_name (w @ SIDECAR_SUFFIX)" for w
    using sidecar_name_invalid by (simp_all add: valid_name_iff)
  obtain c t' where t: "t = c # t'" "c \<noteq> CHR ''.''" using assms(2) by (cases t) (auto simp: valid_name_iff)
  show "part_path r s \<notin> {part_path r t, stored_path r t, sidecar_path r t}"
    using assms(3) v(1) [of "s @ ''.part''"] assms(2) t by (auto simp: part_path_def stored_path_def sidecar_path_def)
  show "stored_path r s \<notin> {part_path r t, stored_path r t, sidecar_path r t}"
    using assms v(1) [of "t @ ''.part''"] v(2) [of t] by (auto simp: part_path_def stored_path_def sidecar_path_def)
qed

lemma step_keeps_other:
  assumes "inbox_ok fs r" "upload_step mc r u fs = (u', fs')" "upload_holds r fs v"
    and "\<And>s. chosen (ul_pc v) = Some s \<Longrightarrow> valid_name s \<and> chosen (ul_pc u') \<noteq> Some s"
    and "\<And>t. chosen (ul_pc u) = Some t \<Longrightarrow> valid_name t"
  shows "upload_holds r fs' v"
proof (cases "chosen (ul_pc u)")
  case None
  then show ?thesis using assms(2,3) step_chosen(2) by blast
next
  case (Some t)
  have f: "fs_get fs' q = fs_get fs q" if "q \<notin> {part_path r t, stored_path r t, sidecar_path r t}" for q
    using step_frame [OF assms(1,2) Some] that by blast
  have "chosen (ul_pc u') = Some t" using step_chosen(1) [OF assms(2)] Some by simp
  then have ap: "part_path r s \<notin> {part_path r t, stored_path r t, sidecar_path r t}"
    "stored_path r s \<notin> {part_path r t, stored_path r t, sidecar_path r t}" if "chosen (ul_pc v) = Some s" for s
    using paths_apart [of s t r] assms(4,5) Some that by auto
  then show ?thesis using assms(3) f ap
    by (auto simp: upload_holds_def Let_def split: upload_pc.splits)
qed

lemma step_holds:
  assumes "inbox_ok fs r" "upload_step mc r u fs = (u', fs')" "upload_holds r fs u"
  shows "upload_holds r fs' u'"
proof -
  have s: "solid fs (ib_root r)" "no_links_below fs (ib_root r)" and "\<exists>m. fs_get fs (ib_root r) = Some (FDir m)"
    using assms(1) by (simp_all add: inbox_ok_def)
  then obtain m where m: "fs_get fs (ib_root r) = Some (FDir m)" by blast
  have w: "fs_get f (part_path r st) = Some (FFile b (Some now))"
    if "fs_write io now (part_path r st) b fs = (True, f)" for io now st b f
    using write_ok_get [OF s(1) m s(2)] that unfolding part_path_def by blast
  have rn: "fs_get f (stored_path r st) = fs_get fs (part_path r st)"
    if "fs_rename io (part_path r st) (stored_path r st) fs = (Inr x, f)" for io st x f
    using rename_ok [OF _ _ that] by (auto simp: part_path_def stored_path_def)
  have n: "fs_get (snd (fs_write io now (sidecar_path r st) b fs)) (stored_path r st) = fs_get fs (stored_path r st)" for io now st b
    using sidecar_write_frame [OF assms(1), of "stored_path r st" st]
    by (simp add: stored_path_def sidecar_path_def SIDECAR_SUFFIX_def)
  have n': "fs_get f (stored_path r st) = fs_get fs (stored_path r st)"
    if "fs_write io now (sidecar_path r st) b fs = (ok, f)" for io now st b ok f
    using n [of io now st b] that by simp
  show ?thesis
    using assms(2,3) w rn n'
    by (auto simp: upload_step_def upload_holds_def Let_def
        split: upload_pc.splits prod.splits sum.splits option.splits if_splits)
qed

section \<open>Every interleaving\<close>

definition uploads_ok :: "inbox_root \<Rightarrow> upload list \<Rightarrow> fsys \<Rightarrow> bool" where
  "uploads_ok r us fs \<longleftrightarrow> inbox_ok fs r \<and> names_valid us \<and> all_hold r us fs"

lemma names_validD: "names_valid us \<Longrightarrow> i < length us \<Longrightarrow> chosen (ul_pc (us ! i)) = Some st \<Longrightarrow> valid_name st"
  unfolding names_valid_def using nth_mem [of i us] by blast

lemma step_valid:
  assumes "names_valid us" "i < length us" "upload_step mc r (us ! i) fs = (u, fs')" "chosen (ul_pc u) = Some st"
  shows "valid_name st"
  using assms(1,2,4) step_chosen(1,3) [OF assms(3)] nth_mem [OF assms(2)]
  by (cases "chosen (ul_pc (us ! i))") (auto simp: names_valid_def)

lemma turn_ok:
  assumes "uploads_ok r us fs" "i < length us" "upload_step mc r (us ! i) fs = (u, fs')"
  shows "uploads_ok r (us[i := u]) fs'"
proof -
  have ok: "inbox_ok fs r" "names_valid us" "all_hold r us fs" using assms(1) by (simp_all add: uploads_ok_def)
  have "names_valid (us[i := u])"
    using ok(2) step_valid [OF ok(2) assms(2,3)] by (auto simp: names_valid_def dest!: set_update_subset_insert [THEN subsetD])
  moreover have "all_hold r (us[i := u]) fs'" unfolding all_hold_def
  proof (intro allI impI)
    fix k assume k: "k < length (us[i := u])"
      "\<forall>j < length (us[i := u]). j \<noteq> k \<longrightarrow> chosen (ul_pc (us[i := u] ! j)) = None
        \<or> chosen (ul_pc (us[i := u] ! j)) \<noteq> chosen (ul_pc (us[i := u] ! k))"
    have b: "chosen (ul_pc (us ! i)) = None \<or> chosen (ul_pc u) = chosen (ul_pc (us ! i))"
      using step_chosen(1) [OF assms(3)] by blast
    show "upload_holds r fs' (us[i := u] ! k)"
    proof (cases "k = i")
      case True
      have "upload_holds r fs (us ! i)"
      proof (cases "chosen (ul_pc (us ! i))")
        case None
        then show ?thesis by (auto simp: upload_holds_def Let_def split: upload_pc.splits)
      next
        case (Some s)
        then show ?thesis using ok(3) k b True assms(2) unfolding all_hold_def
          by (metis length_list_update nth_list_update_eq nth_list_update_neq option.distinct(1))
      qed
      then show ?thesis using step_holds [OF ok(1) assms(3)] True assms(2) by simp
    next
      case False
      have d: "chosen (ul_pc u) \<noteq> Some s" if "chosen (ul_pc (us ! k)) = Some s" for s
        using k(2) False assms(2) that by (auto dest!: spec [where x = i])
      have "chosen (ul_pc (us ! j)) = None \<or> chosen (ul_pc (us ! j)) \<noteq> chosen (ul_pc (us ! k))"
        if "j < length us" "j \<noteq> k" for j
        using k(2) that False b assms(2) by (cases "j = i") (auto dest!: spec [where x = j])
      then have "upload_holds r fs (us ! k)" using ok(3) k(1) by (simp add: all_hold_def)
      then show ?thesis
        using step_keeps_other [OF ok(1) assms(3), of "us ! k"] d names_validD [OF ok(2)] False k(1) assms(2) by simp
    qed
  qed
  ultimately show ?thesis using step_inbox_ok [OF ok(1) assms(3)] by (simp add: uploads_ok_def)
qed

lemma together_ok: "together mc r us fs vs fs' \<Longrightarrow> uploads_ok r us fs \<Longrightarrow> uploads_ok r vs fs'"
  by (induction rule: together.induct) (auto intro: turn_ok)

lemma together_fields:
  "together mc r us fs vs fs' \<Longrightarrow> length vs = length us
    \<and> (\<forall>i < length us. ul_body (vs ! i) = ul_body (us ! i) \<and> ul_now (vs ! i) = ul_now (us ! i)
        \<and> ul_name (vs ! i) = ul_name (us ! i))"
  by (induction rule: together.induct) (auto simp: nth_list_update dest: step_fields)

lemma choosing_ok:
  "inbox_ok fs r \<Longrightarrow> list_all (\<lambda>u. ul_pc u = Choosing) us \<Longrightarrow> uploads_ok r us fs"
  by (auto simp: uploads_ok_def names_valid_def all_hold_def upload_holds_def list_all_length in_set_conv_nth)

text \<open>However uploads interleave, one that is stored under a name that no other took has its content
  there.\<close>

lemma uploads_apart:
  assumes "inbox_ok fs r" "list_all (\<lambda>u. ul_pc u = Choosing) us" "together mc r us fs vs fs'"
    and "i < length vs" "ul_pc (vs ! i) = Stored st"
    and "\<And>j. j < length vs \<Longrightarrow> j \<noteq> i \<Longrightarrow> chosen (ul_pc (vs ! j)) \<noteq> Some st"
  shows "valid_name st" "fs_get fs' (stored_path r st) = Some (FFile (ul_body (us ! i)) (Some (ul_now (us ! i))))"
proof -
  have ok: "names_valid vs" "all_hold r vs fs'"
    using together_ok [OF assms(3) choosing_ok [OF assms(1,2)]] by (simp_all add: uploads_ok_def)
  show "valid_name st" using names_validD [OF ok(1) assms(4)] assms(5) by simp
  have "upload_holds r fs' (vs ! i)" using ok(2) assms(4-6) by (simp add: all_hold_def)
  then show "fs_get fs' (stored_path r st) = Some (FFile (ul_body (us ! i)) (Some (ul_now (us ! i))))"
    using assms(4,5) together_fields [OF assms(3)] by (simp add: upload_holds_def)
qed

section \<open>Two uploads of one name\<close>

lemma write_child_done:
  assumes "inbox_ok fs r" "\<not> (\<exists>m. fs_get fs (ib_root r @ [w]) = Some (FDir m))"
  shows "fs_write Done now (ib_root r @ [w]) b fs = (True, fs_put (ib_root r @ [w]) (FFile b (Some now)) fs)"
proof -
  obtain m where s: "solid fs (ib_root r)" "fs_get fs (ib_root r) = Some (FDir m)" "no_links_below fs (ib_root r)"
    using assms(1) by (auto simp: inbox_ok_def)
  have "write_target fs (ib_root r @ [w]) = Some (ib_root r @ [w])"
  proof (cases "fs_get fs (ib_root r @ [w])")
    case None
    then show ?thesis using canon_child [OF s(1,2), of w] solid_canon [OF s(1)] s(2) by (simp add: write_target_def)
  next
    case (Some n)
    then have "\<not> node_is_link n" using no_links_get [OF s(3) _ Some] by simp
    then show ?thesis using Some assms(2) canon_child [OF s(1,2), of w] by (cases n) (simp_all add: write_target_def)
  qed
  then show ?thesis by (simp add: fs_write_def)
qed

lemma rename_done:
  "fs_get fs p = Some (FFile b m) \<Longrightarrow> \<not> (\<exists>m. fs_get fs q = Some (FDir m)) \<Longrightarrow>
    fs_rename Done p q fs = (Inr (), fs_put q (FFile b m) (fs_del p fs))"
  by (auto simp: fs_rename_def split: option.split fnode.split)

definition no_dirs :: "inbox_root \<Rightarrow> string \<Rightarrow> fsys \<Rightarrow> bool" where
  "no_dirs r st fs \<longleftrightarrow> (\<forall>p \<in> {part_path r st, stored_path r st, sidecar_path r st}. \<forall>m. fs_get fs p \<noteq> Some (FDir m))"

text \<open>An upload that has a name finishes in three more steps when the disk does what it is asked.\<close>

lemma run_chosen:
  assumes "inbox_ok fs r" "ul_pc u = Writing st" "valid_name st" "ul_io u = (\<lambda>_. Done)"
    and "no_dirs r st fs"
  obtains fs' where "alone mc r 3 (u, fs) = (u\<lparr>ul_pc := Stored st\<rparr>, fs')" "inbox_ok fs' r"
    "fs_get fs' (stored_path r st) = Some (FFile (ul_body u) (Some (ul_now u)))"
    "no_dirs r st fs'"
proof -
  let ?d = "ib_root r" and ?f = "FFile (ul_body u) (Some (ul_now u))"
  define tmp where "tmp = ''.'' @ st @ ''.part''"
  define side where "side = st @ SIDECAR_SUFFIX"
  have neq: "tmp \<noteq> st" "tmp \<noteq> side" "side \<noteq> st"
    using assms(3) by (auto simp: tmp_def side_def SIDECAR_SUFFIX_def valid_name_iff Cons_eq_append_conv
        dest: arg_cong [of _ _ length])
  have nd: "\<not> (\<exists>m. fs_get fs (?d @ [w]) = Some (FDir m))" if "w \<in> {tmp, st, side}" for w
    using assms(5) that by (auto simp: tmp_def side_def no_dirs_def part_path_def stored_path_def sidecar_path_def)
  define fs1 where "fs1 = fs_put (?d @ [tmp]) ?f fs"
  have w1: "fs_write Done (ul_now u) (?d @ [tmp]) (ul_body u) fs = (True, fs1)"
    unfolding fs1_def using write_child_done [OF assms(1)] nd [of tmp] by blast
  have ok1: "inbox_ok fs1 r" using inbox_ok_write [OF assms(1)] w1 by (metis snd_conv)
  define fs2 where "fs2 = fs_put (?d @ [st]) ?f (fs_del (?d @ [tmp]) fs1)"
  have w2: "fs_rename Done (?d @ [tmp]) (?d @ [st]) fs1 = (Inr (), fs2)"
    unfolding fs2_def by (rule rename_done) (use neq nd [of st] in \<open>auto simp: fs1_def\<close>)
  have ok2: "inbox_ok fs2 r" using inbox_ok_rename [OF ok1] w2 by (metis snd_conv)
  have g2: "fs_get fs2 (?d @ [w]) = (if w = st then Some ?f else if w = tmp then None else fs_get fs (?d @ [w]))" for w
    using neq by (auto simp: fs2_def fs1_def)
  have s1: "upload_step mc r u fs = (u\<lparr>ul_pc := Renaming st\<rparr>, fs1)"
    "upload_step mc r (u\<lparr>ul_pc := Renaming st\<rparr>) fs1 = (u\<lparr>ul_pc := Noting st\<rparr>, fs2)"
    using assms(2,4) w1 [unfolded tmp_def] w2 [unfolded tmp_def] by (simp_all add: upload_step_def part_path_def stored_path_def)
  have 3: "(3 :: nat) = Suc (Suc (Suc 0))" by simp
  show ?thesis
  proof (cases "cd_ser mc (ul_meta u)")
    case None
    have "upload_step mc r (u\<lparr>ul_pc := Noting st\<rparr>) fs2 = (u\<lparr>ul_pc := Stored st\<rparr>, fs2)"
      using None by (simp add: upload_step_def)
    then show ?thesis using that [of fs2] s1 ok2 g2 nd neq
      by (auto simp: 3 alone_simps no_dirs_def stored_path_def part_path_def sidecar_path_def tmp_def side_def)
  next
    case (Some raw)
    define fs3 where "fs3 = fs_put (?d @ [side]) (FFile raw (Some (ul_now u))) fs2"
    have w3: "fs_write Done (ul_now u) (?d @ [side]) raw fs2 = (True, fs3)"
      unfolding fs3_def using write_child_done [OF ok2] g2 nd [of side] neq by auto
    have ok3: "inbox_ok fs3 r" using inbox_ok_write [OF ok2] w3 by (metis snd_conv)
    have "upload_step mc r (u\<lparr>ul_pc := Noting st\<rparr>) fs2 = (u\<lparr>ul_pc := Stored st\<rparr>, fs3)"
      using Some assms(4) w3 by (simp add: upload_step_def sidecar_path_def side_def [symmetric])
    then show ?thesis using that [of fs3] s1 ok3 g2 nd neq
      by (auto simp: 3 alone_simps no_dirs_def stored_path_def part_path_def sidecar_path_def tmp_def side_def fs3_def)
  qed
qed

lemma together_alone:
  assumes "together mc r us fs vs fs1" "i < length vs" "alone mc r n (vs ! i, fs1) = (u, fs2)"
  shows "together mc r us fs (vs[i := u]) fs2"
  using assms
proof (induction n arbitrary: vs fs1)
  case 0
  then show ?case by (auto simp: alone_simps)
next
  case (Suc n)
  obtain w f where w: "upload_step mc r (vs ! i) fs1 = (w, f)" by force
  have "together mc r us fs (vs[i := w]) f" using together.turn [OF Suc.prems(1,2) w] .
  from Suc.IH [OF this] show ?case using Suc.prems(2,3) w by (simp add: alone_simps)
qed

text \<open>Both look for a free name before either has written: both are told they are stored, under one
  name, and what stands there is the second.\<close>

lemma same_name:
  assumes "inbox_ok fs r" "valid_name nm"
    and "ul_pc u = Choosing" "trim (ul_name u) = nm" "ul_io u = (\<lambda>_. Done)"
    and "ul_pc v = Choosing" "trim (ul_name v) = nm" "ul_io v = (\<lambda>_. Done)"
    and "\<forall>p \<in> {part_path r nm, stored_path r nm, sidecar_path r nm}. fs_get fs p = None"
  shows "\<exists>fs'. together mc r [u, v] fs [u\<lparr>ul_pc := Stored nm\<rparr>, v\<lparr>ul_pc := Stored nm\<rparr>] fs'
    \<and> fs_get fs' (stored_path r nm) = Some (FFile (ul_body v) (Some (ul_now v)))"
proof -
  obtain m where s: "solid fs (ib_root r)" "fs_get fs (ib_root r) = Some (FDir m)" using assms(1) by (auto simp: inbox_ok_def)
  have free: "dedupe_in_dir fs (ib_root r) nm = nm"
    using assms(9) canon_child [OF s, of nm] by (simp add: dedupe_in_dir_def path_exists_def stored_path_def)
  let ?u = "u\<lparr>ul_pc := Writing nm\<rparr>" and ?v = "v\<lparr>ul_pc := Writing nm\<rparr>"
  have c: "upload_step mc r u fs = (?u, fs)" "upload_step mc r v fs = (?v, fs)"
    using assms free by (simp_all add: upload_step_def)
  have t: "together mc r [u, v] fs [?u, ?v] fs"
    using together.turn [OF together.turn [OF together.started, of 0 "[u, v]" mc r fs ?u fs], of 1 ?v fs] c by simp
  have nd: "no_dirs r nm fs" using assms(9) by (auto simp: no_dirs_def)
  obtain fs1 where u: "alone mc r 3 (?u, fs) = (u\<lparr>ul_pc := Stored nm\<rparr>, fs1)" "inbox_ok fs1 r"
    "no_dirs r nm fs1"
    using run_chosen [OF assms(1), of ?u nm mc] assms(2,5) nd by auto
  obtain fs2 where v: "alone mc r 3 (?v, fs1) = (v\<lparr>ul_pc := Stored nm\<rparr>, fs2)"
    "fs_get fs2 (stored_path r nm) = Some (FFile (ul_body v) (Some (ul_now v)))"
    using run_chosen [OF u(2), of ?v nm mc] assms(2,8) u(3) by auto
  have "together mc r [u, v] fs [u\<lparr>ul_pc := Stored nm\<rparr>, ?v] fs1"
    using together_alone [OF t, of 0] u(1) by simp
  from together_alone [OF this, of 1] show ?thesis using v by auto
qed

end
