(* ===== verification/OwnerApi.thy ===== *)
theory OwnerApi
  imports Machine
begin

text \<open>The owner's server as one function, @<router> of @<doclinkd/src/admin.rs>: the guard in front, the table
  of routes, the parameters, queries and bodies of a request, and the handler of each route. Reading JSON
  and the percent encoding are arguments; a request the web framework refuses by itself, because its
  method, query or body does not fit the route, is answered with a status of the framework. Also here are
  the view of the updater and the staging of a file for the printer.\<close>

section \<open>Routes\<close>

datatype segment = Lit string | Param

datatype owner_route = R_Info | R_Peers | R_Contacts | R_Add_Contact | R_Fingerprint | R_Remove_Contact
  | R_Contact_Status | R_Requests | R_Decide | R_Grants | R_Revoke | R_Update_Grant | R_Share_Item | R_Share_List
  | R_Share_Delete | R_Reveal | R_Shutdown | R_Events | R_Settings | R_Put_Settings | R_Print | R_Print_On
  | R_Search_All | R_Update_Status | R_Update_Check | R_Update_Apply | R_Browse_List | R_Browse_File | R_Browse_Raw
  | R_Inbox | R_Inbox_File | R_Inbox_Accept | R_Inbox_Discard | R_Send

definition admin_path :: "segment list \<Rightarrow> segment list" where
  "admin_path ss = Lit ''v1'' # Lit ''admin'' # ss"

definition owner_routes :: "(segment list \<times> (string \<times> owner_route) list) list" where
  "owner_routes = [
     (admin_path [Lit ''info''], [(''GET'', R_Info)]),
     (admin_path [Lit ''peers''], [(''GET'', R_Peers)]),
     (admin_path [Lit ''contacts''], [(''GET'', R_Contacts), (''POST'', R_Add_Contact)]),
     (admin_path [Lit ''contact-fingerprint''], [(''GET'', R_Fingerprint)]),
     (admin_path [Lit ''contacts'', Param], [(''DELETE'', R_Remove_Contact)]),
     (admin_path [Lit ''contacts'', Param, Lit ''status''], [(''GET'', R_Contact_Status)]),
     (admin_path [Lit ''requests''], [(''GET'', R_Requests)]),
     (admin_path [Lit ''requests'', Param, Lit ''decision''], [(''POST'', R_Decide)]),
     (admin_path [Lit ''grants''], [(''GET'', R_Grants)]),
     (admin_path [Lit ''grants'', Param], [(''DELETE'', R_Revoke), (''PUT'', R_Update_Grant)]),
     (admin_path [Lit ''share-item''], [(''POST'', R_Share_Item)]),
     (admin_path [Lit ''myshare'', Lit ''list''], [(''GET'', R_Share_List)]),
     (admin_path [Lit ''myshare''], [(''DELETE'', R_Share_Delete)]),
     (admin_path [Lit ''myshare'', Lit ''reveal''], [(''POST'', R_Reveal)]),
     (admin_path [Lit ''shutdown''], [(''POST'', R_Shutdown)]),
     (admin_path [Lit ''events''], [(''GET'', R_Events)]),
     (admin_path [Lit ''settings''], [(''GET'', R_Settings), (''PUT'', R_Put_Settings)]),
     (admin_path [Lit ''print'', Param], [(''POST'', R_Print)]),
     (admin_path [Lit ''print-on'', Param], [(''POST'', R_Print_On)]),
     (admin_path [Lit ''search-all''], [(''GET'', R_Search_All)]),
     (admin_path [Lit ''update'', Lit ''status''], [(''GET'', R_Update_Status)]),
     (admin_path [Lit ''update'', Lit ''check''], [(''POST'', R_Update_Check)]),
     (admin_path [Lit ''update'', Lit ''apply''], [(''POST'', R_Update_Apply)]),
     (admin_path [Lit ''browse'', Param, Lit ''list''], [(''GET'', R_Browse_List)]),
     (admin_path [Lit ''browse'', Param, Lit ''file''], [(''GET'', R_Browse_File)]),
     (admin_path [Lit ''browse'', Param, Lit ''raw''], [(''GET'', R_Browse_Raw)]),
     (admin_path [Lit ''inbox''], [(''GET'', R_Inbox)]),
     (admin_path [Lit ''inbox'', Param, Lit ''file''], [(''GET'', R_Inbox_File)]),
     (admin_path [Lit ''inbox'', Param, Lit ''accept''], [(''POST'', R_Inbox_Accept)]),
     (admin_path [Lit ''inbox'', Param], [(''DELETE'', R_Inbox_Discard)]),
     (admin_path [Lit ''send''], [(''POST'', R_Send)])]"

text \<open>A parameter takes one segment that is not empty; the answer lists the segments taken.\<close>

fun match_path :: "segment list \<Rightarrow> string list \<Rightarrow> string list option" where
  "match_path [] [] = Some []"
| "match_path (Lit l # ps) (s # ss) = (if l = s then match_path ps ss else None)"
| "match_path (Param # ps) (s # ss) = (if s = [] then None else map_option (\<lambda>vs. s # vs) (match_path ps ss))"
| "match_path _ _ = None"

text \<open>A route for GET also takes HEAD.\<close>

definition method_fits :: "string \<Rightarrow> string \<Rightarrow> bool" where
  "method_fits declared m \<longleftrightarrow> m = declared \<or> (declared = ''GET'' \<and> m = ''HEAD'')"

fun find_path :: "(segment list \<times> 'r) list \<Rightarrow> string list \<Rightarrow> ('r \<times> string list) option" where
  "find_path [] ss = None"
| "find_path ((p, r) # rs) ss = (case match_path p ss of Some vs \<Rightarrow> Some (r, vs) | None \<Rightarrow> find_path rs ss)"

section \<open>Requests and answers\<close>

text \<open>A request after the framework has split it: the path as sent with its segments, the pairs of the
  query, the headers and the body.\<close>

record owner_request =
  ow_method :: string
  ow_path :: string
  ow_headers :: headers
  ow_query :: "(string \<times> string) list"
  ow_body :: bytes

record update_view =
  uv_enabled :: bool
  uv_app_version :: string
  uv_checking :: bool
  uv_last_check :: "u64 option"
  uv_update_available :: bool
  uv_download_progress :: "nat option"
  uv_applied :: bool
  uv_error :: "string option"
  uv_latest :: "string option"
  uv_download_url :: "string option"
  uv_release_notes :: "string option"
  uv_published_at :: "string option"

definition update_view_of :: "admin_sys \<Rightarrow> admin \<Rightarrow> update_view" where
  "update_view_of y a = (let st = ad_update a; up = up_status st in
     \<lparr>uv_enabled = ad_check_updates a, uv_app_version = as_version y, uv_checking = up_checking st,
      uv_last_check = up_last_check_unix st, uv_update_available = update_available y st,
      uv_download_progress = up_downloading st, uv_applied = up_applied st, uv_error = up_error st,
      uv_latest = map_option us_latest up, uv_download_url = Option.bind up us_download_url,
      uv_release_notes = Option.bind up us_release_notes, uv_published_at = Option.bind up us_published_at\<rparr>)"

datatype owner_answer = Ans_Info node_info | Ans_Peers "peer list" | Ans_Contacts "contact_info list"
  | Ans_Status pair_status_response | Ans_Requests "pair_request list" | Ans_Grants "grant_info list"
  | Ans_Grant grant_info | Ans_List list_response | Ans_Events "event list" | Ans_Settings settings_view
  | Ans_Toggles bool bool | Ans_Slices "search_slice list" | Ans_Update update_view
  | Ans_Checked bool bool "string option" "string option" | Ans_Message string | Ans_Json json | Ans_Relayed relayed
  | Ans_Inbox "inbox_entry list" | Ans_File "(string \<times> string) list" bytes | Ans_Name string | Ans_Sent sent
  | Ans_Done | Ans_Error http_error | Ans_Framework nat

text \<open>What the machine and the libraries answer while one request is served.\<close>

record owner_in =
  oi_env :: admin_env
  oi_client :: client
  oi_clients :: "nat \<Rightarrow> client \<times> client"
  oi_order :: "nat list"
  oi_polls :: "(u64 \<times> (u64 \<times> mdns_event) list) list"
  oi_release :: "string \<Rightarrow> string + gh_release"
  oi_github :: gh_answer
  oi_package :: "string \<Rightarrow> stage_result"
  oi_stamp :: nat
  oi_spool :: "string \<Rightarrow> bytes \<Rightarrow> bool"
  oi_shell :: "string \<Rightarrow> string + unit"
  oi_webui :: "string \<Rightarrow> bytes option"
  oi_decode :: "string \<Rightarrow> string option"
  oi_refused :: "owner_request \<Rightarrow> nat"
  oi_contact :: "headers \<Rightarrow> bytes \<Rightarrow> add_contact_body option"
  oi_decision :: "headers \<Rightarrow> bytes \<Rightarrow> decision_body option"
  oi_update :: "headers \<Rightarrow> bytes \<Rightarrow> grant_update option"
  oi_share :: "headers \<Rightarrow> bytes \<Rightarrow> (string \<times> string list) option"
  oi_settings :: "headers \<Rightarrow> bytes \<Rightarrow> (bool \<times> bool option) option"
  oi_print_on :: "headers \<Rightarrow> bytes \<Rightarrow> print_on_body option"
  oi_send :: "headers \<Rightarrow> bytes \<Rightarrow> (string \<times> string) option"

text \<open>One field of a query: a field that stands twice is an error.\<close>

definition query_field :: "string \<Rightarrow> (string \<times> string) list \<Rightarrow> string option option" where
  "query_field k qs = (case map snd (filter (\<lambda>(a, v). a = k) qs) of
     [] \<Rightarrow> Some None | [v] \<Rightarrow> Some (Some v) | _ \<Rightarrow> None)"

definition required_field :: "string \<Rightarrow> (string \<times> string) list \<Rightarrow> string option" where
  "required_field k qs = Option.bind (query_field k qs) (\<lambda>v. v)"

definition default_field :: "string \<Rightarrow> (string \<times> string) list \<Rightarrow> string option" where
  "default_field k qs = map_option (\<lambda>v. case v of None \<Rightarrow> [] | Some w \<Rightarrow> w) (query_field k qs)"

definition since_field :: "(string \<times> string) list \<Rightarrow> u64 option" where
  "since_field qs = (case query_field ''since'' qs of
     None \<Rightarrow> None | Some None \<Rightarrow> Some 0 | Some (Some v) \<Rightarrow> parse_u64 v)"

section \<open>Handlers\<close>

definition answer_of :: "('a \<Rightarrow> owner_answer) \<Rightarrow> (http_error + 'a) \<times> admin \<Rightarrow> owner_answer \<times> admin" where
  "answer_of f r = (case fst r of Inl e \<Rightarrow> Ans_Error e | Inr v \<Rightarrow> f v, snd r)"

definition read_only :: "('a \<Rightarrow> owner_answer) \<Rightarrow> http_error + 'a \<Rightarrow> admin \<Rightarrow> owner_answer \<times> admin" where
  "read_only f r a = answer_of f (r, a)"

definition with_input :: "nat \<Rightarrow> 'i option \<Rightarrow> ('i \<Rightarrow> owner_answer \<times> admin) \<Rightarrow> admin \<Rightarrow> owner_answer \<times> admin" where
  "with_input refused i k a = (case i of None \<Rightarrow> (Ans_Framework refused, a) | Some v \<Rightarrow> k v)"

text \<open>@<v> is the parameter of the path, where the route has one.\<close>

fun owner_handle :: "admin_sys \<Rightarrow> owner_in \<Rightarrow> owner_route \<Rightarrow> string \<Rightarrow> owner_request \<Rightarrow> admin
    \<Rightarrow> owner_answer \<times> admin" where
  "owner_handle y n R_Info v rq a = (Ans_Info (nd_node (ad_node a)), a)"
| "owner_handle y n R_Peers v rq a = (let (ps, a) = list_peers (en_clk (ae_env (oi_env n)) 0) a in (Ans_Peers ps, a))"
| "owner_handle y n R_Contacts v rq a = (let (cs, a) = list_contacts (en_clk (ae_env (oi_env n)) 0) a in (Ans_Contacts cs, a))"
| "owner_handle y n R_Add_Contact v rq a = with_input (oi_refused n rq) (oi_contact n (ow_headers rq) (ow_body rq))
     (\<lambda>b. answer_of Ans_Status (add_contact y (oi_env n) (oi_client n) (oi_polls n) b a)) a"
| "owner_handle y n R_Fingerprint v rq a = with_input (oi_refused n rq) (required_field ''node_id'' (ow_query rq))
     (\<lambda>i. with_input (oi_refused n rq) (query_field ''host'' (ow_query rq))
       (\<lambda>h. answer_of Ans_Info (contact_fingerprint y (oi_env n) (oi_client n) (oi_polls n) i h a)) a) a"
| "owner_handle y n R_Remove_Contact v rq a = answer_of (\<lambda>_. Ans_Done) (on_node (remove_contact y (ae_env (oi_env n)) v) a)"
| "owner_handle y n R_Contact_Status v rq a = answer_of Ans_Status (contact_status y (oi_client n) v a)"
| "owner_handle y n R_Requests v rq a = (Ans_Requests (list_requests (ad_node a)), a)"
| "owner_handle y n R_Decide v rq a = with_input (oi_refused n rq) (oi_decision n (ow_headers rq) (ow_body rq))
     (\<lambda>b. let (r, m, a) = decide_request y (oi_env n) v b a in answer_of Ans_Status (r, a)) a"
| "owner_handle y n R_Grants v rq a = (Ans_Grants (list_grants (ad_node a)), a)"
| "owner_handle y n R_Revoke v rq a = answer_of (\<lambda>_. Ans_Done) (on_node (revoke_grant y (ae_env (oi_env n)) v) a)"
| "owner_handle y n R_Update_Grant v rq a = with_input (oi_refused n rq) (oi_update n (ow_headers rq) (ow_body rq))
     (\<lambda>u. answer_of Ans_Grant (on_node (update_grant y (ae_env (oi_env n)) v u) a)) a"
| "owner_handle y n R_Share_Item v rq a = with_input (oi_refused n rq) (oi_share n (ow_headers rq) (ow_body rq))
     (\<lambda>(p, fps). answer_of Ans_Grants (on_node (share_item y (ae_env (oi_env n)) p fps) a)) a"
| "owner_handle y n R_Share_List v rq a = with_input (oi_refused n rq) (default_field ''path'' (ow_query rq))
     (\<lambda>p. read_only Ans_List (myshare_list y p (ad_node a)) a) a"
| "owner_handle y n R_Share_Delete v rq a = with_input (oi_refused n rq) (default_field ''path'' (ow_query rq))
     (\<lambda>p. answer_of (\<lambda>_. Ans_Done) (on_node (myshare_delete (ae_env (oi_env n)) p) a)) a"
| "owner_handle y n R_Reveal v rq a = (Ans_Done, a)"
| "owner_handle y n R_Shutdown v rq a = (Ans_Done, shutdown_node a)"
| "owner_handle y n R_Events v rq a = with_input (oi_refused n rq) (since_field (ow_query rq))
     (\<lambda>i. (Ans_Events (events_since i (ad_node a)), a)) a"
| "owner_handle y n R_Settings v rq a = (Ans_Settings (get_settings y a), a)"
| "owner_handle y n R_Put_Settings v rq a = with_input (oi_refused n rq) (oi_settings n (ow_headers rq) (ow_body rq))
     (\<lambda>(adv, chk). answer_of (\<lambda>(b, c). Ans_Toggles b c) (put_settings y (oi_env n) adv chk a)) a"
| "owner_handle y n R_Print v rq a = with_input (oi_refused n rq) (default_field ''path'' (ow_query rq))
     (\<lambda>p. answer_of (\<lambda>_. Ans_Done) (print_remote y (oi_client n) (oi_stamp n) (oi_spool n) (oi_shell n) v p a)) a"
| "owner_handle y n R_Print_On v rq a = with_input (oi_refused n rq) (oi_print_on n (ow_headers rq) (ow_body rq))
     (\<lambda>b. answer_of (\<lambda>_. Ans_Done) (print_on_peer_admin y (oi_client n) v b a)) a"
| "owner_handle y n R_Search_All v rq a = with_input (oi_refused n rq) (required_field ''q'' (ow_query rq))
     (\<lambda>q. answer_of Ans_Slices (search_all y (oi_clients n) (oi_order n) q a)) a"
| "owner_handle y n R_Update_Status v rq a = (Ans_Update (update_view_of y a), a)"
| "owner_handle y n R_Update_Check v rq a = (let ((ok, av, l, e), a) = update_check y (en_clk (ae_env (oi_env n)) 0)
     (oi_release n) (oi_github n) a in (Ans_Checked ok av l e, a))"
| "owner_handle y n R_Update_Apply v rq a = answer_of Ans_Message (update_apply y (oi_package n) a)"
| "owner_handle y n R_Browse_List v rq a = with_input (oi_refused n rq) (default_field ''path'' (ow_query rq))
     (\<lambda>p. answer_of Ans_Json (browse_list y (oi_client n) v p a)) a"
| "owner_handle y n R_Browse_File v rq a = with_input (oi_refused n rq) (default_field ''path'' (ow_query rq))
     (\<lambda>p. answer_of Ans_Relayed (browse_file y (oi_client n) (ow_headers rq) v p a)) a"
| "owner_handle y n R_Browse_Raw v rq a = with_input (oi_refused n rq) (default_field ''path'' (ow_query rq))
     (\<lambda>p. answer_of Ans_Relayed (browse_raw y (oi_client n) (ow_headers rq) v p a)) a"
| "owner_handle y n R_Inbox v rq a = read_only Ans_Inbox (admin_inbox_list y (ad_node a)) a"
| "owner_handle y n R_Inbox_File v rq a = read_only (\<lambda>(hs, b). Ans_File hs b) (inbox_file y v (ad_node a)) a"
| "owner_handle y n R_Inbox_Accept v rq a = answer_of Ans_Name (on_node (admin_inbox_accept (ae_env (oi_env n)) v) a)"
| "owner_handle y n R_Inbox_Discard v rq a = answer_of (\<lambda>_. Ans_Done) (on_node (inbox_discard (ae_env (oi_env n)) v) a)"
| "owner_handle y n R_Send v rq a = with_input (oi_refused n rq) (oi_send n (ow_headers rq) (ow_body rq))
     (\<lambda>(c, p). answer_of Ans_Sent (send_file y (ae_env (oi_env n)) (oi_client n) c p a)) a"

definition path_segments :: "string \<Rightarrow> string list" where
  "path_segments p = tl (split_on (CHR ''/'') p)"

text \<open>The guard stands in front of every route and of the pages alike. A path that begins with a slash is
  split after it.\<close>

definition owner_serve :: "admin_sys \<Rightarrow> owner_in \<Rightarrow> owner_request \<Rightarrow> admin \<Rightarrow> owner_answer \<times> admin" where
  "owner_serve y n rq a = (if \<not> local_only_guard (ad_admin_port a) (ow_headers rq)
     then (Ans_Error (err NOT_FOUND ''not found''), a)
     else (case find_path owner_routes (path_segments (ow_path rq)) of
       None \<Rightarrow> read_only (\<lambda>(hs, b). Ans_File hs b) (static_file (oi_webui n) (ow_path rq)) a
     | Some (ms, vs) \<Rightarrow> (case List.find (\<lambda>(m, r). method_fits m (ow_method rq)) ms of
         None \<Rightarrow> (Ans_Framework 405, a)
       | Some (m, r) \<Rightarrow> with_input (oi_refused n rq) (those (map (oi_decode n) vs))
           (\<lambda>ws. owner_handle y n r (concat (take 1 ws)) rq a) a)))"

section \<open>The table is unambiguous\<close>

fun paths_apart :: "segment list \<Rightarrow> segment list \<Rightarrow> bool" where
  "paths_apart [] [] = False"
| "paths_apart (Lit a # ps) (Lit b # qs) = (a \<noteq> b \<or> paths_apart ps qs)"
| "paths_apart (p # ps) (q # qs) = paths_apart ps qs"
| "paths_apart _ _ = True"

lemma match_path_Some:
  "match_path [] ss = Some vs \<longleftrightarrow> ss = [] \<and> vs = []"
  "match_path (Lit l # ps) ss = Some vs \<longleftrightarrow> (\<exists>r. ss = l # r \<and> match_path ps r = Some vs)"
  "match_path (Param # ps) ss = Some vs \<longleftrightarrow> (\<exists>e r ws. ss = e # r \<and> e \<noteq> [] \<and> vs = e # ws \<and> match_path ps r = Some ws)"
  by (cases ss; auto)+

lemma match_tail: "match_path (p # ps) ss = Some vs \<Longrightarrow> \<exists>e r ws. ss = e # r \<and> match_path ps r = Some ws"
  by (cases p) (auto simp: match_path_Some)

lemma apart_no_match: "paths_apart p q \<Longrightarrow> match_path p ss = Some vs \<Longrightarrow> match_path q ss \<noteq> Some ws"
proof (induction p arbitrary: q ss vs ws)
  case Nil
  then show ?case by (cases q) (auto simp: match_path_Some dest: match_tail)
next
  case (Cons a p)
  obtain e r us where r: "ss = e # r" "match_path p r = Some us" using match_tail [OF Cons.prems(2)] by blast
  show ?case
  proof (cases q)
    case Nil
    then show ?thesis using r(1) by simp
  next
    case q: (Cons b t)
    have "paths_apart p t \<or> (\<exists>x z. a = Lit x \<and> b = Lit z \<and> x \<noteq> z)"
      using Cons.prems(1) q by (cases a; cases b) auto
    then show ?thesis
    proof
      assume "paths_apart p t"
      from Cons.IH [OF this r(2)] show ?thesis using r(1) q match_tail [of b t ss ws] by auto
    next
      assume "\<exists>x z. a = Lit x \<and> b = Lit z \<and> x \<noteq> z"
      then show ?thesis using Cons.prems(2) q by (auto simp: match_path_Some)
    qed
  qed
qed

lemma owner_routes_apart: "sorted_wrt paths_apart (map fst owner_routes)"
  by code_simp

text \<open>So the order of the rows does not matter: a path is taken by the one row it matches.\<close>

lemma find_path_any:
  assumes "sorted_wrt paths_apart (map fst rs)" "(p, r) \<in> set rs" "match_path p ss = Some vs"
  shows "find_path rs ss = Some (r, vs)"
  using assms
proof (induction rs)
  case (Cons e rs)
  obtain q t where e: "e = (q, t)" by force
  show ?case
  proof (cases "(p, r) = e")
    case True
    then show ?thesis using Cons.prems(3) e by auto
  next
    case False
    then have m: "(p, r) \<in> set rs" using Cons.prems(2) by auto
    then have "paths_apart q p" using Cons.prems(1) e by force
    then have "match_path q ss = None" using apart_no_match Cons.prems(3) by (cases "match_path q ss") blast+
    then show ?thesis using Cons.IH [OF _ m Cons.prems(3)] Cons.prems(1) e by simp
  qed
qed simp

lemma owner_route_taken:
  "(p, ms) \<in> set owner_routes \<Longrightarrow> match_path p ss = Some vs \<Longrightarrow> find_path owner_routes ss = Some (ms, vs)"
  by (rule find_path_any [OF owner_routes_apart])

section \<open>Every request is a step of the node\<close>

lemmas handler_simps = answer_of_def with_input_def read_only_def case_prod_beta Let_def

text \<open>What the label of the step may be, by the route.\<close>

definition route_label :: "owner_route \<Rightarrow> string \<Rightarrow> label \<Rightarrow> bool" where
  "route_label r v l = (case l of
     Owner_Decision nid d \<Rightarrow> r = R_Decide \<and> nid = v
   | Owner_Revoke fp \<Rightarrow> r = R_Revoke \<and> fp = v
   | Owner_Other \<Rightarrow> r \<noteq> R_Decide \<and> r \<noteq> R_Revoke | _ \<Rightarrow> False)"

lemma answer_snd: "snd (answer_of f r) = snd r"
  by (simp add: answer_of_def)

lemma with_input_snd: "snd (with_input k i f a) = a \<or> (\<exists>x. i = Some x \<and> snd (with_input k i f a) = snd (f x))"
  by (cases i) (simp_all add: with_input_def)

lemma read_only_snd [simp]: "snd (read_only f r a) = a"
  by (simp add: read_only_def answer_snd)

lemma contacts_step: "snd (list_contacts now a) = snd (list_peers now a)"
  by (simp add: list_contacts_def case_prod_beta)

definition owner_moves :: "admin_sys \<Rightarrow> owner_route \<Rightarrow> string \<Rightarrow> admin \<Rightarrow> admin \<Rightarrow> bool" where
  "owner_moves y r v a b \<longleftrightarrow> b = a \<or> (\<exists>l. route_label r v l \<and> step y a l b)"

lemma moves_same [simp]: "owner_moves y r v a a"
  by (simp add: owner_moves_def)

lemma moves_other: "step y a Owner_Other b \<Longrightarrow> r \<notin> {R_Decide, R_Revoke} \<Longrightarrow> owner_moves y r v a b"
  unfolding owner_moves_def by (intro disjI2 exI [of _ Owner_Other]) (auto simp: route_label_def)

lemma moves_decide: "owner_moves y R_Decide v a (snd (snd (decide_request y m v b a)))"
  unfolding owner_moves_def
  by (intro disjI2 exI [of _ "Owner_Decision v (db_decision b)"]) (simp add: route_label_def step.decide)

lemma moves_revoke: "owner_moves y R_Revoke v a (snd (on_node (revoke_grant y m v) a))"
  unfolding owner_moves_def
  by (intro disjI2 exI [of _ "Owner_Revoke v"]) (simp add: route_label_def step.revoke)

lemmas moves_owner = moves_other [OF step.update] moves_other [OF step.share] moves_other [OF step.forget]
  moves_other [OF step.erase] moves_other [OF step.accept] moves_other [OF step.discard]
  moves_other [OF step.settings] moves_other [OF step.check] moves_other [OF step.upgrade]
  moves_other [OF step.peers] moves_other [OF step.stop] moves_other [OF step.add] moves_other [OF step.inspect]
  moves_other [OF step.ask] moves_other [OF step.send] moves_other [OF step.browse] moves_other [OF step.fetch]
  moves_other [OF step.preview] moves_other [OF step.search] moves_other [OF step.print_there]
  moves_other [OF step.print_here] moves_decide moves_revoke

lemma owner_handle_step: "owner_moves y r v a (snd (owner_handle y n r v rq a))"
  by (cases r) (simp_all add: handler_simps contacts_step moves_owner split: option.split)

lemma find_path_row: "find_path rs ss = Some (ms, vs) \<Longrightarrow> \<exists>p. (p, ms) \<in> set rs \<and> match_path p ss = Some vs"
  by (induction rs) (auto split: option.splits)

definition decision_path :: "string \<Rightarrow> string list" where
  "decision_path e = [''v1'', ''admin'', ''requests'', e, ''decision'']"

definition grant_path :: "string \<Rightarrow> string list" where
  "grant_path e = [''v1'', ''admin'', ''grants'', e]"

lemma path_inj [simp]: "decision_path e = decision_path e' \<longleftrightarrow> e = e'" "grant_path e = grant_path e' \<longleftrightarrow> e = e'"
  by (simp_all add: decision_path_def grant_path_def)

lemma match_decision: "match_path (admin_path [Lit ''requests'', Param, Lit ''decision'']) ss = Some vs \<Longrightarrow>
    \<exists>e. vs = [e] \<and> ss = decision_path e"
  by (auto simp: admin_path_def decision_path_def match_path_Some)

lemma match_grant: "match_path (admin_path [Lit ''grants'', Param]) ss = Some vs \<Longrightarrow>
    \<exists>e. vs = [e] \<and> ss = grant_path e"
  by (auto simp: admin_path_def grant_path_def match_path_Some)

lemma decide_row: "(p, ms) \<in> set owner_routes \<Longrightarrow> (m, R_Decide) \<in> set ms \<Longrightarrow>
    m = ''POST'' \<and> p = admin_path [Lit ''requests'', Param, Lit ''decision'']"
  by (auto simp: owner_routes_def)

lemma revoke_row: "(p, ms) \<in> set owner_routes \<Longrightarrow> (m, R_Revoke) \<in> set ms \<Longrightarrow>
    m = ''DELETE'' \<and> p = admin_path [Lit ''grants'', Param]"
  by (auto simp: owner_routes_def)

text \<open>What reaches a handler has passed the guard and the table.\<close>

lemma owner_serve_cases:
  assumes "owner_serve y n rq a = (ans, b)"
  obtains (refused) "\<not> local_only_guard (ad_admin_port a) (ow_headers rq)" "ans = Ans_Error (err NOT_FOUND ''not found'')" "b = a"
    | (unmoved) "local_only_guard (ad_admin_port a) (ow_headers rq)" "b = a"
    | (handled) p ms m r vs ws where "local_only_guard (ad_admin_port a) (ow_headers rq)" "(p, ms) \<in> set owner_routes"
        "match_path p (path_segments (ow_path rq)) = Some vs" "(m, r) \<in> set ms" "method_fits m (ow_method rq)"
        "those (map (oi_decode n) vs) = Some ws" "b = snd (owner_handle y n r (concat (take 1 ws)) rq a)"
proof (cases "local_only_guard (ad_admin_port a) (ow_headers rq)")
  case False
  then have "ans = Ans_Error (err NOT_FOUND ''not found'')" "b = a" using assms by (simp_all add: owner_serve_def)
  from refused [OF False this] show ?thesis .
next
  case True
  then have d: "owner_serve y n rq a = (case find_path owner_routes (path_segments (ow_path rq)) of
       None \<Rightarrow> read_only (\<lambda>(hs, b). Ans_File hs b) (static_file (oi_webui n) (ow_path rq)) a
     | Some (ms, vs) \<Rightarrow> (case List.find (\<lambda>(m, r). method_fits m (ow_method rq)) ms of
         None \<Rightarrow> (Ans_Framework 405, a)
       | Some (m, r) \<Rightarrow> with_input (oi_refused n rq) (those (map (oi_decode n) vs))
           (\<lambda>ws. owner_handle y n r (concat (take 1 ws)) rq a) a))"
    by (simp add: owner_serve_def)
  show ?thesis
  proof (cases "find_path owner_routes (path_segments (ow_path rq))")
    case None
    then have "owner_serve y n rq a = read_only (\<lambda>(hs, b). Ans_File hs b) (static_file (oi_webui n) (ow_path rq)) a"
      by (simp add: d)
    then show ?thesis using assms unmoved [OF True] read_only_snd by (metis snd_conv)
  next
    case (Some mv)
    obtain ms vs where mv: "mv = (ms, vs)" by force
    obtain p where p: "(p, ms) \<in> set owner_routes" "match_path p (path_segments (ow_path rq)) = Some vs"
      using find_path_row [OF Some [unfolded mv]] by blast
    show ?thesis
    proof (cases "List.find (\<lambda>(m, r). method_fits m (ow_method rq)) ms")
      case None
      then have "owner_serve y n rq a = (Ans_Framework 405, a)" by (simp add: d Some mv)
      then show ?thesis using assms unmoved [OF True] by simp
    next
      case (Some e)
      obtain m r where e: "e = (m, r)" by force
      have f: "(m, r) \<in> set ms" "method_fits m (ow_method rq)" using Some e by (auto simp: find_Some_iff) (metis nth_mem)
      have s: "owner_serve y n rq a = with_input (oi_refused n rq) (those (map (oi_decode n) vs))
           (\<lambda>ws. owner_handle y n r (concat (take 1 ws)) rq a) a"
        by (simp add: d \<open>find_path _ _ = Some mv\<close> mv Some e)
      show ?thesis
      proof (cases "those (map (oi_decode n) vs)")
        case None
        then show ?thesis using s assms unmoved [OF True] by (simp add: with_input_def)
      next
        case (Some ws)
        have "owner_handle y n r (concat (take 1 ws)) rq a = (ans, b)"
          using s assms unfolding Some with_input_def by simp
        then have "b = snd (owner_handle y n r (concat (take 1 ws)) rq a)" by simp
        from handled [OF True p f Some this] show ?thesis .
      qed
    qed
  qed
qed

lemma owner_serve_step:
  assumes "owner_serve y n rq a = (ans, b)" "b \<noteq> a"
  obtains l where "step y a l b" "l \<notin> {Peer_Request, Background}"
    "\<And>nid d. l = Owner_Decision nid d \<Longrightarrow> ow_method rq = ''POST''
      \<and> (\<exists>e. path_segments (ow_path rq) = decision_path e \<and> oi_decode n e = Some nid)"
    "\<And>fp. l = Owner_Revoke fp \<Longrightarrow> ow_method rq = ''DELETE''
      \<and> (\<exists>e. path_segments (ow_path rq) = grant_path e \<and> oi_decode n e = Some fp)"
  using assms(1)
proof (cases rule: owner_serve_cases)
  case (handled p ms m r vs ws)
  let ?v = "concat (take 1 ws)"
  obtain l where l: "route_label r ?v l" "step y a l b"
    using owner_handle_step [of y r ?v a n rq] handled(7) assms(2) by (auto simp: owner_moves_def)
  have d: "m = ''POST'' \<and> (\<exists>e. path_segments (ow_path rq) = decision_path e \<and> oi_decode n e = Some ?v)" if "r = R_Decide"
    using decide_row [of p ms m] match_decision [of "path_segments (ow_path rq)" vs] handled(2-6) that
    by (auto split: option.splits)
  have v: "m = ''DELETE'' \<and> (\<exists>e. path_segments (ow_path rq) = grant_path e \<and> oi_decode n e = Some ?v)" if "r = R_Revoke"
    using revoke_row [of p ms m] match_grant [of "path_segments (ow_path rq)" vs] handled(2-6) that
    by (auto split: option.splits)
  show ?thesis using that [OF l(2)] l(1) d v handled(5)
    by (auto simp: route_label_def method_fits_def split: label.splits)
qed (use assms(2) in auto)

end
