(* ===== verification/Upkeep.thy ===== *)
theory Upkeep
  imports Updater Store Registry Files
begin

text \<open>What runs beside the handlers: the background loops of the daemon, which end with the node
  (@<doclinkd/src/store.rs>, @<main.rs> and @<updater.rs>), the accept loop and the certificate of the
  peers' server (@<doclinkd/src/tls.rs>, @<doclink-core/src/cert.rs>), the download of an update with the
  script that installs it, and the directory where files wait for the printer (@<doclinkd/src/admin.rs>).
  Timers, the network, PowerShell and the shell are arguments.\<close>

section \<open>Loops that end with the node\<close>

text \<open>A loop waits for its timer or for the stop, whichever comes first; what it reads when the timer
  wakes it is the wake's content.\<close>

datatype 'e wake = Woken 'e | Stopped

fun background :: "('e \<Rightarrow> 's \<Rightarrow> 's) \<Rightarrow> 'e wake list \<Rightarrow> 's \<Rightarrow> 's \<times> bool" where
  "background f [] s = (s, False)"
| "background f (Stopped # es) s = (s, True)"
| "background f (Woken e # es) s = background f es (f e s)"

record sweep_wake =
  sw_faults :: "nat \<Rightarrow> nat option"
  sw_now :: u64
  sw_now2 :: u64
  sw_clk :: "u64 \<Rightarrow> u64"

definition run_expiry_sweeper :: "grants_file codec \<Rightarrow> sweep_wake wake list \<Rightarrow> grants_file store \<times> events
    \<Rightarrow> (grants_file store \<times> events) \<times> bool" where
  "run_expiry_sweeper c = background (\<lambda>w (st, e). sweep_tick c (sw_faults w) (sw_now w) (sw_now2 w) (sw_clk w) st e)"

record verify_wake =
  vw_faults :: "nat \<Rightarrow> nat option"
  vw_fetch :: "string \<Rightarrow> string \<Rightarrow> string \<Rightarrow> pair_status option"
  vw_peers :: "peer list"

definition run_pair_verifier :: "ext \<Rightarrow> contacts_file codec \<Rightarrow> string \<Rightarrow> verify_wake wake list \<Rightarrow> contacts_file store
    \<Rightarrow> contacts_file store \<times> bool" where
  "run_pair_verifier x c my_id = background (\<lambda>w. verifier_tick x c (vw_faults w) (vw_fetch w) (vw_peers w) my_id)"

record keepalive_wake =
  kw_get :: "string \<Rightarrow> info_answer option"
  kw_now :: u64
  kw_clk :: "string \<Rightarrow> u64"

definition run_peer_keepalive :: "ext \<Rightarrow> keepalive_wake wake list \<Rightarrow> registry \<Rightarrow> registry \<times> bool" where
  "run_peer_keepalive x = background (\<lambda>w. keepalive_tick x (kw_get w) (kw_now w) (kw_clk w))"

text \<open>The update check: once at the start, then at every wake while the toggle is on. The second part of the
  state counts the calls to GitHub.\<close>

record check_wake =
  cw_enabled :: bool
  cw_now :: u64
  cw_outcome :: "string + update_status option"

definition check_when_on :: "string \<Rightarrow> check_wake \<Rightarrow> update_state \<times> nat \<Rightarrow> update_state \<times> nat" where
  "check_when_on version w s = (if cw_enabled w
     then (snd (run_check version (cw_now w) (cw_outcome w) (fst s)), Suc (snd s)) else s)"

definition run_check_loop :: "string \<Rightarrow> check_wake \<Rightarrow> check_wake wake list \<Rightarrow> update_state
    \<Rightarrow> (update_state \<times> nat) \<times> bool" where
  "run_check_loop version first es st = background (check_when_on version) es (check_when_on version first (st, 0))"

text \<open>A loop does what its wakes before the stop do, in order, and nothing after it.\<close>

fun before_stop :: "'e wake list \<Rightarrow> 'e list" where
  "before_stop (Woken e # es) = e # before_stop es"
| "before_stop _ = []"

lemma background_fold: "background f es s = (fold f (before_stop es) s, Stopped \<in> set es)"
  by (induction f es s rule: background.induct) auto

lemma background_invariant:
  assumes "P s" "\<And>e s. e \<in> set (before_stop es) \<Longrightarrow> P s \<Longrightarrow> P (f e s)"
  shows "P (fst (background f es s))"
  using assms by (induction f es s rule: background.induct) auto

text \<open>With the toggle off at every wake the loop never calls GitHub and changes nothing.\<close>

lemma check_loop_off:
  assumes "\<not> cw_enabled first" "list_all (\<lambda>w. \<not> cw_enabled w) (before_stop es)"
  shows "fst (run_check_loop version first es st) = (st, 0)"
proof -
  have "fst (background (check_when_on version) es (st, 0)) = (st, 0)"
    by (rule background_invariant [of "\<lambda>s. s = (st, 0)"])
      (use assms(2) in \<open>auto simp: check_when_on_def list_all_iff\<close>)
  then show ?thesis using assms(1) by (simp add: run_check_loop_def check_when_on_def)
qed

text \<open>Every wake with the toggle on is one call, and the first wake of the timer comes at once: a daemon
  that starts with the toggle on calls twice.\<close>

lemma check_loop_calls:
  "snd (fst (run_check_loop version first es st)) = length (filter cw_enabled (first # before_stop es))"
proof -
  have "snd (fold (check_when_on version) ws s) = snd s + length (filter cw_enabled ws)" for ws s
    by (induction ws arbitrary: s) (auto simp: check_when_on_def)
  then show ?thesis by (simp add: run_check_loop_def background_fold check_when_on_def)
qed

section \<open>The peers' server under TLS\<close>

record node_tls =
  nt_cert_der :: bytes
  nt_key_der :: bytes

text \<open>@<mkcert> is the certificate library: from a PKCS#8 key and a common name to a self-signed certificate.\<close>

definition tls_from_identity :: "ext \<Rightarrow> (bytes \<Rightarrow> string \<Rightarrow> bytes option) \<Rightarrow> node_identity \<Rightarrow> node_tls option" where
  "tls_from_identity x mkcert i = map_option
     (\<lambda>cert. \<lparr>nt_cert_der = cert, nt_key_der = pkcs8_from_seed (signing_key i)\<rparr>)
     (mkcert (pkcs8_from_seed (signing_key i)) (''doclink-'' @ fingerprint x i))"

text \<open>The library puts the public half of the key it is given into the certificate.\<close>

definition cert_law :: "ext \<Rightarrow> (bytes \<Rightarrow> string \<Rightarrow> bytes option) \<Rightarrow> bool" where
  "cert_law x mkcert \<longleftrightarrow> (\<forall>seed cn cert. mkcert (pkcs8_from_seed seed) cn = Some cert \<longrightarrow>
     x_cert_spki x cert = Some (ED25519_SPKI_HEADER @ x_public_of x seed))"

lemma own_cert_pin:
  assumes "sig_laws x" "cert_law x mkcert" "tls_from_identity x mkcert i = Some t"
  shows "map_option (x_hex_encode x) (spki_sha256 x (nt_cert_der t)) = Some (fingerprint x i)"
    "take 16 (nt_key_der t) = ED25519_PKCS8_PREFIX \<and> drop 16 (nt_key_der t) = signing_key i"
proof -
  obtain cert where c: "mkcert (pkcs8_from_seed (signing_key i)) (''doclink-'' @ fingerprint x i) = Some cert"
    "t = \<lparr>nt_cert_der = cert, nt_key_der = pkcs8_from_seed (signing_key i)\<rparr>"
    using assms(3) by (auto simp: tls_from_identity_def)
  have "x_cert_spki x cert = Some (ED25519_SPKI_HEADER @ verifying_key x i)"
    using assms(2) c(1) by (auto simp: cert_law_def verifying_key_def)
  from spki_pin [OF assms(1) this]
  show "map_option (x_hex_encode x) (spki_sha256 x (nt_cert_der t)) = Some (fingerprint x i)" using c(2) by simp
  show "take 16 (nt_key_der t) = ED25519_PKCS8_PREFIX \<and> drop 16 (nt_key_der t) = signing_key i"
    using c(2) by (simp add: pkcs8_from_seed_def ED25519_PKCS8_PREFIX_def)
qed

text \<open>The accept loop: a connection that is accepted is served with the address it came from if its
  handshake succeeds; an error of the listener or of a handshake ends nothing.\<close>

datatype 'c accept_event = Accepted 'c string | Accept_Error | Stop

fun tls_serve :: "('c \<Rightarrow> 's option) \<Rightarrow> 'c accept_event list \<Rightarrow> ('s \<times> string) list \<times> bool" where
  "tls_serve handshake [] = ([], False)"
| "tls_serve handshake (Stop # es) = ([], True)"
| "tls_serve handshake (Accept_Error # es) = tls_serve handshake es"
| "tls_serve handshake (Accepted tcp addr # es) = (let (served, ended) = tls_serve handshake es in
     (case handshake tcp of None \<Rightarrow> (served, ended) | Some s \<Rightarrow> ((s, addr) # served, ended)))"

definition before_close :: "'c accept_event list \<Rightarrow> 'c accept_event list" where
  "before_close es = takeWhile (\<lambda>e. e \<noteq> Stop) es"

lemma tls_serve_exact:
  "tls_serve handshake es = (List.map_filter (\<lambda>e. case e of Accepted c a \<Rightarrow> map_option (\<lambda>s. (s, a)) (handshake c) | _ \<Rightarrow> None)
     (before_close es), Stop \<in> set es)"
  by (induction handshake es rule: tls_serve.induct)
    (auto simp: before_close_def map_filter_simps Let_def split: option.split)

section \<open>Downloading and installing an update\<close>

text \<open>The answer to the download: the status code with its text, and the body or why it broke off.\<close>

record download_env =
  dn_get :: "string \<Rightarrow> string + nat \<times> string \<times> (string + bytes)"
  dn_write :: "bytes \<Rightarrow> string + unit"
  dn_unpack :: "bytes \<Rightarrow> (string \<times> bytes) list option"
  dn_spawn :: "string + unit"

definition stage_package :: "download_env \<Rightarrow> bytes \<Rightarrow> stage_result \<times> (string \<times> bytes) list" where
  "stage_package v pkg = (case dn_write v pkg of
     Inl e \<Rightarrow> (Stage_Error_Before_Write (''write staging zip: '' @ e), [])
   | Inr _ \<Rightarrow> (case dn_unpack v pkg of
       None \<Rightarrow> (Stage_Error_After_Write ''could not unpack the downloaded package'', [])
     | Some staged \<Rightarrow>
       if map_of staged ''doclink-win.exe'' = None
       then (Stage_Error_After_Write ''downloaded package is missing doclink-win.exe'', staged)
       else (case dn_spawn v of
         Inl e \<Rightarrow> (Stage_Error_After_Write (''launch updater: '' @ e), staged)
       | Inr _ \<Rightarrow> (Staged (''Update downloaded '' @ em_dash @ '' DocLink will restart in a moment''), staged))))"

definition download_and_stage :: "download_env \<Rightarrow> string \<Rightarrow> stage_result \<times> (string \<times> bytes) list" where
  "download_and_stage v url = (case dn_get v url of
     Inl e \<Rightarrow> (Stage_Error_Before_Write (''download failed: '' @ e), [])
   | Inr (status, status_text, body) \<Rightarrow>
     if \<not> (200 \<le> status \<and> status < 300) then (Stage_Error_Before_Write (''download failed: HTTP '' @ status_text), [])
     else (case body of
       Inl e \<Rightarrow> (Stage_Error_Before_Write (''download failed: '' @ e), [])
     | Inr pkg \<Rightarrow> stage_package v pkg))"

text \<open>The script that swaps the binaries, @<APPLY_SCRIPT>, on the staged files and those of the application's
  directory: both are copied when the staged directory holds the daemon, and a copy that fails is passed
  over. It restarts the window in any case.\<close>

type_synonym binaries = "string \<Rightarrow> bytes option"

definition copy_over :: "(string \<Rightarrow> bool) \<Rightarrow> (string \<times> bytes) list \<Rightarrow> string \<Rightarrow> binaries \<Rightarrow> binaries" where
  "copy_over copies staged nm app = (case map_of staged nm of
     Some b \<Rightarrow> if copies nm then app(nm := Some b) else app | None \<Rightarrow> app)"

definition apply_script :: "(string \<Rightarrow> bool) \<Rightarrow> (string \<times> bytes) list \<Rightarrow> binaries \<Rightarrow> binaries" where
  "apply_script copies staged app = (if map_of staged ''doclinkd.exe'' = None then app
     else copy_over copies staged ''doclink-win.exe'' (copy_over copies staged ''doclinkd.exe'' app))"

definition install_update :: "string \<Rightarrow> download_env \<Rightarrow> (string \<Rightarrow> bool) \<Rightarrow> update_state \<Rightarrow> binaries
    \<Rightarrow> (string + string) \<times> update_state \<times> binaries" where
  "install_update version v copies st app = (let
     (r, st') = apply_update version (\<lambda>url. fst (download_and_stage v url)) st
   in (r, st', case r of
        Inl e \<Rightarrow> app
      | Inr m \<Rightarrow> (case Option.bind (up_status st) us_download_url of
          None \<Rightarrow> app | Some url \<Rightarrow> apply_script copies (snd (download_and_stage v url)) app)))"

lemma staged_package:
  assumes "fst (download_and_stage v url) = Staged m"
  obtains pkg staged t k where "dn_get v url = Inr (k, t, Inr pkg)" "200 \<le> k" "k < 300"
    "dn_unpack v pkg = Some staged" "map_of staged ''doclink-win.exe'' \<noteq> None"
    "snd (download_and_stage v url) = staged"
  using assms by (auto simp: download_and_stage_def stage_package_def split: sum.splits prod.splits option.splits if_splits)

lemma apply_update_Inr:
  assumes "apply_update version stage st = (Inr m, st')"
  obtains s url where "up_status st = Some s" "version_gt (us_latest s) version" "us_download_url s = Some url"
    "stage url = Staged m" "up_applied st'" "up_downloading st' = None" "up_error st' = None"
  using assms by (auto simp: apply_update_def Let_def split: option.splits if_splits stage_result.splits)

definition the_binaries :: "string set" where
  "the_binaries = {''doclinkd.exe'', ''doclink-win.exe''}"

text \<open>What the script leaves: the two binaries as staged, each one whose copy succeeds, or nothing changed.\<close>

lemma apply_script_get:
  assumes "map_of staged ''doclink-win.exe'' \<noteq> None"
  shows "apply_script copies staged app nm = (if map_of staged ''doclinkd.exe'' \<noteq> None \<and> nm \<in> the_binaries \<and> copies nm
     then map_of staged nm else app nm)"
  using assms by (auto simp: apply_script_def copy_over_def the_binaries_def split: option.split)

lemma install_update_Inr:
  assumes "install_update version v copies st app = (Inr m, st', app')"
  obtains s url pkg staged t k where "up_status st = Some s" "version_gt (us_latest s) version"
    "us_download_url s = Some url" "dn_get v url = Inr (k, t, Inr pkg)" "200 \<le> k" "k < 300"
    "dn_unpack v pkg = Some staged" "map_of staged ''doclink-win.exe'' \<noteq> None" "up_applied st'"
    "app' = apply_script copies staged app"
proof -
  obtain r where u: "apply_update version (\<lambda>url. fst (download_and_stage v url)) st = (r, st')" "r = Inr m"
    using assms by (auto simp: install_update_def Let_def split: prod.splits)
  obtain s url where s: "up_status st = Some s" "version_gt (us_latest s) version" "us_download_url s = Some url"
    "fst (download_and_stage v url) = Staged m" "up_applied st'"
    using apply_update_Inr [of version _ st m st'] u by metis
  obtain pkg staged t k where z: "dn_get v url = Inr (k, t, Inr pkg)" "200 \<le> k" "k < 300" "dn_unpack v pkg = Some staged"
    "map_of staged ''doclink-win.exe'' \<noteq> None" "snd (download_and_stage v url) = staged"
    using staged_package [OF s(4)] by metis
  have "app' = apply_script copies staged app"
    using assms u s(1,3) z(6) by (auto simp: install_update_def Let_def)
  from that [OF s(1-3) z(1-5) s(5) this] show ?thesis .
qed

section \<open>Files for the printer\<close>

text \<open>The staging directory is created when missing, and every file in it older than a day is removed.\<close>

definition STAGING_SECS :: nat where "STAGING_SECS = 24 * 3600"

definition stale_entry :: "u64 \<Rightarrow> fsys \<Rightarrow> path \<Rightarrow> string \<times> fnode \<Rightarrow> bool" where
  "stale_entry now fs dir e \<longleftrightarrow> dir @ [fst e] \<notin> set (fs_denied fs)
     \<and> (case node_mtime (snd e) of Some t \<Rightarrow> unat t + STAGING_SECS < unat now | None \<Rightarrow> False)"

definition print_staging_dir :: "io_out \<Rightarrow> (string \<Rightarrow> io_out) \<Rightarrow> u64 \<Rightarrow> path \<Rightarrow> fsys \<Rightarrow> path \<times> fsys" where
  "print_staging_dir mk rm now temp fs = (let
     dir = temp @ [''DocLinkPrint''];
     fs1 = snd (fs_create_dir_all mk now dir fs)
   in (dir, case read_dir fs1 dir of
        None \<Rightarrow> fs1
      | Some es \<Rightarrow> fold (\<lambda>e f. if stale_entry now fs1 dir e then snd (fs_remove_file (rm (fst e)) (dir @ [fst e]) f) else f) es fs1))"

definition stage_for_print :: "io_out \<Rightarrow> (string \<Rightarrow> io_out) \<Rightarrow> io_out \<Rightarrow> u64 \<Rightarrow> path \<Rightarrow> string \<Rightarrow> bytes \<Rightarrow> fsys
    \<Rightarrow> bool \<times> fsys" where
  "stage_for_print mk rm wr now temp target content fs = (let (dir, fs1) = print_staging_dir mk rm now temp fs in
     fs_write wr now (dir @ [target]) content fs1)"

text \<open>What the shell's verb answers: a code of at most 32 is an error.\<close>

definition SE_ERR_NOASSOC :: nat where "SE_ERR_NOASSOC = 31"

definition shell_print :: "nat \<Rightarrow> string + unit" where
  "shell_print code = (if code \<le> 32 then Inl (if code = SE_ERR_NOASSOC
       then ''Windows has no app associated with this file type '' @ em_dash @ '' open it once manually to set one''
       else ''could not start printing (shell error '' @ show_nat code @ '')'')
     else Inr ())"

lemma remove_files_get:
  assumes "d \<noteq> []"
  shows "fs_get (fold (\<lambda>e f. if P e then snd (fs_remove_file (rm (fst e)) (d @ [fst e]) f) else f) es fs) q
    = fs_get fs q \<or> (\<exists>e \<in> set es. P e \<and> q = d @ [fst e])"
proof (induction es arbitrary: fs)
  case (Cons e es)
  have "fs_get (snd (fs_remove_file (rm (fst e)) (d @ [fst e]) fs)) q = fs_get fs q \<or> q = d @ [fst e]"
    using fs_remove_file_frame by blast
  then show ?case using Cons.IH [of "if P e then snd (fs_remove_file (rm (fst e)) (d @ [fst e]) fs) else fs"] by auto
qed simp

text \<open>Staging a file never removes one that is at most a day old, and nothing outside its directory.\<close>

lemma staging_keeps:
  assumes "print_staging_dir mk rm now temp fs = (dir, fs')" "fs_ok fs1" "fs1 = snd (fs_create_dir_all mk now dir fs)"
    and "solid fs1 dir" "fs_get fs1 q = Some n" "\<And>w. q = dir @ [w] \<Longrightarrow> \<not> stale_entry now fs1 dir (w, n)"
  shows "fs_get fs' q = Some n"
proof -
  have d: "dir = temp @ [''DocLinkPrint'']" using assms(1) by (auto simp: print_staging_dir_def Let_def)
  show ?thesis
  proof (cases "read_dir fs1 dir")
    case None
    then show ?thesis using assms(1,3,5) d by (auto simp: print_staging_dir_def Let_def)
  next
    case (Some es)
    let ?f = "fold (\<lambda>e f. if stale_entry now fs1 dir e then snd (fs_remove_file (rm (fst e)) (dir @ [fst e]) f) else f) es fs1"
    have f: "fs' = ?f" using assms(1,3) d Some by (auto simp: print_staging_dir_def Let_def)
    have es: "es = children fs1 dir"
      using Some solid_canon [OF assms(4)] by (auto simp: read_dir_def split: if_splits option.splits fnode.splits)
    have "\<not> (\<exists>e \<in> set es. stale_entry now fs1 dir e \<and> q = dir @ [fst e])"
      using children_get [OF assms(2)] assms(5,6) es by fastforce
    then show ?thesis
      using remove_files_get [of dir "stale_entry now fs1 dir" rm es fs1 q] f d assms(5) by auto
  qed
qed

end
