(* ===== verification/Demo.thy ===== *)
theory Demo
  imports DataPlane Admin Proxy Calls Wire Machine Access Lifecycle Notify "HOL-Library.Countable"
begin

text \<open>A small concrete node, for the witnesses of the properties: one shared file, one empty inbox,
  one granted peer whose requests are signed as @<auth_headers_body> signs them.\<close>

definition demo_ident :: node_identity where
  "demo_ident = \<lparr>signing_key = ''k''\<rparr>"

definition demo_grant :: "string list \<Rightarrow> grant" where
  "demo_grant paths = \<lparr>g_fingerprint = fingerprint demo_ext demo_ident,
     g_node_id = node_id demo_ext demo_ident, g_name = ''PC'', g_granted_unix = 0,
     g_expires_unix = None, g_paths = paths, g_allow_files = True, g_allow_print = True\<rparr>"

definition demo_fs :: fsys where
  "demo_fs = \<lparr>fs_nodes = [([''C''], FDir None), ([''C'', ''s''], FDir None),
     ([''C'', ''s'', ''ab''], FFile ''hi'' None), ([''C'', ''s'', ''d''], FDir None),
     ([''C'', ''s'', ''d'', ''cd''], FFile ''yo'' None), ([''C'', ''i''], FDir None)], fs_denied = []\<rparr>"

definition demo_store :: "'t \<Rightarrow> 't store" where
  "demo_store t = \<lparr>st_data = t, st_disk = \<lparr>main_file = None, tmp_file = None\<rparr>\<rparr>"

definition demo_node :: "string list \<Rightarrow> node" where
  "demo_node paths = node_new \<lparr>ni_node_id = ''n'', ni_name = ''N'', ni_version = [], ni_fingerprint = [], ni_app_version = []\<rparr>
     \<lparr>sh_root = [''C'', ''s'']\<rparr> \<lparr>ib_root = [''C'', ''i'']\<rparr> 100 (demo_store [demo_grant paths])
     (demo_store []) pairing_default events_default (demo_store None) demo_ident demo_fs"

definition demo_codec :: "'t \<Rightarrow> 't codec" where
  "demo_codec t = \<lparr>cd_ser = (\<lambda>_. Some []), cd_de = (\<lambda>_. Some t), cd_default = t\<rparr>"

text \<open>A codec that reads every file of grants back: the number of the contents in an enumeration.\<close>

instance grant_ext :: (countable) countable
proof (rule countable_classI [of "\<lambda>g. to_nat (g_fingerprint g, g_node_id g, g_name g, g_granted_unix g,
    g_expires_unix g, g_paths g, g_allow_files g, g_allow_print g, grant.more g)"])
  fix g h :: "'a grant_scheme"
  assume "to_nat (g_fingerprint g, g_node_id g, g_name g, g_granted_unix g,
      g_expires_unix g, g_paths g, g_allow_files g, g_allow_print g, grant.more g)
    = to_nat (g_fingerprint h, g_node_id h, g_name h, g_granted_unix h,
      g_expires_unix h, g_paths h, g_allow_files h, g_allow_print h, grant.more h)"
  then show "g = h" by simp
qed

definition grants_codec :: "grants_file codec" where
  "grants_codec = \<lparr>cd_ser = (\<lambda>gs. Some (show_nat (to_nat gs))), cd_de = (\<lambda>s. Some (from_nat (dec_value s))),
     cd_default = []\<rparr>"

definition demo_request :: pair_request where
  "demo_request = (let r = \<lparr>pr_node_id = node_id demo_ext demo_ident, pr_name = ''PC'',
     pr_pubkey_hex = x_hex_encode demo_ext (verifying_key demo_ext demo_ident),
     pr_requested_duration_secs = 0, pr_signature = []\<rparr>
   in r\<lparr>pr_signature := x_hex_encode demo_ext (sign demo_ext demo_ident (canonical_request_string r))\<rparr>)"

definition demo_sys :: sys where
  "demo_sys = \<lparr>sy_x = demo_ext, sy_grants = grants_codec, sy_contacts = demo_codec [],
     sy_meta = demo_codec \<lparr>im_from = None, im_from_node_id = None, im_received_unix = None\<rparr>,
     sy_print = demo_codec None, sy_pair_request = (\<lambda>_. Some demo_request), sy_pair_decision = (\<lambda>_. None),
     sy_header_value = (\<lambda>_. True), sy_body_limit = 2097152\<rparr>"

definition demo_net :: pl_net where
  "demo_net = \<lparr>nt_printers = (\<lambda>_. Inl []), nt_challenge = (\<lambda>_ _. Inl []), nt_share = (\<lambda>_ _. Inl []),
     nt_print = (\<lambda>_ _. Inl []), nt_status_text = (\<lambda>_. [])\<rparr>"

definition demo_env :: env where
  "demo_env = \<lparr>en_clk = (\<lambda>_. 0), en_instant = 0, en_faults = no_faults, en_io = (\<lambda>_. Done),
     en_net = demo_net, en_port_var = None, en_rnd = (\<lambda>_. [])\<rparr>"

definition demo_headers :: "string \<Rightarrow> string \<Rightarrow> bytes \<Rightarrow> headers" where
  "demo_headers method path_q body = map_of (auth_headers_body demo_ext demo_ident 0 [] method path_q body)"

lemma demo_node_simps [simp]:
  "nd_grants (demo_node paths) = demo_store [demo_grant paths]" "nd_fs (demo_node paths) = demo_fs"
  "nd_share (demo_node paths) = \<lparr>sh_root = [''C'', ''s'']\<rparr>" "nd_inbox (demo_node paths) = \<lparr>ib_root = [''C'', ''i'']\<rparr>"
  "nd_inbox_max (demo_node paths) = 100" "nd_seen (demo_node paths) = []"
  "nd_pairing (demo_node paths) = pairing_default" "nd_events (demo_node paths) = events_default"
  "nd_contacts (demo_node paths) = demo_store []" "nd_identity (demo_node paths) = demo_ident"
  by (simp_all add: demo_node_def node_new_def)

lemma demo_store_data [simp]: "st_data (demo_store t) = t"
  by (simp add: demo_store_def)

lemma demo_sys_simps [simp]: "sy_x demo_sys = demo_ext" "sy_body_limit demo_sys = 2097152" "sy_header_value demo_sys = (\<lambda>_. True)"
  "sy_grants demo_sys = grants_codec" "sy_pair_request demo_sys b = Some demo_request"
  "sy_meta demo_sys = demo_codec \<lparr>im_from = None, im_from_node_id = None, im_received_unix = None\<rparr>"
  by (simp_all add: demo_sys_def)

lemma demo_env_simps [simp]: "en_clk demo_env = (\<lambda>_. 0)" "en_io demo_env = (\<lambda>_. Done)"
  "en_faults demo_env = no_faults"
  by (simp_all add: demo_env_def)

lemma demo_headers_other: "k \<notin> {''x-doclink-node'', ''x-doclink-pub'', ''x-doclink-ts'', ''x-doclink-nonce'',
    ''x-doclink-sig''} \<Longrightarrow> demo_headers m p b k = None"
  by (simp add: demo_headers_def auth_headers_body_def Let_def)

definition demo_seen :: "string \<Rightarrow> string \<Rightarrow> bytes \<Rightarrow> (string \<times> u64) list" where
  "demo_seen m p b = [(x_hex_encode demo_ext (sign demo_ext demo_ident
     (request_canonical m p (show_u64 0) (x_hex_encode demo_ext []) b)), 0)]"

lemma demo_auth [simp]:
  "require_auth demo_ext (\<lambda>_. 0) (demo_headers m p b) m p b (demo_node paths)
    = (Inr (demo_grant paths), (demo_node paths)\<lparr>nd_seen := demo_seen m p b\<rparr>)"
proof -
  have "abs_diff 0 0 \<le> MAX_SKEW_SECS" by (simp add: abs_diff_def)
  then show ?thesis
    using honest_accepted [OF demo_hex_laws demo_sig_laws refl, where i = demo_ident and t = 0 and nb = "[]"
        and meth = m and path_q = p and body = b and clk = "\<lambda>_. 0" and s = "demo_node paths" and g = "demo_grant paths"]
    by (simp add: demo_headers_def [symmetric] demo_grant_def purge_seen_def grant_live_def)
      (simp add: demo_headers_def auth_headers_body_def demo_seen_def Let_def)
qed

lemma demo_with_grant [simp]: "with_grant demo_sys demo_env (demo_headers m p b) m p b k (demo_node paths)
    = k (demo_grant paths) ((demo_node paths)\<lparr>nd_seen := demo_seen m p b\<rparr>)"
  by (simp add: with_grant_def)

lemma demo_grant_simps [simp]: "g_paths (demo_grant paths) = paths" "g_allow_files (demo_grant paths)"
  "g_allow_print (demo_grant paths)" "g_fingerprint (demo_grant paths) = fingerprint demo_ext demo_ident"
  "g_node_id (demo_grant paths) = node_id demo_ext demo_ident" "g_name (demo_grant paths) = ''PC''"
  by (simp_all add: demo_grant_def)

section \<open>What the node holds\<close>

lemma demo_resolve: "resolve demo_fs \<lparr>sh_root = [''C'', ''s'']\<rparr> ''ab'' = Inr [''C'', ''s'', ''ab'']"
  "resolve demo_fs \<lparr>sh_root = [''C'', ''s'']\<rparr> ''d/cd'' = Inr [''C'', ''s'', ''d'', ''cd'']"
  by code_simp+

lemma demo_read: "read_file demo_fs [''C'', ''s'', ''ab''] = Some ''hi''"
  by code_simp

lemma demo_fs_ok: "fs_ok demo_fs" "names_ok demo_fs"
  by code_simp+

lemma demo_inbox_ok: "inbox_ok demo_fs \<lparr>ib_root = [''C'', ''i'']\<rparr>"
  by (simp add: inbox_ok_def solid_def dirs_to_def less_Suc_eq numeral_2_eq_2 demo_fs_def fs_get_def no_links_below_def)

lemma demo_inbox2_ok: "inbox_ok demo_fs \<lparr>ib_root = [''C'', ''s'', ''d'']\<rparr>"
  by (simp add: inbox_ok_def solid_def dirs_to_def less_Suc_eq numeral_3_eq_3 demo_fs_def fs_get_def no_links_below_def)

lemma demo_list: "share_list demo_ext demo_fs \<lparr>sh_root = [''C'', ''s'']\<rparr> [] =
    Inr [\<lparr>de_name = ''d'', de_path = ''d'', de_kind = Dir, de_size = 0, de_modified_unix = None\<rparr>,
         \<lparr>de_name = ''ab'', de_path = ''ab'', de_kind = File, de_size = 2, de_modified_unix = None\<rparr>]"
  by code_simp

section \<open>What it answers\<close>

lemma demo_file_len: "(of_nat (length ''hi'') :: u64) = 2"
  by simp

lemma demo_download:
  "\<exists>d s'. file_handler demo_sys demo_env (demo_headers ''GET'' (file_path_q demo_ext ''ab'') []) ''ab''
    (demo_node [''ab'']) = (Inr d, s')"
proof -
  have r: "can_read_file [''ab''] ''ab''" by (simp add: can_read_file_def)
  have s: "\<exists>d. serve_file demo_sys None [''C'', ''s'', ''ab''] ''hi'' = Inr d"
    by (simp add: serve_file_def parse_range_def range_parts_def Let_def)
  show ?thesis
    using r s by (auto simp: file_handler_def demo_headers_other demo_resolve(1) demo_read)
qed

lemma demo_listing:
  "\<exists>r s'. list_handler demo_sys demo_env (demo_headers ''GET'' (list_path_q demo_ext []) []) []
    (demo_node [''ab'']) = (Inr r, s') \<and> map de_path (lr_entries r) = [''ab'']"
proof -
  have v: "entry_visible [''ab''] ''ab'' File" "\<not> entry_visible [''ab''] ''d'' Dir" by code_simp+
  show ?thesis using v by (auto simp: list_handler_def can_list_def demo_list)
qed

lemma demo_direct: "direct_hit demo_ext demo_fs \<lparr>sh_root = [''C'', ''s'']\<rparr> (x_to_lower demo_ext ''ab'') ''ab''
    = Some \<lparr>de_name = ''ab'', de_path = ''ab'', de_kind = File, de_size = 2, de_modified_unix = None\<rparr>"
  by code_simp

lemma demo_query: "trim ''ab'' = ''ab''" "chars_count ''ab'' = 2"
  by code_simp+

lemma demo_searching:
  "\<exists>r s'. search_handler demo_sys demo_env (demo_headers ''GET'' (search_path_q demo_ext ''ab'') []) ''ab''
    (demo_node [''ab'']) = (Inr r, s')
    \<and> \<lparr>de_name = ''ab'', de_path = ''ab'', de_kind = File, de_size = 2, de_modified_unix = None\<rparr> \<in> set (sr_results r)"
  by (auto simp: search_handler_def Let_def demo_direct demo_query List.map_filter_simps split: prod.split)

section \<open>The owner's actions\<close>

definition demo_admin_sys :: admin_sys where
  "demo_admin_sys = \<lparr>as_sys = demo_sys, as_toml = (\<lambda>_. Inr []), as_path_text = concat, as_version = ''0.5.0''\<rparr>"

definition demo_admin :: "string list \<Rightarrow> admin" where
  "demo_admin paths = \<lparr>ad_node = demo_node paths, ad_peers = [], ad_admin_port = 37656, ad_scan_enabled = False,
     ad_shutdown = False, ad_advertiser = False, ad_advertise_on = False, ad_data_port = 37655,
     ad_config_path = [''C'', ''doclink.toml''], ad_check_updates = False,
     ad_update = \<lparr>up_last_check_unix = None, up_status = None, up_checking = False, up_downloading = None,
       up_error = None, up_applied = False\<rparr>\<rparr>"

definition demo_admin_env :: admin_env where
  "demo_admin_env = \<lparr>ae_env = demo_env, ae_write_config = Done, ae_register_ok = True, ae_my_ip = None,
     ae_get = (\<lambda>_. None), ae_order = []\<rparr>"

definition demo_approve :: decision_body where
  "demo_approve = \<lparr>db_decision = ''approve'', db_duration_secs = 0, db_allow_files = None, db_allow_print = None\<rparr>"

lemma demo_boot: "boot demo_admin_sys (demo_admin paths)"
  by (simp add: boot_def demo_admin_def grants_sane_def node_id_def)

lemma demo_saves: "store_save (demo_codec t) no_faults st = (True, st\<lparr>st_disk := snd (run_disk no_faults 0 (save_ops []) (st_disk st))\<rparr>)"
  by (simp add: store_save_def demo_codec_def save_ops_def no_faults_def)

lemma grants_saves: "store_save grants_codec no_faults st = (True, st\<lparr>st_disk :=
    snd (run_disk no_faults 0 (save_ops (show_nat (to_nat (st_data st)))) (st_disk st))\<rparr>)"
  by (simp add: store_save_def grants_codec_def save_ops_def no_faults_def)

lemma grants_codec_ok: "codec_ok grants_codec"
  by (auto simp: codec_ok_def grants_codec_def valid_show_nat)

lemma demo_share_item: "\<exists>infos s'. share_item demo_admin_sys demo_env ''ab'' [] (demo_node []) = (Inr infos, s')"
  by (simp add: share_item_def demo_admin_sys_def demo_resolve Let_def save_grants_def grants_saves)

definition demo_revoked :: admin where
  "demo_revoked = snd (on_node (revoke_grant demo_admin_sys demo_env (fingerprint demo_ext demo_ident)) (demo_admin []))"

definition demo_asked :: admin where
  "demo_asked = demo_revoked\<lparr>ad_node := snd (serve (as_sys demo_admin_sys) demo_env None (\<lambda>_. None)
     (PostPairRequest []) (ad_node demo_revoked))\<rparr>"

definition demo_approved :: admin where
  "demo_approved = snd (snd (decide_request demo_admin_sys demo_admin_env (node_id demo_ext demo_ident) demo_approve demo_asked))"

lemma demo_revoked_node: "\<exists>st. ad_node demo_revoked = (demo_node [])\<lparr>nd_grants := st\<rparr> \<and> st_data st = []"
  by (simp add: demo_revoked_def revoke_grant_def demo_admin_def Let_def save_grants_def demo_admin_sys_def
      grants_saves) (rule exI, rule conjI, rule refl, simp)

lemma demo_request_fields [simp]: "pr_node_id demo_request = node_id demo_ext demo_ident"
  "pr_pubkey_hex demo_request = x_hex_encode demo_ext (verifying_key demo_ext demo_ident)"
  by (simp_all add: demo_request_def Let_def)

lemma demo_request_verifies:
  "verify demo_ext (pr_pubkey_hex demo_request) (canonical_request_string demo_request) (pr_signature demo_request) = Inr ()"
proof -
  have "canonical_request_string demo_request = canonical_request_string (demo_request\<lparr>pr_signature := []\<rparr>)"
    by (simp add: canonical_request_string_def)
  then show ?thesis
    using verify_own [OF demo_hex_laws demo_sig_laws, of demo_ident "canonical_request_string demo_request"]
    by (simp add: demo_request_def Let_def canonical_request_string_def)
qed

lemma demo_asked_node: "\<exists>s. ad_node demo_asked = s \<and> grants_of s = [] \<and> nd_seen s = []
    \<and> map_of (pending (nd_pairing s)) (node_id demo_ext demo_ident) = Some \<lparr>pe_request = demo_request, pe_received_unix = 0\<rparr>"
proof -
  obtain st where st: "ad_node demo_revoked = (demo_node [])\<lparr>nd_grants := st\<rparr>" "st_data st = []"
    using demo_revoked_node by blast
  have "take 16 (fingerprint demo_ext demo_ident) = node_id demo_ext demo_ident" by (simp add: node_id_def)
  then show ?thesis
    using st demo_request_verifies fingerprint_of_own_pubkey [OF demo_hex_laws, of demo_ident]
    by (simp add: demo_asked_def serve_def answer_def buffered_def rate_limit_pair_def pair_request_handler_def
        admit_request_def admit_pending_def prune_pending_def demo_admin_sys_def find_grant_def
        pairing_default_def MAX_PENDING_def Let_def)
qed

lemma demo_approved_node: "\<exists>g. grants_of (ad_node demo_approved) = [g] \<and> nd_seen (ad_node demo_approved) = []
    \<and> g_fingerprint g = fingerprint demo_ext demo_ident \<and> g_node_id g = node_id demo_ext demo_ident
    \<and> g_expires_unix g = None"
proof -
  obtain s where s: "ad_node demo_asked = s" "grants_of s = []" "nd_seen s = []"
    "map_of (pending (nd_pairing s)) (node_id demo_ext demo_ident) = Some \<lparr>pe_request = demo_request, pe_received_unix = 0\<rparr>"
    using demo_asked_node by blast
  then show ?thesis
    using fingerprint_of_own_pubkey [OF demo_hex_laws, of demo_ident]
    by (simp add: demo_approved_def decide_request_def apply_decision_with_perms_def demo_admin_sys_def
        demo_admin_env_def demo_approve_def granted_def grants_upsert_def grants_saves push_decision_state
        case_prod_beta Let_def)
qed

lemma demo_honest:
  "\<exists>g s'. require_auth demo_ext (\<lambda>_. 0) (demo_headers m p b) m p b (ad_node demo_approved) = (Inr g, s')"
proof -
  obtain g where g: "grants_of (ad_node demo_approved) = [g]" "nd_seen (ad_node demo_approved) = []"
    "g_fingerprint g = fingerprint demo_ext demo_ident" "g_node_id g = node_id demo_ext demo_ident"
    "g_expires_unix g = None" using demo_approved_node by blast
  have "abs_diff 0 0 \<le> MAX_SKEW_SECS" by (simp add: abs_diff_def)
  then show ?thesis
    using honest_accepted [OF demo_hex_laws demo_sig_laws refl, where i = demo_ident and t = 0 and nb = "[]"
        and meth = m and path_q = p and body = b and clk = "\<lambda>_. 0" and s = "ad_node demo_approved" and g = g] g
    by (simp add: demo_headers_def [symmetric] purge_seen_def grant_live_def)
      (simp add: demo_headers_def auth_headers_body_def Let_def)
qed

lemma demo_write: "fst (write_file (demo_codec m0) (\<lambda>_. Done) 0 \<lparr>ib_root = [''C'', ''i'']\<rparr> ''f'' ''x'' m demo_fs)
    = Inr ''f''"
  by code_simp

lemma demo_valid: "valid_name ''f''" "trim ''f'' = ''f''"
  by code_simp+

lemma demo_upload:
  "\<exists>r s'. upload_handler demo_sys demo_env (demo_headers ''POST'' (upload_path_q demo_ext ''f'') ''x'') ''f'' ''x''
    (demo_node []) = (Inr r, s') \<and> ur_name r = ''f''"
proof -
  obtain fs where w: "write_file (demo_codec \<lparr>im_from = None, im_from_node_id = None, im_received_unix = None\<rparr>)
      (\<lambda>_. Done) 0 \<lparr>ib_root = [''C'', ''i'']\<rparr> ''f'' ''x''
      \<lparr>im_from = Some ''PC'', im_from_node_id = Some (node_id demo_ext demo_ident), im_received_unix = Some 0\<rparr> demo_fs
      = (Inr ''f'', fs)"
    using demo_write by (metis prod.collapse)
  then show ?thesis by (simp add: upload_handler_def demo_valid Let_def)
qed

lemma demo_digits: "parse_u64 ''0'' = Some 0" "parse_u64 ''2'' = Some 2" "parse_u64 ''9'' = Some 9" "show_u64 1 = ''1''"
proof -
  have d: "char_of (48 :: nat) = CHR ''0''" "char_of (49 :: nat) = CHR ''1''" "char_of (50 :: nat) = CHR ''2''"
    "char_of (57 :: nat) = CHR ''9''" by code_simp+
  show "parse_u64 ''0'' = Some 0" "parse_u64 ''2'' = Some 2" "parse_u64 ''9'' = Some 9" "show_u64 1 = ''1''"
    using parse_show_u64 [of 0] parse_show_u64 [of 2] parse_show_u64 [of 9]
    by (simp_all add: show_u64_def show_nat.simps digit_def d)
qed

lemma demo_range_words: "trim ''0'' = ''0''" "trim ''2'' = ''2''" "trim ''9'' = ''9''"
  "strip_prefix ''bytes='' ''bytes=0-0'' = Some ''0-0''" "strip_prefix ''bytes='' ''bytes=2-9'' = Some ''2-9''"
  "split_once (CHR ''-'') ''0-0'' = Some (''0'', ''0'')" "split_once (CHR ''-'') ''2-9'' = Some (''2'', ''9'')"
  "contains '','' ''0-0'' = False" "contains '','' ''2-9'' = False"
  by code_simp+

lemma demo_ranges: "parse_range (Some ''bytes=0-0'') 5 = Partial 0 0" "parse_range (Some ''bytes=2-9'') 5 = Partial 2 4"
  by (simp_all add: parse_range_def demo_range_words demo_digits min_u64_def Let_def)

definition bool_codec :: "bool codec" where
  "bool_codec = \<lparr>cd_ser = (\<lambda>b. Some (if b then ''1'' else ''0'')), cd_de = (\<lambda>s. Some (s = ''1'')), cd_default = False\<rparr>"

lemma bool_codec_ok: "codec_ok bool_codec"
proof -
  have "valid_utf8 ''1'' \<and> valid_utf8 ''0''" by code_simp
  then show ?thesis by (auto simp: codec_ok_def bool_codec_def)
qed

section \<open>Printing\<close>

definition demo_token :: local_print_token where
  "demo_token = \<lparr>lt_token = ''t'', lt_expires_at = [],
     lt_pinned_fp = x_hex_encode demo_ext (x_sha256 demo_ext ''c''), lt_added_unix = 0\<rparr>"

definition demo_print_net :: pl_net where
  "demo_print_net = demo_net\<lparr>
     nt_printers := (\<lambda>_. Inr \<lparr>rp_tls = Some (Some ''c''), rp_status = 200, rp_body = Some [\<lparr>hp_alias = ''p'',
       hp_offline = False, hp_paused = False, hp_error = False, hp_jobs_queued = 0\<rparr>]\<rparr>),
     nt_share := (\<lambda>_ _. Inr \<lparr>rp_tls = Some (Some ''c''), rp_status = 200, rp_body = Some \<lparr>sa_status = ''accepted'',
       sa_token = ''u'', sa_expires_at = [], sa_tls_fp = x_hex_encode demo_ext (x_sha256 demo_ext ''c'')\<rparr>\<rparr>),
     nt_challenge := (\<lambda>_ _. Inr \<lparr>rp_tls = None, rp_status = 200, rp_body = Some (Some ''n'')\<rparr>),
     nt_print := (\<lambda>_ _. Inr \<lparr>rp_tls = Some (Some ''c''), rp_status = 200, rp_body = None\<rparr>)\<rparr>"

lemma demo_seal: "\<exists>c. encrypt_payload demo_ext nonce plain token = Inr c"
  by (simp add: encrypt_payload_def demo_ext_def)

lemma demo_job: "submit_job demo_ext demo_print_net None (\<lambda>_. pad 12 []) demo_token ''1'' ''f'' ''x'' = Inr ()"
proof -
  obtain c where "encrypt_payload demo_ext (pad 12 []) ''x'' (lt_token demo_token) = Inr c" using demo_seal by blast
  moreover obtain p ps where "ports_to_try None = p # ps"
    using ports_to_try_props [of None] by (cases "ports_to_try None") auto
  ultimately show ?thesis
    by (simp add: submit_job_def auth_challenge_on_port_def demo_print_net_def check_pin_def der_fingerprint_def
        eq_ignore_ascii_case_def demo_token_def print_outcome_def success_status_def)
qed

lemma demo_repair: "\<exists>t st. ensure_paired demo_ext demo_print_net None (demo_codec None) no_faults 0 0 demo_ident ''N''
    (demo_store (Some demo_token)) = (Inr t, st) \<and> lt_token t = ''u''"
proof -
  have e: "expires_unix [] = None" by (simp add: expires_unix_def split: option.split)
  moreover obtain p ps where "ports_to_try None = p # ps"
    using ports_to_try_props [of None] by (cases "ports_to_try None") auto
  ultimately show ?thesis
    by (simp add: ensure_paired_def is_expired_def demo_token_def list_printers_on_port_def request_share_on_port_def
        demo_print_net_def check_pin_def der_fingerprint_def eq_ignore_ascii_case_def success_status_def Let_def)
qed

section \<open>Two nodes\<close>

text \<open>The node answers at an address, and the owner of another one has it among the contacts. JSON is a line
  of text here.\<close>

fun demo_status_text :: "pair_status \<Rightarrow> string" where
  "demo_status_text Approved = ''a''"
| "demo_status_text Denied = ''d''"
| "demo_status_text Pending = ''p''"
| "demo_status_text Unknown = ''u''"

definition demo_expiry_text :: "u64 option \<Rightarrow> string" where
  "demo_expiry_text e = (case e of None \<Rightarrow> [] | Some t \<Rightarrow> show_u64 t)"

fun demo_json_of :: "dp_response \<Rightarrow> bytes" where
  "demo_json_of (OkUpload v) = show_u64 (ur_size v) @ nl # ur_name v"
| "demo_json_of (OkPair v) = demo_status_text (ps_status v) @ nl # demo_expiry_text (ps_expires_unix v)"
| "demo_json_of _ = []"

definition demo_wire :: "string \<Rightarrow> wire" where
  "demo_wire base = \<lparr>wi_base = base, wi_ip = None, wi_cert = ED25519_SPKI_HEADER @ verifying_key demo_ext demo_ident,
     wi_decode = Some, wi_json = demo_json_of, wi_error = (\<lambda>_. []), wi_other = (\<lambda>_. (404, []))\<rparr>"

definition demo_read_upload :: "string \<Rightarrow> string + upload_result" where
  "demo_read_upload t = (case split_once nl t of
     None \<Rightarrow> Inl [] | Some (a, b) \<Rightarrow> (case parse_u64 a of None \<Rightarrow> Inl [] | Some k \<Rightarrow> Inr \<lparr>ur_name = b, ur_size = k\<rparr>))"

definition demo_read_status :: "string \<Rightarrow> string + pair_status_response" where
  "demo_read_status t = (case split_once nl t of
     None \<Rightarrow> Inl []
   | Some (a, b) \<Rightarrow> Inr \<lparr>ps_status = (if a = ''a'' then Approved else if a = ''d'' then Denied
       else if a = ''p'' then Pending else Unknown), ps_expires_unix = parse_u64 b\<rparr>)"

definition demo_json :: peer_json where
  "demo_json = \<lparr>pj_text = (\<lambda>r b. b), pj_status_text = show_nat, pj_error = (\<lambda>_. None), pj_value = (\<lambda>_. Inr JNull),
     pj_list = (\<lambda>_. Inr \<lparr>lr_path = [], lr_entries = [\<lparr>de_name = ''ab'', de_path = ''ab'', de_kind = File, de_size = 2,
       de_modified_unix = None\<rparr>]\<rparr>), pj_search = (\<lambda>_. Inl []), pj_upload = demo_read_upload,
     pj_info = (\<lambda>_. Inr \<lparr>ni_node_id = replicate 16 (CHR ''0''), ni_name = ''P'', ni_version = [],
       ni_fingerprint = fingerprint demo_ext demo_ident, ni_app_version = []\<rparr>),
     pj_pair_status = demo_read_status, pj_pair_request = (\<lambda>_. []), pj_header_value = (\<lambda>_. True)\<rparr>"

definition demo_client :: "http \<Rightarrow> client" where
  "demo_client h = \<lparr>cl_json = demo_json, cl_http = h, cl_now = (\<lambda>_. 0), cl_ts = (\<lambda>_. 0), cl_nonce = (\<lambda>_. [])\<rparr>"

definition demo_contact :: "string \<Rightarrow> contact" where
  "demo_contact st = \<lparr>c_node_id = ''p'', c_alias = ''P'', c_fingerprint = fingerprint demo_ext demo_ident,
     c_host = Some ''h'', c_status = st\<rparr>"

definition demo_caller :: admin where
  "demo_caller = (demo_admin [])\<lparr>ad_node := (demo_node [])\<lparr>nd_contacts := demo_store [demo_contact ''approved'']\<rparr>\<rparr>"

lemma demo_wire_simps [simp]: "wi_base (demo_wire b) = b" "wi_ip (demo_wire b) = None" "wi_decode (demo_wire b) = Some"
  "wi_cert (demo_wire b) = ED25519_SPKI_HEADER @ verifying_key demo_ext demo_ident" "wi_json (demo_wire b) = demo_json_of"
  by (simp_all add: demo_wire_def)

lemma demo_json_simps [simp]: "pj_text demo_json r b = b" "pj_upload demo_json = demo_read_upload"
  "pj_pair_status demo_json = demo_read_status" "pj_value demo_json t = Inr JNull" "pj_header_value demo_json v"
  by (simp_all add: demo_json_def)

lemma demo_client_simps [simp]: "cl_json (demo_client h) = demo_json" "cl_http (demo_client h) = h"
  "cl_now (demo_client h) k = 0" "cl_ts (demo_client h) k = 0" "cl_nonce (demo_client h) k = []"
  by (simp_all add: demo_client_def)

lemma demo_caller_node [simp]: "ad_node demo_caller = (demo_node [])\<lparr>nd_contacts := demo_store [demo_contact ''approved'']\<rparr>"
  by (simp add: demo_caller_def)

lemma demo_url [simp]: "x_url_encode demo_ext v = v" "x_cert_spki demo_ext (ED25519_SPKI_HEADER @ k) = Some (ED25519_SPKI_HEADER @ k)"
  by (simp_all add: demo_ext_def ED25519_SPKI_HEADER_def)

lemma split_once_nl: "nl \<notin> set a \<Longrightarrow> split_once nl (a @ nl # b) = Some (a, b)"
  by (simp add: split_once_Some)

lemma demo_reads_upload [simp]: "demo_read_upload (show_u64 (ur_size v) @ nl # ur_name v) = Inr v"
  by (simp add: demo_read_upload_def split_once_nl)

lemma demo_no_digits: "parse_u64 [] = None"
  by (simp add: parse_u64_def parse_uint_def drop_plus_def)

lemma demo_reads_status [simp]:
  "demo_read_status (demo_status_text (ps_status v) @ nl # demo_expiry_text (ps_expires_unix v)) = Inr v"
proof -
  have sp: "split_once nl (demo_status_text st @ nl # b) = Some (demo_status_text st, b)" for st b
    by (rule split_once_nl) (cases st; simp)
  have "parse_u64 (demo_expiry_text e) = e" for e
    using demo_no_digits by (cases e) (simp_all add: demo_expiry_text_def)
  then show ?thesis unfolding demo_read_status_def sp option.case prod.case
    by (cases v; cases "ps_status v") simp_all
qed

lemma demo_lookup: "fst (peer_lookup 0 ''p'' demo_caller) = Inr \<lparr>pt_base = ''https://h'',
    pt_fingerprint = fingerprint demo_ext demo_ident\<rparr>"
  by (simp add: peer_lookup_def find_contact_def demo_contact_def list_peers_def registry_snapshot_def demo_caller_def
      demo_admin_def)

lemma demo_honours: "honours demo_sys demo_env (demo_node paths) demo_ident (demo_grant paths)"
  by (simp add: honours_def grant_live_def) (simp add: demo_grant_def)

lemma demo_fresh: "fresh_call demo_sys demo_env (demo_node paths) 0 (auth_headers_body demo_ext demo_ident 0 [] m pq b)"
  by (simp add: fresh_call_def abs_diff_def purge_seen_def auth_headers_body_def Let_def)

lemma demo_file_to_send: "file_to_send ''ab'' (ad_node demo_caller) = Inr ''hi''"
proof -
  have "metadata demo_fs [''C'', ''s'', ''ab''] = Some (FFile ''hi'' None)" by code_simp
  then show ?thesis by (simp add: file_to_send_def demo_resolve demo_read)
qed

lemma demo_file_name: "file_name ''ab'' = ''ab''"
  by code_simp

lemma demo_write_hi: "fst (write_file (demo_codec m0) (\<lambda>_. Done) 0 \<lparr>ib_root = [''C'', ''i'']\<rparr> ''ab'' ''hi'' m demo_fs)
    = Inr ''ab''"
  by code_simp

lemma demo_valid_ab: "valid_name ''ab''" "trim ''ab'' = ''ab''"
  by code_simp+

lemma demo_upload_hi: "fst (upload_handler demo_sys demo_env (demo_headers ''POST'' (upload_path_q demo_ext ''ab'') ''hi'')
    ''ab'' ''hi'' (demo_node [])) = Inr \<lparr>ur_name = ''ab'', ur_size = 2\<rparr>"
proof -
  obtain fs where "write_file (demo_codec \<lparr>im_from = None, im_from_node_id = None, im_received_unix = None\<rparr>)
      (\<lambda>_. Done) 0 \<lparr>ib_root = [''C'', ''i'']\<rparr> ''ab'' ''hi''
      \<lparr>im_from = Some ''PC'', im_from_node_id = Some (node_id demo_ext demo_ident), im_received_unix = Some 0\<rparr> demo_fs
      = (Inr ''ab'', fs)"
    using demo_write_hi by (metis prod.collapse)
  then show ?thesis by (simp add: upload_handler_def demo_valid_ab Let_def)
qed

lemma demo_sent: "\<exists>r. fst (send_file demo_admin_sys demo_env (demo_client (node_http demo_sys demo_env
    (demo_wire ''https://h'') (demo_node []))) ''p'' ''ab'' demo_caller) = Inr r \<and> sn_stored r = ''ab''"
proof -
  let ?w = "demo_wire ''https://h''"
  let ?cl = "demo_client (node_http demo_sys demo_env ?w (demo_node []))"
  let ?rq = "upload_request demo_ext demo_ident ?cl ''https://h'' ''ab'' ''hi''"
  let ?u = "\<lparr>ur_name = ''ab'', ur_size = 2 :: u64\<rparr>"
  have rq: "rq_url ?rq = wi_base ?w @ ''/v1/upload?name='' @ ''ab''" "rq_method ?rq = ''POST''" "rq_body ?rq = ''hi''"
    "map_of (rq_headers ?rq) = demo_headers ''POST'' (upload_path_q demo_ext ''ab'') ''hi''"
    by (simp_all add: signed_post_def demo_headers_def upload_path_q_def)
  have route: "route_request ?w ?rq = Some (PostUpload ''ab'' ''hi'')"
    using route_upload [OF rq(1,2), of "''ab''"] rq(3) by simp
  have "fst (serve demo_sys demo_env None (map_of (rq_headers ?rq)) (PostUpload ''ab'' ''hi'') (demo_node [])) = OkUpload ?u"
    unfolding rq(4) using demo_upload_hi by (simp add: serve_def buffered_def answer_def)
  then have h: "cl_http ?cl ?rq = Inr (as_response ?w (OkUpload ?u))"
    using route by (simp add: node_http_def)
  have "pinned demo_ext (as_response ?w (OkUpload ?u)) (fingerprint demo_ext demo_ident)"
    by (rule own_cert_pinned [OF demo_sig_laws, where cert = "wi_cert ?w"]) (simp_all add: as_response_def)
  then have "send_pinned demo_ext ?cl (fingerprint demo_ext demo_ident) ?rq = Inr (as_response ?w (OkUpload ?u))"
    using h by (simp add: send_pinned_Inr)
  then have t: "answer_text demo_ext ?cl True (fingerprint demo_ext demo_ident) ?rq = Inr (demo_json_of (OkUpload ?u))"
    by (simp add: answer_text_def body_text_def as_response_def response_body_def is_unsupported_route_def is_success_def)
  have "fst (proxy_upload demo_ext ?cl 0 ''p'' ''ab'' ''hi'' demo_caller) = Inr ?u"
    using demo_lookup t demo_reads_upload [of ?u]
    by (simp add: proxy_upload_def with_peer_def case_prod_beta invalid_response_def)
  then show ?thesis
    using demo_file_to_send
    by (auto simp: send_file_def demo_admin_sys_def demo_file_name Let_def case_prod_beta)
qed

text \<open>A peer that answers every request alike, over the right certificate.\<close>

definition demo_old :: client where
  "demo_old = demo_client (\<lambda>_. Inr \<lparr>rs_tls = Some (Some (ED25519_SPKI_HEADER @ verifying_key demo_ext demo_ident)),
     rs_status = 200, rs_headers = (\<lambda>_. None), rs_body = Inr [CHR ''p'', nl]\<rparr>)"

lemma demo_old_simps [simp]: "cl_json demo_old = demo_json" "cl_now demo_old k = 0"
  by (simp_all add: demo_old_def)

lemma demo_old_pinned: "rs_tls r = Some (Some (ED25519_SPKI_HEADER @ verifying_key demo_ext demo_ident)) \<Longrightarrow>
    pinned demo_ext r (fingerprint demo_ext demo_ident)"
  by (rule own_cert_pinned [OF demo_sig_laws]) simp_all

lemma demo_old_list: "proxy_list demo_ext demo_old k ''p'' [] demo_caller = (Inr JNull, demo_caller)"
proof -
  have "send_pinned demo_ext demo_old (fingerprint demo_ext demo_ident) rq = Inr \<lparr>rs_tls = Some (Some (ED25519_SPKI_HEADER
      @ verifying_key demo_ext demo_ident)), rs_status = 200, rs_headers = (\<lambda>_. None), rs_body = Inr [CHR ''p'', nl]\<rparr>" for rq
    by (simp add: send_pinned_Inr demo_old_pinned demo_old_def)
  then have "answer_text demo_ext demo_old False (fingerprint demo_ext demo_ident) rq = Inr [CHR ''p'', nl]" for rq
    by (simp add: answer_text_def body_text_def is_success_def)
  moreover have "peer_lookup 0 ''p'' demo_caller = (Inr \<lparr>pt_base = ''https://h'',
      pt_fingerprint = fingerprint demo_ext demo_ident\<rparr>, demo_caller)"
    by (simp add: peer_lookup_def find_contact_def demo_contact_def list_peers_def registry_snapshot_def demo_caller_def
      demo_admin_def)
  ultimately show ?thesis by (simp add: proxy_list_def with_peer_def invalid_response_def)
qed

lemma demo_list_d: "share_list demo_ext demo_fs \<lparr>sh_root = [''C'', ''s'']\<rparr> ''d'' =
    Inr [\<lparr>de_name = ''cd'', de_path = ''d/cd'', de_kind = File, de_size = 2, de_modified_unix = None\<rparr>]"
  by code_simp

lemma demo_matches: "matches_query demo_ext ''ab'' ''ab''" "\<not> matches_query demo_ext ''cd'' ''ab''"
  "x_to_lower demo_ext (trim ''ab'') = ''ab''"
  by code_simp+

lemma demo_search: "search_scope demo_ext demo_fs \<lparr>sh_root = [''C'', ''s'']\<rparr> [] ''ab''
    = ([\<lparr>de_name = ''ab'', de_path = ''ab'', de_kind = File, de_size = 2, de_modified_unix = None\<rparr>], False)"
  unfolding search_scope_def Let_def demo_matches
  by (simp add: search_loop.simps list_sync_eq demo_list demo_list_d demo_matches SEARCH_VISIT_BUDGET_def
      SEARCH_MAX_RESULTS_def Let_def)

lemma demo_granted: "grant_live t (demo_grant paths)" "g_node_id (demo_grant paths) = node_id demo_ext demo_ident"
  by (simp_all add: grant_live_def demo_grant_def)

definition demo_new_contact :: add_contact_body where
  "demo_new_contact = \<lparr>ab_node_id = replicate 16 (CHR ''0''), ab_alias = ''P'', ab_host = Some ''h'', ab_duration_secs = 0\<rparr>"

lemma demo_added: "\<exists>st a'. add_contact demo_admin_sys demo_admin_env demo_old [] demo_new_contact demo_caller = (Inr st, a')"
proof -
  have n: "normalize_id demo_ext (replicate 16 (CHR ''0'')) = replicate 16 (CHR ''0'')"
    "valid_node_id (replicate 16 (CHR ''0''))" "replicate 16 (CHR ''0'') \<noteq> ''n''" "trim ''h'' = ''h''"
    by code_simp+
  let ?r = "\<lparr>rs_tls = Some (Some (ED25519_SPKI_HEADER @ verifying_key demo_ext demo_ident)),
     rs_status = 200, rs_headers = (\<lambda>_. None), rs_body = Inr [CHR ''p'', nl]\<rparr>"
  have h: "cl_http demo_old rq = Inr ?r" for rq by (simp add: demo_old_def)
  have c: "sy_contacts demo_sys = demo_codec []" "ni_node_id (nd_node (demo_node [])) = ''n''"
    by (simp_all add: demo_sys_def demo_node_def node_new_def)
  have k: "length (verifying_key demo_ext demo_ident) = 32"
    by (simp add: verifying_key_def demo_ext_def length_pad)
  have p: "peer_check demo_ext (rs_tls ?r) None = Inr (fingerprint demo_ext demo_ident)"
    "peer_check demo_ext (rs_tls ?r) (Some (fingerprint demo_ext demo_ident)) = Inr (fingerprint demo_ext demo_ident)"
    by (simp_all add: k peer_check_def spki_hex_of_def spki_sha256_def fingerprint_def eq_ignore_ascii_case_def)
  have "fetch_info demo_ext demo_old base (replicate 16 (CHR ''0'')) = Inr \<lparr>ni_node_id = replicate 16 (CHR ''0''), ni_name = ''P'',
      ni_version = [], ni_fingerprint = fingerprint demo_ext demo_ident, ni_app_version = []\<rparr>" for base
    using p by (simp add: fetch_info_def h demo_json_def eq_ignore_ascii_case_def)
  moreover have "send_pair_request demo_ext demo_old base (fingerprint demo_ext demo_ident) rq
      = Inr \<lparr>ps_status = Pending, ps_expires_unix = None\<rparr>" for base rq
    using p demo_reads_status [of "\<lparr>ps_status = Pending, ps_expires_unix = None\<rparr>"]
    by (simp add: send_pair_request_def h demo_expiry_text_def)
  ultimately show ?thesis
    using n c by (simp add: add_contact_def demo_new_contact_def resolve_peer_base_def demo_admin_sys_def save_contact_def
        demo_admin_env_def demo_saves Let_def)
qed

end
