(* ===== verification/Scenario.thy ===== *)
theory Scenario
  imports Demo Interleave OwnerApi Upkeep
begin

text \<open>A start of the concrete node on a concrete disk, a change of its settings and a second start, and
  a poll of the window shell, for the witnesses of the properties about them.\<close>

section \<open>A first start\<close>

definition demo_start_env :: start_env where
  "demo_start_env = \<lparr>se_var = (\<lambda>_. None), se_cwd = [''C''],
     se_path = (\<lambda>t. if t = ''shared'' \<or> t = ''Cs'' then [''C'', ''s''] else [''C'', ''i'']),
     se_parse = (\<lambda>_. None), se_key_io = (True, True, True), se_fresh_key = [], se_readable = (\<lambda>_. True),
     se_io = (\<lambda>_. Done), se_now = 0, se_free_data = (\<lambda>_. True), se_free_admin = (\<lambda>_. True),
     se_tls_ok = True, se_mdns = True, se_probe = (\<lambda>_ _. None), se_register = (\<lambda>_. True)\<rparr>"

definition demo_cli :: cli where "demo_cli = \<lparr>cl_config = None, cl_port = None\<rparr>"

definition no_file :: disk where "no_file = \<lparr>main_file = None, tmp_file = None\<rparr>"

definition demo_key :: bytes where "demo_key = replicate 32 (CHR ''k'')"

definition demo_disk :: machine_disk where
  "demo_disk = \<lparr>md_fs = demo_fs, md_key = Some demo_key, md_grants = no_file, md_contacts = no_file,
     md_print = no_file\<rparr>"

text \<open>The disk of a node: the share and the inbox stand on it, and a file can be written beside them.\<close>

definition roots_stand :: "fsys \<Rightarrow> bool" where
  "roots_stand fs \<longleftrightarrow> share_new Done 0 [''C'', ''s''] fs = (Inr \<lparr>sh_root = [''C'', ''s'']\<rparr>, fs)
     \<and> inbox_new Done 0 [''C'', ''i''] fs = (Inr \<lparr>ib_root = [''C'', ''i'']\<rparr>, fs)"

lemma demo_roots_stand: "roots_stand demo_fs"
  "roots_stand (snd (fs_write Done 0 [''C'', ''doclink-admin.port''] t demo_fs))"
  "roots_stand (snd (fs_write Done 0 [''C'', ''doclink.toml''] u demo_fs))"
  "roots_stand (snd (fs_write Done 0 [''C'', ''doclink-admin.port''] t (snd (fs_write Done 0 [''C'', ''doclink.toml''] u demo_fs))))"
  unfolding roots_stand_def by code_simp+

lemma demo_writes: "fst (fs_write Done 0 [''C'', ''doclink-admin.port''] t demo_fs)"
  "fst (fs_write Done 0 [''C'', ''doclink.toml''] t demo_fs)"
  by code_simp+

lemma demo_config: "config_load (\<lambda>_. None) f demo_fs [''C'', ''doclink.toml''] = Inr (config_default (\<lambda>_. None))"
  by code_simp

text \<open>A start on such a disk succeeds; the ports are the configured one and the next.\<close>

lemma demo_starts:
  assumes "roots_stand (md_fs d)"
    and "roots_stand (snd (fs_write Done 0 [''C'', ''doclink-admin.port''] (show_nat (unat (cf_http_port cfg + 1))) (md_fs d)))"
    and "config_load (\<lambda>_. None) parse (md_fs d) [''C'', ''doclink.toml''] = Inr cfg"
    and "cf_share_root cfg = ''shared'' \<or> cf_share_root cfg = ''Cs''"
      "cf_inbox_root cfg = ''inbox'' \<or> cf_inbox_root cfg = ''Ci''"
    and "md_key d = Some demo_key" "md_grants d = no_file" "md_contacts d = no_file" "md_print d = no_file"
  shows "\<exists>a d'. daemon_start (demo_admin_sys\<lparr>as_toml := ser\<rparr>) (demo_start_env\<lparr>se_parse := parse\<rparr>) demo_cli d = (Inr a, d')
    \<and> ad_admin_port a = cf_http_port cfg + 1 \<and> ad_data_port a = cf_http_port cfg
    \<and> signing_key (nd_identity (ad_node a)) = demo_key \<and> ad_advertise_on a = cf_advertise cfg
    \<and> ad_check_updates a = cf_check_updates cfg
    \<and> port_file_written (demo_admin_sys\<lparr>as_toml := ser\<rparr>) (demo_start_env\<lparr>se_parse := parse\<rparr>) demo_cli d
      = fst (fs_write Done 0 [''C'', ''doclink-admin.port''] (show_nat (unat (cf_http_port cfg + 1))) (md_fs d))"
proof -
  let ?v = "demo_start_env\<lparr>se_parse := parse\<rparr>" and ?y = "demo_admin_sys\<lparr>as_toml := ser\<rparr>"
  have cfg: "effective_config ?v demo_cli (md_fs d) = Inr cfg"
    using assms(3) by (simp add: effective_config_def demo_start_env_def demo_cli_def config_file_def)
  have key: "load_or_generate (md_key d) True True True [] = (Inr \<lparr>signing_key = demo_key\<rparr>, Some demo_key)"
    using assms(6) by (simp add: load_or_generate_def demo_key_def)
  have paths: "se_path ?v (cf_share_root cfg) = [''C'', ''s'']" "se_path ?v (cf_inbox_root cfg) = [''C'', ''i'']"
    using assms(4,5) by (auto simp: demo_start_env_def)
  have ports: "bind_ports ?v (cf_http_port cfg) = Inr (cf_http_port cfg, cf_http_port cfg + 1)"
    using bind_preferred [of "\<lambda>_. True"] by (simp add: bind_ports_def demo_start_env_def)
  have opens: "\<exists>os. open_state (as_sys ?y) ?v cfg d = (Inr os, md_fs d)"
    using assms(1,7-9) unfolding open_state_def paths
    by (simp add: demo_start_env_def demo_admin_sys_def store_open_def no_file_def roots_stand_def)
  then obtain os where os: "open_state (as_sys ?y) ?v cfg d = (Inr os, md_fs d)" by blast
  obtain ok fs where w: "fs_write Done 0 [''C'', ''doclink-admin.port''] (show_nat (unat (cf_http_port cfg + 1))) (md_fs d) = (ok, fs)"
    by fastforce
  have roots: "data_roots ?v cfg fs = (Inr (\<lparr>sh_root = [''C'', ''s'']\<rparr>, \<lparr>ib_root = [''C'', ''i'']\<rparr>), fs)"
    using assms(2) w unfolding data_roots_def paths by (simp add: demo_start_env_def roots_stand_def)
  have v: "se_key_io ?v = (True, True, True)" "se_fresh_key ?v = []" "se_io ?v 2 = Done" "se_now ?v = 0"
    "se_cwd ?v @ [ADMIN_PORT_FILE] = [''C'', ''doclink-admin.port'']"
    by (simp_all add: demo_start_env_def ADMIN_PORT_FILE_def)
  have "daemon_start ?y ?v demo_cli d = (Inr (assemble ?y ?v demo_cli cfg \<lparr>signing_key = demo_key\<rparr> os
      (\<lparr>sh_root = [''C'', ''s'']\<rparr>, \<lparr>ib_root = [''C'', ''i'']\<rparr>) (cf_http_port cfg, cf_http_port cfg + 1) fs),
      d\<lparr>md_key := Some demo_key, md_fs := fs\<rparr>)"
    unfolding daemon_start_def cfg sum.case v Let_def prod.case key open_state_key os ports snd_conv w roots ..
  moreover have "port_file_written ?y ?v demo_cli d = fst (ok, fs)"
    unfolding port_file_written_def cfg sum.case os prod.case ports snd_conv v w ..
  ultimately show ?thesis unfolding w by (simp add: assemble_def node_new_def)
qed

lemma demo_first_start: "\<exists>a d'. daemon_start demo_admin_sys demo_start_env demo_cli demo_disk = (Inr a, d')
    \<and> ad_admin_port a = 37656 \<and> ad_data_port a = 37655 \<and> signing_key (nd_identity (ad_node a)) = demo_key
    \<and> port_file_written demo_admin_sys demo_start_env demo_cli demo_disk"
proof -
  have s: "demo_admin_sys\<lparr>as_toml := as_toml demo_admin_sys\<rparr> = demo_admin_sys"
    "demo_start_env\<lparr>se_parse := se_parse demo_start_env\<rparr> = demo_start_env" by simp_all
  show ?thesis
    using demo_starts [of demo_disk "config_default (\<lambda>_. None)" "se_parse demo_start_env" "as_toml demo_admin_sys"]
      demo_roots_stand(1,2) demo_config demo_writes(1)
    by (fastforce simp: demo_disk_def config_default_def default_http_port_def default_share_root_def
        default_inbox_root_def s)
qed

section \<open>Settings and a second start\<close>

definition demo_conf :: config where
  "demo_conf = \<lparr>cf_node_name = ''N'', cf_http_port = 37655, cf_share_root = ''Cs'', cf_inbox_root = ''Ci'',
     cf_inbox_max_size = 100, cf_advertise = False, cf_subnet_scan = False, cf_check_updates = True\<rparr>"

definition demo_ser :: "config \<Rightarrow> string + string" where
  "demo_ser c = (if c = demo_conf then Inr ''x'' else Inl [])"

definition demo_parse :: "string \<Rightarrow> toml_fields option" where
  "demo_parse t = (if t = ''x'' then Some (all_fields demo_conf) else None)"

lemma demo_toml_law: "toml_law demo_ser demo_parse"
proof -
  have "valid_utf8 ''x''" by code_simp
  then show ?thesis by (simp add: toml_law_def demo_ser_def demo_parse_def)
qed

lemma demo_settings: "\<exists>a' b d'. put_settings (demo_admin_sys\<lparr>as_toml := demo_ser\<rparr>) demo_admin_env False (Some True) (demo_admin [])
      = (Inr (False, True), a')
    \<and> daemon_start (demo_admin_sys\<lparr>as_toml := demo_ser\<rparr>) (demo_start_env\<lparr>se_parse := demo_parse\<rparr>) demo_cli
      (disk_of a' (Some demo_key)) = (Inr b, d')"
proof -
  let ?y = "demo_admin_sys\<lparr>as_toml := demo_ser\<rparr>" and ?p = "[''C'', ''doclink.toml'']"
  obtain fs where w: "fs_write Done 0 ?p ''x'' demo_fs = (True, fs)"
    using demo_writes(2) [of "''x''"] by (metis (full_types) prod.collapse)
  let ?a = "(demo_admin [])\<lparr>ad_check_updates := True, ad_node := (demo_node [])\<lparr>nd_fs := fs\<rparr>\<rparr>"
  have "snapshot_config ?y ((demo_admin [])\<lparr>ad_check_updates := True\<rparr>) = demo_conf"
    by (simp add: snapshot_config_def demo_admin_def demo_admin_sys_def demo_conf_def)
      (simp add: demo_node_def node_new_def)
  then have p: "put_settings ?y demo_admin_env False (Some True) (demo_admin []) = (Inr (False, True), ?a)"
    using w by (simp add: put_settings_def toggle_advertise_def persist_settings_def demo_ser_def demo_admin_env_def)
      (simp add: demo_admin_def)
  have fs: "md_fs (disk_of ?a (Some demo_key)) = fs" by (simp add: disk_of_def)
  have c: "config_load (\<lambda>_. None) demo_parse fs ?p = Inr demo_conf"
    by (rule load_after_write [OF demo_toml_law _ w]) (simp_all add: demo_ser_def demo_fs_def)
  have d: "md_key (disk_of ?a (Some demo_key)) = Some demo_key" "md_grants (disk_of ?a (Some demo_key)) = no_file"
    "md_contacts (disk_of ?a (Some demo_key)) = no_file" "md_print (disk_of ?a (Some demo_key)) = no_file"
    by (simp_all add: disk_of_def demo_store_def no_file_def) (simp add: demo_node_def node_new_def demo_store_def)
  have "\<exists>b d'. daemon_start ?y (demo_start_env\<lparr>se_parse := demo_parse\<rparr>) demo_cli (disk_of ?a (Some demo_key)) = (Inr b, d')"
    using demo_starts [of "disk_of ?a (Some demo_key)" demo_conf demo_parse demo_ser, unfolded fs] c d
      demo_roots_stand(3) [of "''x''"] demo_roots_stand(4) [of "show_nat 37656" "''x''"] w by (auto simp: demo_conf_def)
  then show ?thesis using p by blast
qed

section \<open>A poll of the window shell\<close>

definition demo_head :: "string list" where "demo_head = [''HTTP/1.1 200'']"

text \<open>A poller whose connection gives one answer, read as these events.\<close>

definition demo_poll :: "bytes \<Rightarrow> (string \<Rightarrow> daemon_event list option) \<Rightarrow> poll_env" where
  "demo_poll bs parse = \<lparr>pe_dir = None, pe_up = (\<lambda>_. True), pe_net = (\<lambda>_ _. Some bs), pe_parse = parse,
     pe_io = Done, pe_now = 0\<rparr>"

definition demo_poller :: "u64 \<Rightarrow> poller" where
  "demo_poller i = \<lparr>po_last = i, po_primed = True, po_prev_up = None\<rparr>"

lemma demo_head_ok: "demo_head \<noteq> []" "list_all head_line demo_head"
proof -
  have "valid_utf8 ''HTTP/1.1 200''" by (rule valid_ascii) auto
  then show "demo_head \<noteq> []" "list_all head_line demo_head" by (simp_all add: demo_head_def head_line_def)
qed

lemma demo_feeds: "feeds (demo_poll (http_head demo_head @ ''[]'') (\<lambda>_. Some (map shown_of (since i e)))) fs (demo_poller i) e"
proof -
  have "http_body (http_head demo_head @ ''[]'') = Body ''[]''"
  proof (rule http_body_plain [OF demo_head_ok])
    show "valid_utf8 ''[]''" by (rule valid_ascii) auto
    show "\<not> contains ''transfer-encoding: chunked'' (ascii_lowercase (http_head demo_head @ ''[]''))"
      by (simp add: demo_head_def http_head_def crlf_def ascii_lowercase_def lower_char_def)
  qed
  then show ?thesis by (simp add: feeds_def demo_poll_def demo_poller_def http_get_json_def Let_def)
qed

text \<open>A JSON writer that copies the plain titles.\<close>

definition demo_event_json :: "event list \<Rightarrow> string" where
  "demo_event_json evs = concat (map (\<lambda>ev. if plain_text (ev_title ev) then ev_title ev else []) evs)"

lemma plain_ascii: "plain_text s \<Longrightarrow> c \<in> set s \<Longrightarrow> byte_of c < 128 \<and> c \<noteq> CHR 0x0D"
proof -
  assume "plain_text s" "c \<in> set s"
  then have b: "32 \<le> byte_of c" "byte_of c < 127" unfolding plain_text_def list_all_iff by blast+
  have "byte_of (CHR 0x0D) = 13" by simp
  then show ?thesis using b by fastforce
qed

lemma demo_json_chars: "c \<in> set (demo_event_json evs) \<Longrightarrow> byte_of c < 128 \<and> c \<noteq> CHR 0x0D"
proof (induction evs)
  case (Cons ev evs)
  have j: "demo_event_json (ev # evs) = (if plain_text (ev_title ev) then ev_title ev else []) @ demo_event_json evs"
    by (simp add: demo_event_json_def)
  show ?case
  proof (cases "plain_text (ev_title ev) \<and> c \<in> set (ev_title ev)")
    case True
    then show ?thesis using plain_ascii by blast
  next
    case False
    then have "c \<in> set (demo_event_json evs)" using Cons.prems unfolding j by (auto split: if_splits)
    then show ?thesis by (rule Cons.IH)
  qed
qed (simp add: demo_event_json_def)

lemma demo_json_law: "json_law demo_event_json"
proof -
  have "valid_utf8 (demo_event_json evs)" for evs
    by (rule valid_ascii) (rule demo_json_chars [THEN conjunct1])
  moreover have "CHR 0x0D \<notin> set (demo_event_json evs)" for evs
    using demo_json_chars [of "CHR 0x0D" evs] by blast
  moreover have "contains (ev_title ev) (demo_event_json evs)" if ev: "ev \<in> set evs" "plain_text (ev_title ev)" for ev evs
  proof -
    obtain xs zs where "evs = xs @ ev # zs" using split_list [OF ev(1)] by blast
    then have "demo_event_json evs = demo_event_json xs @ ev_title ev @ demo_event_json zs"
      using ev(2) by (simp add: demo_event_json_def)
    then show ?thesis unfolding contains_append by blast
  qed
  ultimately show ?thesis unfolding json_law_def by blast
qed

text \<open>A peer that calls itself like the header of chunked framing.\<close>

definition marked_request :: pair_request where
  "marked_request = (let r = \<lparr>pr_node_id = node_id demo_ext demo_ident, pr_name = ''Transfer-Encoding: chunked'',
     pr_pubkey_hex = x_hex_encode demo_ext (verifying_key demo_ext demo_ident),
     pr_requested_duration_secs = 0, pr_signature = []\<rparr>
   in r\<lparr>pr_signature := x_hex_encode demo_ext (sign demo_ext demo_ident (canonical_request_string r))\<rparr>)"

definition marked_sys :: sys where
  "marked_sys = demo_sys\<lparr>sy_pair_request := (\<lambda>_. Some marked_request)\<rparr>"

lemma marked_fields: "pr_node_id marked_request = node_id demo_ext demo_ident" "pr_name marked_request = ''Transfer-Encoding: chunked''"
  "pr_pubkey_hex marked_request = x_hex_encode demo_ext (verifying_key demo_ext demo_ident)"
  by (simp_all add: marked_request_def Let_def)

lemma marked_verifies:
  "verify demo_ext (pr_pubkey_hex marked_request) (canonical_request_string marked_request) (pr_signature marked_request) = Inr ()"
proof -
  have "canonical_request_string marked_request = canonical_request_string (marked_request\<lparr>pr_signature := []\<rparr>)"
    by (simp add: canonical_request_string_def)
  then show ?thesis
    using verify_own [OF demo_hex_laws demo_sig_laws, of demo_ident "canonical_request_string marked_request"]
    by (simp add: marked_request_def Let_def canonical_request_string_def)
qed

lemma marked_asks: "\<exists>resp s'. pair_request_handler marked_sys demo_env [] ((demo_node [])\<lparr>nd_grants := demo_store []\<rparr>) = (Inr resp, s')
    \<and> ps_status resp = Pending"
  using marked_verifies fingerprint_of_own_pubkey [OF demo_hex_laws, of demo_ident]
  by (simp add: pair_request_handler_def marked_sys_def marked_fields admit_request_def admit_pending_def prune_pending_def
      find_grant_def pairing_default_def MAX_PENDING_def Let_def node_id_def)

lemma marked_name: "plain_text (pr_name marked_request)" "contains MARKER (ascii_lowercase (pr_name marked_request))"
  unfolding marked_fields by code_simp+

section \<open>Uploads at once, an update and a foreign page\<close>

definition demo_task :: "string \<Rightarrow> bytes \<Rightarrow> upload" where
  "demo_task nm b = \<lparr>ul_name = nm, ul_body = b, ul_meta = \<lparr>im_from = None, im_from_node_id = None, im_received_unix = None\<rparr>,
     ul_io = (\<lambda>_. Done), ul_now = 0, ul_pc = Choosing\<rparr>"

abbreviation no_meta :: inbox_meta where
  "no_meta \<equiv> \<lparr>im_from = None, im_from_node_id = None, im_received_unix = None\<rparr>"

lemma demo_tasks:
  "\<exists>fs'. together (demo_codec m0) \<lparr>ib_root = [''C'', ''i'']\<rparr> [demo_task ''f'' ''x'', demo_task ''f'' ''y''] demo_fs
      [(demo_task ''f'' ''x'')\<lparr>ul_pc := Stored ''f''\<rparr>, demo_task ''f'' ''y''] fs'"
proof -
  let ?u = "demo_task ''f'' ''x''" and ?r = "\<lparr>ib_root = [''C'', ''i'']\<rparr>"
  obtain fs' where w: "write_file (demo_codec m0) (ul_io ?u) (ul_now ?u) ?r (ul_name ?u) (ul_body ?u) (ul_meta ?u) demo_fs = (Inr ''f'', fs')"
    using demo_write [of m0 "ul_meta ?u"] by (metis demo_task_def upload.select_convs(1,2,4,5) prod.collapse)
  obtain pc where pc: "alone (demo_codec m0) ?r 4 (?u, demo_fs) = (?u\<lparr>ul_pc := pc\<rparr>, fs')" "answered pc = Some (Inr ''f'')"
    using upload_alone [OF _ w] by (auto simp: demo_task_def)
  have "pc = Stored ''f''" using pc(2) by (cases pc) auto
  then have "together (demo_codec m0) ?r [?u, demo_task ''f'' ''y''] demo_fs ([?u, demo_task ''f'' ''y''][0 := ?u\<lparr>ul_pc := Stored ''f''\<rparr>]) fs'"
    using pc(1) by (intro together_alone [OF together.started]) simp_all
  then show ?thesis by auto
qed

definition demo_package :: "(string \<times> bytes) list \<Rightarrow> download_env" where
  "demo_package files = \<lparr>dn_get = (\<lambda>_. Inr (200, ''OK'', Inr ''z'')), dn_write = (\<lambda>_. Inr ()), dn_unpack = (\<lambda>_. Some files),
     dn_spawn = Inr ()\<rparr>"

definition demo_found :: update_state where
  "demo_found = \<lparr>up_last_check_unix = Some 0, up_status = Some \<lparr>us_current = ''1.0.0'', us_latest = ''2.0.0'',
     us_prerelease = False, us_download_url = Some ''u'', us_msi_url = None, us_release_notes = None, us_published_at = None\<rparr>,
     up_checking = False, up_downloading = None, up_error = None, up_applied = False\<rparr>"

lemma demo_newer: "version_gt ''2.0.0'' ''1.0.0''"
proof -
  have d: "show_nat 0 = ''0''" "show_nat 1 = ''1''" "show_nat 2 = ''2''" by code_simp+
  then have "version_text 2 0 0 = ''2.0.0''" "version_text 1 0 0 = ''1.0.0''" by (simp_all add: version_text_def)
  then show ?thesis
    using parse_version_text(1) [of 2 0 0] parse_version_text(1) [of 1 0 0] by (simp add: version_gt_def u32_limit_def)
qed

definition demo_foreign :: owner_request where
  "demo_foreign = \<lparr>ow_method = ''DELETE'', ow_path = ''/v1/admin/grants/x'', ow_headers = (\<lambda>_. None)(''host'' := Some ''evil:37656''),
     ow_query = [], ow_body = []\<rparr>"

end
