(* ===== verification/Phases.thy ===== *)
theory Phases
  imports Admin
begin

text \<open>Sharing an item while the node is busy. @<share_item> of @<doclinkd/src/admin.rs> takes the lock of
  the grants twice, for a first look and for the change, and awaits the listing of one directory after the
  other in between: at each of these points other requests, the background loops and the user may run.
  Here it is a machine that takes one of its phases a step. Alone it does what @<share_item> does; with
  anything at all going on between its steps, it still gives the item to exactly the checked PCs, as long as
  some grant that covered the item called for the listings already when it looked.\<close>

section \<open>One request, phase by phase\<close>

datatype share_pc = Checking | Looking | Fetching "string list" "(string \<times> string list) list"
  | Shared "grant_info list" | Refused http_error

record share_task =
  si_path :: string
  si_fps :: "string list"
  si_pc :: share_pc

text \<open>A grant that is not checked and lets its PC see the item: what the first look is for.\<close>

definition to_narrow :: "string \<Rightarrow> string list \<Rightarrow> grant \<Rightarrow> bool" where
  "to_narrow path fps g \<longleftrightarrow> g_fingerprint g \<notin> set fps \<and> (g_paths g = [] \<or> covers_item path g)"

text \<open>The entries of one directory outside the item, empty where the listing fails.\<close>

definition survivors :: "ext \<Rightarrow> fsys \<Rightarrow> share_root \<Rightarrow> string \<Rightarrow> string \<Rightarrow> string list" where
  "survivors x fs r path dir = (case share_list x fs r dir of
       Inl _ \<Rightarrow> []
     | Inr es \<Rightarrow> map de_path (filter (\<lambda>e. \<not> (de_path e = path \<or> within (de_path e) path)) es))"

definition share_step :: "admin_sys \<Rightarrow> env \<Rightarrow> share_task \<Rightarrow> node \<Rightarrow> share_task \<times> node" where
  "share_step y n t s = (case si_pc t of
     Checking \<Rightarrow> (t\<lparr>si_pc := (if si_path t = [] then Refused (err BAD_REQUEST ''path must not be the share root'')
       else (case resolve (nd_fs s) (nd_share s) (si_path t) of Inl e \<Rightarrow> Refused (share_err e) | Inr _ \<Rightarrow> Looking))\<rparr>, s)
   | Looking \<Rightarrow> (t\<lparr>si_pc := Fetching (if list_ex (to_narrow (si_path t) (si_fps t)) (grants_of s)
       then scope_dirs (si_path t) else []) []\<rparr>, s)
   | Fetching (d # ds) got \<Rightarrow> (t\<lparr>si_pc := Fetching ds
       (AList.update d (survivors (sy_x (as_sys y)) (nd_fs s) (nd_share s) (si_path t) d) got)\<rparr>, s)
   | Fetching [] got \<Rightarrow> (let
       gs = map (share_on_grant got (si_path t) (si_fps t)) (grants_of s);
       (ok, s') = save_grants y n gs s
     in (t\<lparr>si_pc := (if ok then Shared (map to_grant_info gs) else Refused save_failed)\<rparr>, s'))
   | _ \<Rightarrow> (t, s))"

fun share_answer :: "share_pc \<Rightarrow> (http_error + grant_info list) option" where
  "share_answer (Shared infos) = Some (Inr infos)"
| "share_answer (Refused e) = Some (Inl e)"
| "share_answer _ = None"

fun share_steps :: "admin_sys \<Rightarrow> env \<Rightarrow> nat \<Rightarrow> share_task \<times> node \<Rightarrow> share_task \<times> node" where
  "share_steps y n 0 c = c"
| "share_steps y n (Suc k) c = share_steps y n k (share_step y n (fst c) (snd c))"

text \<open>With others: between two steps the node may become any node with a well-formed disk.\<close>

definition disk_ok :: "node \<Rightarrow> bool" where
  "disk_ok s \<longleftrightarrow> fs_ok (nd_fs s) \<and> names_ok (nd_fs s)"

inductive amid :: "admin_sys \<Rightarrow> env \<Rightarrow> share_task \<times> node \<Rightarrow> share_task \<times> node \<Rightarrow> bool" for y n where
  here: "amid y n c c"
| own: "amid y n c (t, s) \<Longrightarrow> amid y n c (share_step y n t s)"
| other: "amid y n c (t, s) \<Longrightarrow> disk_ok s' \<Longrightarrow> amid y n c (t, s')"

section \<open>Alone\<close>

lemma fetching_steps:
  assumes "si_pc t = Fetching ds got"
  shows "share_steps y n (length ds) (t, s) = (t\<lparr>si_pc := Fetching []
    (foldl (\<lambda>g d. AList.update d (survivors (sy_x (as_sys y)) (nd_fs s) (nd_share s) (si_path t) d) g) got ds)\<rparr>, s)"
  using assms
proof (induction ds arbitrary: t got)
  case (Cons d ds)
  show ?case using Cons.IH [of "t\<lparr>si_pc := Fetching ds (AList.update d
    (survivors (sy_x (as_sys y)) (nd_fs s) (nd_share s) (si_path t) d) got)\<rparr>"] Cons.prems by (simp add: share_step_def)
qed simp

lemma updated_all: "map_of (foldl (\<lambda>g d. AList.update d (f d) g) got ds) d
    = (if d \<in> set ds then Some (f d) else map_of got d)"
  by (induction ds arbitrary: got) (auto simp: update_conv)

lemma fetched_survivors: "fetch_listings x fs r path = map (\<lambda>d. (d, survivors x fs r path d)) (scope_dirs path)"
  by (simp add: fetch_listings_def survivors_def)

lemma share_on_grant_cong: "map_of c = map_of c' \<Longrightarrow> share_on_grant c path fps g = share_on_grant c' path fps g"
  by (simp add: share_on_grant_def)

lemma share_steps_add: "share_steps y n (i + j) c = share_steps y n j (share_steps y n i c)"
  by (induction i arbitrary: c) simp_all

text \<open>How many steps a request takes on a node where nothing else happens.\<close>

definition phases_of :: "string \<Rightarrow> string list \<Rightarrow> node \<Rightarrow> nat" where
  "phases_of path fps s = 3 + (if list_ex (to_narrow path fps) (grants_of s) then length (scope_dirs path) else 0)"

lemma share_answered: "share_answer (si_pc t) \<noteq> None \<Longrightarrow> share_steps y n k (t, s) = (t, s)"
  by (induction k) (auto simp: share_step_def split: share_pc.splits)

lemma share_alone:
  assumes "si_pc t = Checking" "share_item y n (si_path t) (si_fps t) s = (r, s')"
  shows "\<exists>pc. share_steps y n (phases_of (si_path t) (si_fps t) s) (t, s) = (t\<lparr>si_pc := pc\<rparr>, s')
    \<and> share_answer pc = Some r"
proof -
  let ?p = "si_path t" and ?f = "si_fps t" and ?x = "sy_x (as_sys y)"
  define look where "look = list_ex (to_narrow ?p ?f) (grants_of s)"
  define ds where "ds = (if look then scope_dirs ?p else [])"
  have k: "phases_of ?p ?f s = Suc (Suc (length ds + 1))" by (simp add: phases_of_def look_def ds_def)
  show ?thesis
  proof (cases "?p = [] \<or> (\<exists>e. resolve (nd_fs s) (nd_share s) ?p = Inl e)")
    case True
    then obtain e where e: "share_step y n t s = (t\<lparr>si_pc := Refused e\<rparr>, s)" "r = Inl e" "s' = s"
      using assms by (cases "?p = []") (auto simp: share_step_def share_item_def)
    have "share_steps y n (phases_of ?p ?f s) (t, s) = (t\<lparr>si_pc := Refused e\<rparr>, s)"
      unfolding k by (simp only: share_steps.simps(2) fst_conv snd_conv e(1)) (simp add: share_answered share_step_def)
    then show ?thesis using e(2,3) by (intro exI [of _ "Refused e"]) simp
  next
    case False
    then obtain q where q: "?p \<noteq> []" "resolve (nd_fs s) (nd_share s) ?p = Inr q"
      by (cases "resolve (nd_fs s) (nd_share s) ?p") auto
    define got where "got = foldl (\<lambda>g d. AList.update d (survivors ?x (nd_fs s) (nd_share s) ?p d) g) [] ds"
    have two: "share_steps y n (Suc (Suc j)) (t, s) = share_steps y n j (t\<lparr>si_pc := Fetching ds []\<rparr>, s)" for j
      using q assms(1) by (simp add: share_step_def ds_def look_def)
    have run: "share_steps y n (phases_of ?p ?f s) (t, s) = share_step y n (t\<lparr>si_pc := Fetching [] got\<rparr>) s"
      unfolding k two share_steps_add using fetching_steps [of "t\<lparr>si_pc := Fetching ds []\<rparr>" ds "[]" y n s]
      by (simp add: got_def)
    have "map_of got = map_of (if look then fetch_listings ?x (nd_fs s) (nd_share s) ?p else [])"
      unfolding got_def by (rule ext) (simp add: updated_all ds_def fetched_survivors map_of_map_restrict restrict_map_def)
    then have gs: "map (share_on_grant got ?p ?f) (grants_of s)
        = map (share_on_grant (if look then fetch_listings ?x (nd_fs s) (nd_share s) ?p else []) ?p ?f) (grants_of s)"
      by (intro map_cong refl) (rule share_on_grant_cong)
    have l: "look = list_ex (\<lambda>g. g_fingerprint g \<notin> set ?f \<and> (g_paths g = [] \<or> covers_item ?p g)) (grants_of s)"
      unfolding look_def to_narrow_def ..
    obtain ok s1 where sv: "save_grants y n (map (share_on_grant got ?p ?f) (grants_of s)) s = (ok, s1)" by force
    define gs where "gs = map (share_on_grant got ?p ?f) (grants_of s)"
    define out where "out = (if ok then Inr (map to_grant_info gs) else Inl save_failed)"
    have "share_item y n ?p ?f s = (out, s1)"
      using q sv [folded gs_def] gs [folded gs_def] unfolding share_item_def l out_def by (simp add: Let_def)
    then have o: "r = out" "s' = s1" using assms(2) by simp_all
    have "share_step y n (t\<lparr>si_pc := Fetching [] got\<rparr>) s = (t\<lparr>si_pc := (if ok
        then Shared (map to_grant_info gs) else Refused save_failed)\<rparr>, s1)"
      using sv by (simp add: share_step_def gs_def)
    moreover have "share_answer (if ok then Shared (map to_grant_info gs) else Refused save_failed) = Some out"
      by (simp add: out_def)
    ultimately show ?thesis unfolding run o by blast
  qed
qed

section \<open>Amid anything else\<close>

text \<open>What the listings that were fetched so far have in common, whatever the disk was when each was read:
  their entries lie below their directory, and none of the directories on the way is missing that no longer
  waits.\<close>

definition fetched_ok :: "string \<Rightarrow> string list \<Rightarrow> (string \<times> string list) list \<Rightarrow> bool" where
  "fetched_ok path ds got \<longleftrightarrow> listing_grows (map_of got) \<and> listing_below (map_of got)
     \<and> (\<forall>d. d \<in> set (scope_dirs path) \<longrightarrow> d \<in> set ds \<or> map_of got d \<noteq> None)"

lemma survivors_below:
  assumes "disk_ok s" "k \<in> set (survivors x (nd_fs s) r path d)"
  shows "length d < length k \<and> (d = [] \<or> within k d)"
proof -
  obtain es e where es: "share_list x (nd_fs s) r d = Inr es" "e \<in> set es" "k = de_path e"
    using assms(2) by (cases "share_list x (nd_fs s) r d") (auto simp: survivors_def)
  have "fs_ok (nd_fs s)" "names_ok (nd_fs s)" using assms(1) by (simp_all add: disk_ok_def)
  from listed_path [OF this es(1,2)] show ?thesis using es(3) by (auto simp: within_iff)
qed

lemma fetched_ok_update:
  assumes "fetched_ok path (d # ds) got" "disk_ok s"
  shows "fetched_ok path ds (AList.update d (survivors x (nd_fs s) r path d) got)"
  using assms(1) survivors_below [OF assms(2)]
  unfolding fetched_ok_def listing_grows_def listing_below_def by (auto simp: update_conv split: if_splits)

text \<open>What a request can count on once it has looked, whatever goes on around it: @<L> tells whether
  the look found a grant to narrow.\<close>

definition fetching_ok :: "share_task \<Rightarrow> bool \<Rightarrow> share_task \<Rightarrow> bool" where
  "fetching_ok t0 look t \<longleftrightarrow> si_path t = si_path t0 \<and> si_fps t = si_fps t0 \<and> (case si_pc t of
     Fetching ds got \<Rightarrow> if look then fetched_ok (si_path t0) ds got else ds = [] \<and> got = []
   | Shared _ \<Rightarrow> True | Refused _ \<Rightarrow> True | _ \<Rightarrow> False)"

lemma fetching_ok_step:
  assumes "fetching_ok t0 look t" "disk_ok s"
  shows "fetching_ok t0 look (fst (share_step y n t s))"
proof (cases "si_pc t")
  case (Fetching ds got)
  show ?thesis
  proof (cases ds)
    case (Cons d ds')
    then show ?thesis using assms Fetching fetched_ok_update [of "si_path t0" d ds' got s "sy_x (as_sys y)" "nd_share s"]
      by (auto simp: fetching_ok_def share_step_def split: if_splits)
  qed (use assms Fetching in \<open>auto simp: fetching_ok_def share_step_def Let_def case_prod_beta\<close>)
qed (use assms in \<open>auto simp: fetching_ok_def share_step_def\<close>)

lemma share_step_disk: "nd_fs (snd (share_step y n t s)) = nd_fs s" "nd_share (snd (share_step y n t s)) = nd_share s"
  by (auto simp: share_step_def Let_def case_prod_beta split: share_pc.splits list.splits)

lemma amid_fetching:
  assumes "amid y n c c'" "fetching_ok t0 look (fst c)" "disk_ok (snd c)"
  shows "fetching_ok t0 look (fst c') \<and> disk_ok (snd c')"
  using assms
proof induction
  case (own c t s)
  then show ?case using fetching_ok_step [of t0 look t s y n] share_step_disk [of y n t s] by (simp add: disk_ok_def)
qed simp_all

lemma looked:
  assumes "si_pc t = Looking"
  shows "fetching_ok (fst (share_step y n t s)) (list_ex (to_narrow (si_path t) (si_fps t)) (grants_of s))
    (fst (share_step y n t s))"
  using assms by (simp add: share_step_def fetching_ok_def fetched_ok_def listing_grows_def listing_below_def)

lemma share_on_grant_narrowed:
  assumes "to_narrow path fps g" "fetched_ok path [] got"
    and p: "path \<noteq> []" "last path \<noteq> CHR ''/''" "CHR 0x00 \<notin> set path"
  shows "\<not> can_read_file (g_paths (share_on_grant got path fps g)) path"
proof -
  have g: "g_fingerprint g \<notin> set fps" "g_paths g = [] \<or> covers_item path g" using assms(1) by (simp_all add: to_narrow_def)
  have way: "map_of got d \<noteq> None" if "d = [] \<or> within path d" for d
  proof -
    have "d \<in> set (scope_dirs path)" using that p by (fastforce simp: scope_dirs_iff within_iff)
    then show ?thesis using assms(2) by (auto simp: fetched_ok_def)
  qed
  have "subtract_from_scope (g_paths g) path (map_of got) \<noteq> None"
    using assms(2) g(2) by (intro subtract_total way) (simp_all add: fetched_ok_def covers_item_def)
  then obtain out where o: "subtract_from_scope (g_paths g) path (map_of got) = Some out" by blast
  then show ?thesis using subtract_not_covered [OF o] no_access_unrelated [OF p(3)] g(1)
    by (simp add: share_on_grant_def)
qed

lemma share_on_grant_not_covering:
  assumes "g_fingerprint g \<notin> set fps" "\<not> to_narrow path fps g"
  shows "\<not> can_read_file (g_paths (share_on_grant got path fps g)) path"
proof -
  have g: "g_paths g \<noteq> []" "\<not> covers_item path g" using assms by (auto simp: to_narrow_def)
  then have "\<not> list_ex (\<lambda>p. p = path \<or> (p \<noteq> [] \<and> within path p)) (g_paths g)"
    by (auto simp: covers_item_def list_ex_iff)
  then have "subtract_from_scope (g_paths g) path (map_of got) = None"
    using g(1) unfolding subtract_from_scope_def Let_def by (simp only: if_True if_False simp_thms option.map)
  then have "share_on_grant got path fps g = g" using assms(1) by (simp add: share_on_grant_def)
  then show ?thesis using g by (simp add: covers_item_read)
qed

text \<open>After the last step exactly the checked PCs read the item.\<close>

lemma share_amid_exact:
  assumes "si_pc t = Looking" "disk_ok s" "amid y n (share_step y n t s) (t1, s1)"
    and "si_pc t1 = Fetching [] got" "share_step y n t1 s1 = (t2, s2)"
    and p: "si_path t \<noteq> []" "last (si_path t) \<noteq> CHR ''/''" "CHR 0x00 \<notin> set (si_path t)"
    and look: "list_ex (to_narrow (si_path t) (si_fps t)) (grants_of s1)
      \<Longrightarrow> list_ex (to_narrow (si_path t) (si_fps t)) (grants_of s)"
    and g: "g \<in> set (grants_of s2)"
  shows "can_read_file (g_paths g) (si_path t) \<longleftrightarrow> g_fingerprint g \<in> set (si_fps t)"
proof -
  let ?look = "list_ex (to_narrow (si_path t) (si_fps t)) (grants_of s)"
  have t0: "si_path (fst (share_step y n t s)) = si_path t" "si_fps (fst (share_step y n t s)) = si_fps t"
    using assms(1) by (simp_all add: share_step_def)
  from amid_fetching [OF assms(3) looked [OF assms(1)]]
  have f: "fetching_ok (fst (share_step y n t s)) ?look t1" using assms(2) share_step_disk(1) [of y n t s] by (simp add: disk_ok_def)
  then have t1: "si_path t1 = si_path t" "si_fps t1 = si_fps t" "?look \<Longrightarrow> fetched_ok (si_path t) [] got"
    using assms(4) t0 by (simp_all add: fetching_ok_def)
  have "grants_of s2 = map (share_on_grant got (si_path t) (si_fps t)) (grants_of s1)"
    using assms(4,5) t1(1,2) save_grants_simps(1) [of y n "map (share_on_grant got (si_path t) (si_fps t)) (grants_of s1)" s1]
    by (auto simp: share_step_def Let_def case_prod_beta)
  then obtain h where h: "h \<in> set (grants_of s1)" "g = share_on_grant got (si_path t) (si_fps t) h" using g by auto
  show ?thesis
  proof (cases "g_fingerprint h \<in> set (si_fps t)")
    case False
    have "\<not> can_read_file (g_paths g) (si_path t)"
    proof (cases "to_narrow (si_path t) (si_fps t) h")
      case True
      then have ?look using look h(1) by (auto simp: list_ex_iff)
      then show ?thesis unfolding h(2) using share_on_grant_narrowed [OF True t1(3) p] by blast
    qed (use share_on_grant_not_covering [OF False] h(2) in blast)
    then show ?thesis using False h(2) by simp
  qed (use share_on_grant_wanted [of h "si_fps t" got "si_path t" "si_path t"] h(2) in simp)
qed

text \<open>The proviso is needed: when the look found nothing to narrow, no directory was listed, and a grant that
  was widened to the whole share in between is left as it is, checked or not.\<close>

lemma widened_meanwhile:
  assumes "si_pc t = Fetching [] []" "g \<in> set (grants_of s)" "g_paths g = []" "g_fingerprint g \<notin> set (si_fps t)"
  shows "g \<in> set (grants_of (snd (share_step y n t s)))" "can_read_file (g_paths g) (si_path t)"
proof -
  have "share_on_grant [] (si_path t) (si_fps t) g = g"
    using assms(3,4) by (simp add: share_on_grant_def subtract_from_scope_def Let_def)
  then have "g \<in> set (map (share_on_grant [] (si_path t) (si_fps t)) (grants_of s))" using assms(2) by (metis image_eqI image_set)
  then show "g \<in> set (grants_of (snd (share_step y n t s)))"
    using assms(1) by (simp add: share_step_def Let_def case_prod_beta)
  show "can_read_file (g_paths g) (si_path t)" using assms(3) by (simp add: can_read_file_def)
qed

end
