(* ===== verification/Covered.thy ===== *)
theory Covered
  imports DataPlane
begin

text \<open>What a signature covers, and for how long. The signed string of @<doclink-core/src/identity.rs> and
  @<doclinkd/src/auth.rs> fixes every field of a request but the body, of which it takes the lossy reading as
  text; and a signature is remembered for as long as its time stamp may be off, counted from its use and not
  from its time stamp.\<close>

section \<open>The body\<close>

lemma canonical_lossy:
  "from_utf8_lossy b = from_utf8_lossy b' \<Longrightarrow> request_canonical m p t c b = request_canonical m p t c b'"
  by (simp add: request_canonical_def)

lemma canonical_iff:
  assumes "nl \<notin> set m" "nl \<notin> set m'" "nl \<notin> set p" "nl \<notin> set p'" "nl \<notin> set t" "nl \<notin> set t'" "nl \<notin> set c" "nl \<notin> set c'"
  shows "request_canonical m p t c b = request_canonical m' p' t' c' b'
    \<longleftrightarrow> m = m' \<and> p = p' \<and> t = t' \<and> c = c' \<and> from_utf8_lossy b = from_utf8_lossy b'"
proof
  assume "request_canonical m p t c b = request_canonical m' p' t' c' b'"
  from request_canonical_inj [OF this assms]
  show "m = m' \<and> p = p' \<and> t = t' \<and> c = c' \<and> from_utf8_lossy b = from_utf8_lossy b'" .
qed (auto intro: canonical_lossy)

lemma verify_headers_lossy:
  assumes "from_utf8_lossy b = from_utf8_lossy b'"
  shows "verify_signed_headers x now h m p b = verify_signed_headers x now h m p b'"
  unfolding verify_signed_headers_def canonical_lossy [OF assms] ..

lemma require_auth_lossy:
  assumes "from_utf8_lossy b = from_utf8_lossy b'"
  shows "require_auth x clk h m p b s = require_auth x clk h m p b' s"
  using verify_headers_lossy [OF assms] by (simp add: require_auth_def)

lemma authenticated_lossy:
  assumes "from_utf8_lossy b = from_utf8_lossy b'"
  shows "authenticated y n h m p b s g = authenticated y n h m p b' s g"
  unfolding authenticated_def canonical_lossy [OF assms] ..

text \<open>Below characters that are whole, every byte that is none on its own reads the same.\<close>

lemma lossy_bad_byte:
  assumes "valid_utf8 a" "utf8_width (byte_of c) = 0"
  shows "from_utf8_lossy (a @ [c]) = a @ replacement"
  using lossy_append_valid [OF assms(1), of "[c]"] assms(2) lossy_step [of "[c]"] by simp

text \<open>So the content of an upload can be changed under way and is accepted under the signature of the
  original.\<close>

lemma altered_upload:
  assumes "upload_handler y n h raw b s = (Inr r, s')" "from_utf8_lossy b = from_utf8_lossy b'" "length b = length b'"
    and "\<And>m. \<exists>nm fs. write_file (sy_meta y) (en_io n) (en_clk n 4) (nd_inbox s) (trim raw) b' m (nd_fs s) = (Inr nm, fs)"
  shows "\<exists>r' s''. upload_handler y n h raw b' s = (Inr r', s'')"
proof -
  let ?pq = "upload_path_q (sy_x y) (trim raw)"
  obtain g s1 where a: "valid_name (trim raw)" "require_auth (sy_x y) (en_clk n) h ''POST'' ?pq b s = (Inr g, s1)"
      "g_allow_files g" "\<not> nd_inbox_max s1 < of_nat (length b)"
    using assms(1) unfolding upload_handler_def Let_def with_grant_def
    by (auto split: if_splits sum.splits prod.splits)
  then have a': "require_auth (sy_x y) (en_clk n) h ''POST'' ?pq b' s = (Inr g, s1)"
    using require_auth_lossy [OF assms(2)] by simp
  have s1: "nd_inbox s1 = nd_inbox s" "nd_fs s1 = nd_fs s"
    using require_auth_state [of "sy_x y" "en_clk n" h "''POST''" ?pq b s] a(2) by auto
  obtain nm fs where "write_file (sy_meta y) (en_io n) (en_clk n 4) (nd_inbox s) (trim raw) b'
      \<lparr>im_from = Some (g_name g), im_from_node_id = Some (g_node_id g), im_received_unix = Some (en_clk n 3)\<rparr> (nd_fs s)
      = (Inr nm, fs)" using assms(4) by blast
  then show ?thesis using a a' s1 assms(3) by (simp add: upload_handler_def with_grant_def Let_def)
qed

section \<open>The time\<close>

lemma sat_sub_aged: "unat t + unat ttl < unat now \<Longrightarrow> \<not> sat_sub now t \<le> ttl"
  by (simp add: sat_sub_le)

lemma late_replay:
  assumes "require_auth x clk h m p b s = (Inr g, s1)" "distinct (map fst (nd_seen s))"
    and "h ''x-doclink-ts'' = Some ts" "parse_u64 ts = Some t"
    and "unat (clk 1) + unat MAX_SKEW_SECS < unat (clk' 1)" "abs_diff (clk' 0) t \<le> MAX_SKEW_SECS" "grant_live (clk' 2) g"
  shows "fst (require_auth x clk' h m p b s1) = Inr g"
proof -
  obtain nid pk sg where v: "verify_signed_headers x (clk 0) h m p b = Inr (nid, pk, sg)"
      "fst (reject_replays (clk 1) sg (nd_seen s)) = Inr ()"
      "check_grant x (clk 2) (nd_pairing s) (grants_of s) nid pk = Inr g"
      "s1 = s\<lparr>nd_seen := snd (reject_replays (clk 1) sg (nd_seen s))\<rparr>"
    using require_auth_Inr [OF assms(1)] .
  have "verify_signed_headers x (clk' 0) h m p b = Inr (nid, pk, sg)"
    using v(1) assms(3,4,6) by (auto simp: verify_headers_Inr)
  moreover have "map_of (purge_seen (clk' 1) (nd_seen s1)) sg = None"
    using seen.forgotten accepted_stamped [OF v(2) assms(2)] sat_sub_aged [OF assms(5)] v(4) by simp
  moreover have "check_grant x (clk' 2) (nd_pairing s1) (grants_of s1) nid pk = Inr g"
    using v(3,4) assms(7) by (simp add: check_grant_Inr)
  ultimately show ?thesis
    by (simp add: require_auth_def reject_replays_def Let_def)
qed

end
