(* ===== verification/Discover.thy ===== *)
theory Discover
  imports Startup Upkeep
begin

text \<open>Discovery as a whole, @<doclink-core/src/discovery.rs>: the loop of the browser over the batches of
  mDNS events it finds at each wake, the two ways to advertise, the goodbye, and what a registry knows after
  any number of batches. The mDNS daemon and the network are arguments: whether the daemon comes up, whether
  it takes a registration, and which events it hands over.\<close>

section \<open>Advertising and hiding\<close>

definition start_advertiser :: "bool \<Rightarrow> (service \<Rightarrow> bool) \<Rightarrow> ipv4 option \<Rightarrow> string \<Rightarrow> string \<Rightarrow> u16 \<Rightarrow> service option" where
  "start_advertiser daemon_up register ip nid name port = (if \<not> daemon_up then None
     else (case service_info_for ip nid name port of
       None \<Rightarrow> None
     | Some svc \<Rightarrow> if register svc then Some svc else None))"

text \<open>The name whose goodbye goes out.\<close>

definition stop_advertising :: "string \<Rightarrow> string" where
  "stop_advertising nid = full_instance_name nid"

section \<open>The browser\<close>

text \<open>At a wake the loop takes every event that waits, each with its own reading of the clock.\<close>

definition browse_batch :: "string \<Rightarrow> (u64 \<times> mdns_event) list \<Rightarrow> registry \<Rightarrow> registry" where
  "browse_batch self_id = fold (\<lambda>(now, ev). browser_event now self_id ev)"

definition run_browser :: "bool \<Rightarrow> bool \<Rightarrow> string \<Rightarrow> (u64 \<times> mdns_event) list wake list \<Rightarrow> registry \<Rightarrow> registry \<times> bool" where
  "run_browser daemon_up browsing self_id es r = (if \<not> daemon_up \<or> \<not> browsing then (r, True)
     else background (browse_batch self_id) es r)"

section \<open>The last word about a PC\<close>

definition heard :: "u64 \<Rightarrow> string \<Rightarrow> service_info \<Rightarrow> peer option" where
  "heard now nid si = map_option (\<lambda>a. \<lparr>p_node_id = nid, p_name = si_fullname si, p_addr = a,
     p_http_port = (case si_http_port si of None \<Rightarrow> 37655
       | Some v \<Rightarrow> (case parse_uint (2 ^ 16) v of None \<Rightarrow> 37655 | Some n \<Rightarrow> of_nat n)),
     p_fingerprint = [], p_last_seen_unix = now\<rparr>) (pick_addr (si_addresses si))"

text \<open>What an event says about one PC: nothing, that it is there with what it announced, or that it left.\<close>

fun word_about :: "string \<Rightarrow> string \<Rightarrow> u64 \<times> mdns_event \<Rightarrow> peer option option" where
  "word_about self_id nid (now, ServiceRemoved full) =
     (if map_option (\<lambda>rest. hd (split_on (CHR ''.'') rest)) (strip_prefix ''doclink-'' full) = Some nid then Some None else None)"
| "word_about self_id nid (now, ServiceResolved si) =
     (if si_node_id si = Some nid \<and> nid \<noteq> self_id then map_option Some (heard now nid si) else None)"
| "word_about self_id nid (now, _) = None"

definition last_word :: "string \<Rightarrow> string \<Rightarrow> (u64 \<times> mdns_event) list \<Rightarrow> peer option \<Rightarrow> peer option" where
  "last_word self_id nid = fold (\<lambda>e w. case word_about self_id nid e of None \<Rightarrow> w | Some v \<Rightarrow> v)"

lemma browser_event_lookup:
  assumes "registry_ok r"
  shows "map_of (browser_event now self_id ev r) nid
    = (case word_about self_id nid (now, ev) of None \<Rightarrow> map_of r nid | Some w \<Rightarrow> w)"
proof (cases ev)
  case (ServiceRemoved full)
  then show ?thesis by (cases "strip_prefix ''doclink-'' full")
      (auto simp: browser_event_def registry_remove_def delete_conv')
next
  case (ServiceResolved si)
  then show ?thesis
    by (cases "si_node_id si"; cases "pick_addr (si_addresses si)")
      (auto simp: browser_event_def registry_upsert_def heard_def update_conv Let_def)
qed (simp_all add: browser_event_def)

lemma batch_lookup:
  assumes "registry_ok r"
  shows "map_of (browse_batch self_id evs r) nid = last_word self_id nid evs (map_of r nid)
    \<and> registry_ok (browse_batch self_id evs r)"
  using assms
proof (induction evs arbitrary: r)
  case (Cons e evs)
  obtain now ev where e: "e = (now, ev)" by force
  show ?case using Cons.IH [OF registry_ok_event [OF Cons.prems, of now self_id ev]] browser_event_lookup [OF Cons.prems, of now self_id ev nid]
    by (simp add: browse_batch_def last_word_def e)
qed (simp add: browse_batch_def last_word_def)

lemma batches_join: "fold (browse_batch self_id) bs r = browse_batch self_id (concat bs) r"
  by (induction bs arbitrary: r) (simp_all add: browse_batch_def)

text \<open>The registry holds, PC by PC, the last word about it.\<close>

lemma run_browser_lookup:
  assumes "registry_ok r"
  shows "map_of (fst (run_browser True True self_id es r)) nid
      = last_word self_id nid (concat (before_stop es)) (map_of r nid)"
    and "registry_ok (fst (run_browser True True self_id es r))"
  using batch_lookup [OF assms] by (simp_all add: run_browser_def background_fold batches_join)

lemma last_word_append: "last_word self_id nid (xs @ ys) w = last_word self_id nid ys (last_word self_id nid xs w)"
  by (simp add: last_word_def)

lemma last_word_silent: "list_all (\<lambda>e. word_about self_id nid e = None) xs \<Longrightarrow> last_word self_id nid xs w = w"
  by (induction xs arbitrary: w) (simp_all add: last_word_def)

lemma last_word_own: "last_word self_id self_id evs None = None"
proof -
  have "word_about self_id self_id e \<in> {None, Some None}" for e
    by (cases "(self_id, self_id, e)" rule: word_about.cases) auto
  then have step: "(case word_about self_id self_id e of None \<Rightarrow> None | Some v \<Rightarrow> v) = None" for e
    by (metis insertE option.case(1,2) singletonD)
  show ?thesis by (induction evs) (simp_all add: last_word_def step)
qed

lemma goodbye_word:
  assumes "CHR ''.'' \<notin> set nid"
  shows "word_about self_id nid (now, ServiceRemoved (stop_advertising nid)) = Some None"
proof -
  have "strip_prefix ''doclink-'' (full_instance_name nid) = Some (nid @ CHR ''.'' # MDNS_SERVICE_TYPE)"
    by (simp add: strip_prefix_def full_instance_name_def)
  then show ?thesis using split_on_append [OF assms] by (simp add: stop_advertising_def)
qed

lemma announced_word:
  assumes "start_advertiser up register ip nid name port = Some svc" "nid \<noteq> self_id"
  shows "word_about self_id nid (now, ServiceResolved (resolved svc full))
    = Some (Some \<lparr>p_node_id = nid, p_name = full, p_addr = sv_ip svc, p_http_port = port, p_fingerprint = [],
        p_last_seen_unix = now\<rparr>)"
proof -
  have s: "service_info_for ip nid name port = Some svc"
    using assms(1) by (auto simp: start_advertiser_def split: if_splits option.splits)
  have "map_of (browser_event now self_id (ServiceResolved (resolved svc full)) []) nid
      = Some \<lparr>p_node_id = nid, p_name = full, p_addr = sv_ip svc, p_http_port = port, p_fingerprint = [],
        p_last_seen_unix = now\<rparr>" by (rule advertised_found [OF s assms(2)])
  then have "(case word_about self_id nid (now, ServiceResolved (resolved svc full)) of None \<Rightarrow> map_of [] nid | Some w \<Rightarrow> w)
      = Some \<lparr>p_node_id = nid, p_name = full, p_addr = sv_ip svc, p_http_port = port, p_fingerprint = [],
        p_last_seen_unix = now\<rparr>"
    by (subst (asm) browser_event_lookup) (simp_all add: registry_ok_def del: word_about.simps)
  then show ?thesis
    by (cases "word_about self_id nid (now, ServiceResolved (resolved svc full))") (simp_all del: word_about.simps)
qed

text \<open>A reader of the registry sees a PC for as long as its last announcement is fresh.\<close>

lemma seen_while_fresh:
  assumes "registry_ok r" "map_of r nid = w"
  shows "(\<exists>p \<in> set (fst (registry_snapshot now r)). p_node_id p = nid)
    \<longleftrightarrow> (case w of None \<Rightarrow> False | Some p \<Rightarrow> peer_fresh now p)"
proof -
  have k: "map_of r nid = Some p \<Longrightarrow> p_node_id p = nid" for p
    using assms(1) by (auto simp: registry_ok_def list_all_iff dest!: map_of_SomeD)
  have "(\<exists>p \<in> set (fst (registry_snapshot now r)). p_node_id p = nid)
      \<longleftrightarrow> (\<exists>p. map_of r nid = Some p \<and> peer_fresh now p)"
    using snapshot_iff [OF assms(1)] k by metis
  then show ?thesis using assms(2) by (simp split: option.split)
qed

text \<open>What the browser knows of a PC after its announcement, and after its goodbye, when nothing else is said
  about it afterwards.\<close>

lemma browser_after:
  assumes "concat (before_stop es) = xs @ [e] @ ys" "word_about self_id nid e = Some w"
    "list_all (\<lambda>e. word_about self_id nid e = None) ys"
  shows "map_of (fst (run_browser True True self_id es [])) nid = w"
proof -
  have "registry_ok []" by (simp add: registry_ok_def)
  moreover have "last_word self_id nid [e] v = w" for v using assms(2) by (simp add: last_word_def)
  ultimately show ?thesis using run_browser_lookup(1) [of "[]" self_id es nid] last_word_silent [OF assms(3)]
    by (simp only: assms(1) last_word_append)
qed

lemma browser_registry_ok: "registry_ok (fst (run_browser True True self_id es []))"
  by (rule run_browser_lookup) (simp add: registry_ok_def)

lemma browser_not_self: "map_of (fst (run_browser True True self_id es [])) self_id = None"
  using run_browser_lookup(1) [of "[]" self_id es self_id] last_word_own [of self_id] by (simp add: registry_ok_def)

section \<open>The unit test\<close>

text \<open>Two PCs on one network: what one advertises the browser of the other resolves.\<close>

definition mDNS_roundtrip_registers_peer_by_id :: "ipv4 \<Rightarrow> u64 \<Rightarrow> bool" where
  "mDNS_roundtrip_registers_peer_by_id ip now \<longleftrightarrow> (let my_id = ''aaaaaaaaaaaaaaaa''; peer_id = ''0123456789abcdef'' in
     case start_advertiser True (\<lambda>_. True) (Some ip) peer_id ''test-pc'' 37655 of None \<Rightarrow> False
     | Some svc \<Rightarrow> (let
         r = fst (run_browser True True my_id [Woken [(now, ServiceResolved (resolved svc (full_instance_name peer_id)))], Stopped] []);
         peer = List.find (\<lambda>p. p_node_id p = peer_id) (fst (registry_snapshot now r))
       in (case peer of None \<Rightarrow> False
           | Some p \<Rightarrow> p_node_id p = peer_id \<and> p_http_port p = 37655 \<and> p_addr p \<noteq> [])))"

lemma mDNS_roundtrip_test: "mDNS_roundtrip_registers_peer_by_id ip now"
proof -
  let ?my = "''aaaaaaaaaaaaaaaa''" and ?id = "''0123456789abcdef''"
  obtain svc where s: "start_advertiser True (\<lambda>_. True) (Some ip) ?id ''test-pc'' 37655 = Some svc" "sv_ip svc = show_ipv4 ip"
    by (simp add: start_advertiser_def service_info_for_def)
  let ?es = "[Woken [(now, ServiceResolved (resolved svc (full_instance_name ?id)))], Stopped]"
  let ?r = "fst (run_browser True True ?my ?es [])"
  let ?p = "\<lparr>p_node_id = ?id, p_name = full_instance_name ?id, p_addr = sv_ip svc, p_http_port = 37655,
    p_fingerprint = [], p_last_seen_unix = now\<rparr>"
  have m: "map_of ?r ?id = Some ?p"
    by (rule browser_after [of _ "[]" "(now, ServiceResolved (resolved svc (full_instance_name ?id)))" "[]"])
      (simp_all add: announced_word [OF s(1)] del: word_about.simps)
  have "\<exists>p \<in> set (fst (registry_snapshot now ?r)). p_node_id p = ?id"
    using seen_while_fresh [OF browser_registry_ok m] by (simp add: peer_fresh_def sat_sub_def PEER_TTL_SECS_def)
  then obtain p where p: "List.find (\<lambda>p. p_node_id p = ?id) (fst (registry_snapshot now ?r)) = Some p"
    by (cases "List.find (\<lambda>p. p_node_id p = ?id) (fst (registry_snapshot now ?r))") (auto simp: find_None_iff)
  then have "p \<in> set (fst (registry_snapshot now ?r))" "p_node_id p = ?id" by (auto simp: find_Some_iff)
  then have "map_of ?r ?id = Some p" unfolding snapshot_iff [OF browser_registry_ok] by simp
  then have "p = ?p" using m by simp
  moreover have "show_ipv4 ip \<noteq> []" by (cases ip) simp
  ultimately show ?thesis using s p by (simp add: mDNS_roundtrip_registers_peer_by_id_def Let_def)
qed

end
