(* ===== verification/Tray.thy ===== *)
theory Tray
  imports Shell
begin

text \<open>The tray of the window, @<doclink-win/src/main.rs>: its menu, whose clicks become commands of the
  event loop, the icon with its letters, which is drawn by the program pixel by pixel, and the place of the
  toast card on the screen.

  The drawing computes on 32-bit floating-point numbers. Every coordinate in it is a multiple of one eighth
  of a pixel below 64, and every square a multiple of one sixty-fourth below 1024, which such numbers hold
  exactly; the quotients by three are only rounded down, and those that are no whole number are at least one
  twenty-fourth away from the next. So whole numbers of eighths compute the same pixels, and a coordinate
  below is the number of its eighths.\<close>

section \<open>The menu\<close>

text \<open>The identifiers are those the menu library gave the two items. The thread forwards the clicks on the
  two items, in their order, and drops every other event.\<close>

definition tray_command :: "string \<Rightarrow> string \<Rightarrow> string \<Rightarrow> string option" where
  "tray_command open_id quit_id clicked = (if clicked = open_id then Some ''open''
     else if clicked = quit_id then Some ''quit'' else None)"

definition run_tray :: "bool \<Rightarrow> string \<Rightarrow> string \<Rightarrow> string list \<Rightarrow> string list option" where
  "run_tray built open_id quit_id clicks = (if \<not> built then None
     else Some (List.map_filter (tray_command open_id quit_id) clicks))"

section \<open>The icon\<close>

type_synonym u8 = "8 word"

type_synonym rgba = "u8 list"

definition SIZE :: nat where "SIZE = 32"
definition SS :: nat where "SS = 4"
definition SCALE :: nat where "SCALE = 3"
definition GLYPH_H :: nat where "GLYPH_H = 7"
definition GLYPH_D :: "u8 list" where "GLYPH_D = [0b11110, 0b10001, 0b10001, 0b10001, 0b10001, 0b10001, 0b11110]"
definition GLYPH_L :: "u8 list" where "GLYPH_L = [0b10000, 0b10000, 0b10000, 0b10000, 0b10000, 0b10000, 0b11111]"
definition BG :: rgba where "BG = [0x00, 0x78, 0xd4, 0xFF]"
definition FG :: rgba where "FG = [0xff, 0xff, 0xff, 0xff]"

definition rounded_rect :: "int \<Rightarrow> int \<Rightarrow> int \<Rightarrow> int \<Rightarrow> bool" where
  "rounded_rect ax ay half corner = (let dx = \<bar>ax\<bar> - (half - corner); dy = \<bar>ay\<bar> - (half - corner) in
     if dx > 0 \<and> dy > 0 then dx * dx + dy * dy \<le> corner * corner
     else if dx > 0 then dx \<le> corner
     else if dy > 0 then dy \<le> corner
     else True)"

text \<open>The cell of the letters at a point: which of the glyphs, and the column in it.\<close>

definition glyph_cell :: "int \<Rightarrow> (nat \<times> int) option" where
  "glyph_cell cx = (if 0 \<le> cx \<and> cx \<le> 4 then Some (0, cx)
     else if 6 \<le> cx \<and> cx \<le> 10 then Some (1, cx - 6) else None)"

definition glyph_on :: "u8 list list \<Rightarrow> int \<Rightarrow> int \<Rightarrow> bool" where
  "glyph_on glyphs cx cy = (if 0 \<le> cy \<and> cy < 7 then (case glyph_cell cx of
       Some (gi, lc) \<Rightarrow> and (drop_bit (nat (4 - lc)) (glyphs ! gi ! nat cy)) 1 = 1
     | None \<Rightarrow> False) else False)"

definition sample_icon :: "int \<Rightarrow> int \<Rightarrow> u8 list list \<Rightarrow> int \<Rightarrow> int \<Rightarrow> rgba" where
  "sample_icon px py glyphs ox oy = (let
     in_bg = rounded_rect (px - 8 * 16) (py - 8 * 16) (8 * 15) (8 * 6);
     cx = (px - ox) div (8 * 3);
     cy = (py - oy) div (8 * 3)
   in if glyph_on glyphs cx cy then FG else if in_bg then BG else [0, 0, 0, 0])"

text \<open>The middle of a sub-pixel: @<x + (sx + 0.5) / 4>.\<close>

definition sample_at :: "nat \<Rightarrow> nat \<Rightarrow> int" where
  "sample_at x sx = 8 * int x + (8 * int sx + 4) div int SS"

definition icon_samples :: "nat \<Rightarrow> nat \<Rightarrow> rgba list" where
  "icon_samples x y = (let
       ox = 8 * (int SIZE - int (5 * 2 * SCALE + 1)) div 2;
       oy = 8 * (int SIZE - int (GLYPH_H * SCALE)) div 2 in
     concat (map (\<lambda>sy. map (\<lambda>sx. sample_icon (sample_at x sx) (sample_at y sy) [GLYPH_D, GLYPH_L] ox oy) [0 ..< SS]) [0 ..< SS]))"

text \<open>The sums run on 32 bits; the mean is cut to a byte.\<close>

definition icon_pixel :: "nat \<Rightarrow> nat \<Rightarrow> rgba" where
  "icon_pixel x y = map (\<lambda>i. word_of_int (sint (fold (\<lambda>c acc. acc + ucast (c ! i)) (icon_samples x y) (0 :: 32 word))
     div int (SS * SS))) [0 ..< 4]"

definition load_icon :: "u8 list" where
  "load_icon = concat (map (\<lambda>y. concat (map (\<lambda>x. icon_pixel x y) [0 ..< SIZE])) [0 ..< SIZE])"

section \<open>The place of the toast card\<close>

text \<open>The screen is that of the primary monitor, in physical pixels, or 1920 by 1080.\<close>

definition CARD_W :: nat where "CARD_W = 360"
definition CARD_H :: nat where "CARD_H = 96"

definition toast_position :: "(nat \<times> nat) option \<Rightarrow> nat \<times> nat" where
  "toast_position monitor = (let (w, h) = (case monitor of Some s \<Rightarrow> s | None \<Rightarrow> (1920, 1080)) in
     (w - (CARD_W + 20), h - (CARD_H + 48)))"

section \<open>The icon is well formed\<close>

lemma in_glyph: "glyph_cell cx = Some (gi, lc) \<Longrightarrow> gi < 2 \<and> 0 \<le> lc \<and> lc \<le> 4"
  by (auto simp: glyph_cell_def split: if_splits)

lemma sample_icon_length: "length (sample_icon px py gs ox oy) = 4"
  by (simp add: sample_icon_def Let_def FG_def BG_def)

lemma concat_nth:
  assumes "\<And>y. y < n \<Longrightarrow> length (f y) = k" "j < n * k"
  shows "concat (map f [0 ..< n]) ! j = f (j div k) ! (j mod k)" "length (concat (map f [0 ..< n])) = n * k"
proof -
  have "length (concat (map f [0 ..< n])) = n * k \<and> (\<forall>j < n * k. concat (map f [0 ..< n]) ! j = f (j div k) ! (j mod k))"
    using assms(1)
  proof (induction n)
    case (Suc n)
    then have IH: "length (concat (map f [0 ..< n])) = n * k" "length (f n) = k"
      "\<And>j. j < n * k \<Longrightarrow> concat (map f [0 ..< n]) ! j = f (j div k) ! (j mod k)" by auto
    have "concat (map f [0 ..< Suc n]) ! j = f (j div k) ! (j mod k)" if "j < Suc n * k" for j
    proof (cases "j < n * k")
      case False
      then have "j div k = n" "j mod k = j - n * k" using that
        by (metis add.commute div_nat_eqI le_less_linear mult.commute mult_Suc)
          (metis False Suc_eq_plus1 add.commute add_diff_inverse_nat div_nat_eqI le_less_linear minus_div_mult_eq_mod mult.commute mult_Suc that)
      then show ?thesis using False IH by (simp add: nth_append)
    qed (use IH in \<open>simp add: nth_append\<close>)
    then show ?case using IH by simp
  qed simp
  then show "concat (map f [0 ..< n]) ! j = f (j div k) ! (j mod k)" "length (concat (map f [0 ..< n])) = n * k"
    using assms(2) by blast+
qed

lemma icon_pixel_length: "length (icon_pixel x y) = 4"
  by (simp add: icon_pixel_def)

text \<open>The sums of the samples of one pixel fit, and their mean is a byte.\<close>

lemma samples_bound:
  "length cs \<le> 16 \<Longrightarrow> uint (fold (\<lambda>c acc. acc + ucast (c ! i)) cs (0 :: 32 word)) = (\<Sum>c \<leftarrow> cs. uint (c ! i :: u8))
    \<and> (\<Sum>c \<leftarrow> cs. uint (c ! i)) \<le> 255 * int (length cs)"
proof (induction cs rule: rev_induct)
  case (snoc c cs)
  have b: "uint (c ! i) \<le> 255" using uint_lt2p [of "c ! i"] by simp
  have "uint (ucast (c ! i) :: 32 word) = uint (c ! i)" by (simp add: uint_up_ucast is_up)
  moreover have "uint (fold (\<lambda>c acc. acc + ucast (c ! i)) cs (0 :: 32 word)) + uint (c ! i) < 2 ^ 32"
    using snoc b by simp
  ultimately show ?case using snoc b by (simp add: uint_plus_if')
qed simp

lemma icon_samples_length: "length (icon_samples x y) = SS * SS"
  using concat_nth(2) [of SS "\<lambda>sy. map (\<lambda>sx. sample_icon (sample_at x sx) (sample_at y sy) [GLYPH_D, GLYPH_L]
      (8 * (int SIZE - int (5 * 2 * SCALE + 1)) div 2) (8 * (int SIZE - int (GLYPH_H * SCALE)) div 2)) [0 ..< SS]" SS 0]
  by (simp add: icon_samples_def Let_def SS_def)

lemma icon_pixel_mean:
  assumes "i < 4"
  shows "uint (icon_pixel x y ! i) = (\<Sum>c \<leftarrow> icon_samples x y. uint (c ! i)) div 16"
proof -
  let ?n = "\<Sum>c \<leftarrow> icon_samples x y. uint (c ! i)"
  have l: "length (icon_samples x y) = 16" by (simp add: icon_samples_length SS_def)
  have u: "uint (fold (\<lambda>c acc. acc + ucast (c ! i)) (icon_samples x y) (0 :: 32 word)) = ?n" "?n \<le> 255 * 16"
    using samples_bound [of "icon_samples x y" i] l by simp_all
  have n: "0 \<le> ?n" using u(1) by (metis uint_nonnegative)
  have "sint (fold (\<lambda>c acc. acc + ucast (c ! i)) (icon_samples x y) (0 :: 32 word)) = ?n"
    using u n by (simp add: sint_uint signed_take_bit_int_eq_self)
  then have "icon_pixel x y ! i = word_of_int (?n div 16)"
    using assms by (simp add: icon_pixel_def SS_def)
  moreover have "0 \<le> ?n div 16" "?n div 16 < 2 ^ 8" using u(2) n by auto
  ultimately show ?thesis by (simp add: unsigned_of_int take_bit_int_eq_self)
qed

lemma load_icon_length: "length load_icon = SIZE * SIZE * 4"
  and load_icon_nth: "x < SIZE \<Longrightarrow> y < SIZE \<Longrightarrow> i < 4 \<Longrightarrow> load_icon ! ((y * SIZE + x) * 4 + i) = icon_pixel x y ! i"
proof -
  let ?row = "\<lambda>y. concat (map (\<lambda>x. icon_pixel x y) [0 ..< SIZE])"
  have r: "length (?row y) = SIZE * 4" for y
    by (rule concat_nth(2) [of _ _ _ 0]) (simp_all add: icon_pixel_length SIZE_def)
  show "length load_icon = SIZE * SIZE * 4" unfolding load_icon_def
    using concat_nth(2) [of SIZE ?row "SIZE * 4" 0] r by (simp add: SIZE_def)
  assume a: "x < SIZE" "y < SIZE" "i < 4"
  let ?j = "(y * SIZE + x) * 4 + i"
  have j: "(x * 4 + i) div 4 = x" "(x * 4 + i) mod 4 = i" using a by simp_all
  have lt: "x * 4 + i < SIZE * 4" using a by (simp add: SIZE_def)
  have e: "?j = x * 4 + i + y * (SIZE * 4)" by (simp add: algebra_simps)
  have d: "?j div (SIZE * 4) = y" "?j mod (SIZE * 4) = x * 4 + i" unfolding e using lt by simp_all
  have "?j < SIZE * (SIZE * 4)" using a by (simp add: SIZE_def)
  then show "load_icon ! ?j = icon_pixel x y ! i" unfolding load_icon_def
    using concat_nth(1) [of SIZE ?row "SIZE * 4" ?j] concat_nth(1) [of SIZE "\<lambda>x. icon_pixel x y" 4 "x * 4 + i"] r j d lt
    by (simp add: icon_pixel_length)
qed

lemma icon_corner: "icon_pixel 0 0 = [0, 0, 0, 0]"
  by code_simp

lemma icon_letters: "icon_pixel 1 7 = FG" "icon_pixel 16 2 = BG"
  by code_simp+

section \<open>The card on the screen\<close>

text \<open>On a screen of at least the card's size with its margins the place is such that a card of 360 by 96
  physical pixels ends 20 before the right edge and 48 above the bottom. The card's size, though, is given in
  logical pixels: at a scale of @<n> hundredths it reaches over the right edge as soon as the scale passes
  105 hundredths.\<close>

lemma card_inside:
  assumes "CARD_W + 20 \<le> w" "CARD_H + 48 \<le> h" "toast_position (Some (w, h)) = (x, y)"
  shows "x + CARD_W + 20 = w \<and> y + CARD_H + 48 = h"
  using assms by (auto simp: toast_position_def)

lemma card_scaled:
  assumes "CARD_W + 20 \<le> w" "toast_position (Some (w, h)) = (x, y)"
  shows "x + CARD_W * n div 100 \<le> w \<longleftrightarrow> n \<le> 105"
  using assms by (auto simp: toast_position_def CARD_W_def)

section \<open>The loop ends with Quit\<close>

text \<open>The loop handles the commands of the tray, of the pages and of the poller until one asks it to exit.\<close>

fun event_loop :: "web_env \<Rightarrow> bool \<times> bool list \<Rightarrow> u16 \<Rightarrow> string list \<Rightarrow> shell \<Rightarrow> shell" where
  "event_loop w stop port [] s = s"
| "event_loop w stop port (cmd # cmds) s = (let s = on_command w stop port cmd s in
     if sh_exit s then s else event_loop w stop port cmds s)"

lemma on_other_command:
  assumes "cmd \<noteq> ''quit''"
  shows "sh_exit (on_command w stop port cmd s) = sh_exit s \<and> sh_child (on_command w stop port cmd s) = sh_child s
    \<and> sh_stopped (on_command w stop port cmd s) = sh_stopped s"
proof -
  let ?P = "\<lambda>t :: shell. sh_exit t = sh_exit s \<and> sh_child t = sh_child s \<and> sh_stopped t = sh_stopped s"
  show ?thesis
  proof (cases "strip_prefix ''toast-show|'' cmd")
    case None
    show ?thesis unfolding on_command_def None option.case if_not_P [OF assms]
      by (intro either_branch [of ?P]; simp add: window_shown_def)
  next
    case (Some a)
    show ?thesis unfolding on_command_def Some option.case case_prod_beta Let_def
      by (intro either_branch [of ?P]; simp add: window_shown_def)
  qed
qed

lemma on_quit: "on_command w stop port ''quit'' s = s\<lparr>sh_exit := True, sh_stopped := sh_stopped s
    @ (if sh_child s then stop_daemon (fst stop) (snd stop) port else [])\<rparr>"
  by (simp add: on_command_def strip_prefix_def)

lemma event_loop_ends:
  assumes "\<not> sh_exit s"
  shows "sh_exit (event_loop w stop port cmds s) \<longleftrightarrow> ''quit'' \<in> set cmds"
    "sh_stopped (event_loop w stop port cmds s) = sh_stopped s
      @ (if ''quit'' \<in> set cmds \<and> sh_child s then stop_daemon (fst stop) (snd stop) port else [])"
proof -
  have "(sh_exit (event_loop w stop port cmds s) \<longleftrightarrow> ''quit'' \<in> set cmds)
    \<and> sh_stopped (event_loop w stop port cmds s) = sh_stopped s
      @ (if ''quit'' \<in> set cmds \<and> sh_child s then stop_daemon (fst stop) (snd stop) port else [])"
    using assms
  proof (induction cmds arbitrary: s)
    case (Cons cmd cmds)
    show ?case
    proof (cases "cmd = ''quit''")
      case False
      then show ?thesis using Cons.IH [of "on_command w stop port cmd s"] Cons.prems
          on_other_command [OF False, of w stop port s] by (auto simp: Let_def)
    qed (simp add: on_quit Let_def)
  qed simp
  then show "sh_exit (event_loop w stop port cmds s) \<longleftrightarrow> ''quit'' \<in> set cmds"
    "sh_stopped (event_loop w stop port cmds s) = sh_stopped s
      @ (if ''quit'' \<in> set cmds \<and> sh_child s then stop_daemon (fst stop) (snd stop) port else [])" by blast+
qed

text \<open>No event of a peer makes the window quit: what the poller hands it never reads so.\<close>

lemma toast_never_quits: "toast_command ev \<noteq> ''quit''"
  by (simp add: toast_command_def)

lemma tray_quits:
  assumes "run_tray built open_id quit_id clicks = Some cmds" "open_id \<noteq> quit_id"
  shows "''quit'' \<in> set cmds \<longleftrightarrow> quit_id \<in> set clicks"
  using assms by (induction clicks arbitrary: cmds) (auto simp: run_tray_def tray_command_def map_filter_simps split: if_splits)

end
