(* ===== verification/Platform.thy ===== *)
theory Platform
  imports Startup Upkeep
begin

text \<open>What the program asks of the operating system and of the TLS library: the permissions of the key
  file (@<doclink-core/src/identity.rs>), the configuration of the TLS server (@<doclinkd/src/tls.rs>) with the
  certificate it shows (@<doclink-core/src/cert.rs>), and the request to the Windows shell that prints a file or shows the share (@<doclinkd/src/admin.rs>). The commands
  and their arguments are modelled; what the system does with them is its own.\<close>

section \<open>The permissions of the key file\<close>

datatype os_request = Run_Program string "string list" | Set_Mode nat | No_Request

text \<open>@<user> is the variable USERNAME, @<path> the path as the program prints it.\<close>

definition harden_key_permissions :: "bool \<Rightarrow> bool \<Rightarrow> string option \<Rightarrow> string \<Rightarrow> os_request" where
  "harden_key_permissions windows unix user path = (if windows
     then (case user of
         Some u \<Rightarrow> if u \<noteq> [] then Run_Program ''icacls'' [path, ''/inheritance:r'', ''/grant:r'', u @ '':(R,W)''] else No_Request
       | None \<Rightarrow> No_Request)
     else if unix then Set_Mode 384 else No_Request)"

text \<open>384 is 600 in octal: reading and writing for the owner, nothing for the group and the others.\<close>

lemma harden_mode: "harden_key_permissions False True user path = Set_Mode (6 * 64 + 0 * 8 + 0)"
  by (simp add: harden_key_permissions_def)

section \<open>The TLS server\<close>

record tls_config =
  tc_client_auth :: bool
  tc_chain :: "bytes list"
  tc_key :: bytes

text \<open>@<versions> tells whether the library offers its default versions, @<pair> whether it takes the
  certificate with the key.\<close>

definition server_config :: "bool \<Rightarrow> (bytes \<Rightarrow> bytes \<Rightarrow> bool) \<Rightarrow> node_tls \<Rightarrow> tls_config option" where
  "server_config versions pair t = (if \<not> versions then None
     else if pair (nt_cert_der t) (nt_key_der t)
     then Some \<lparr>tc_client_auth = False, tc_chain = [nt_cert_der t], tc_key = nt_key_der t\<rparr> else None)"

text \<open>A peer that connects sees the first certificate of the chain.\<close>

definition presented :: "tls_config \<Rightarrow> bytes option" where
  "presented c = (case tc_chain c of [] \<Rightarrow> None | cert # _ \<Rightarrow> Some cert)"

lemma server_passes_pin:
  assumes "sig_laws x" "cert_law x mkcert" "tls_from_identity x mkcert i = Some t"
    and "server_config versions pair t = Some c"
  shows "peer_check x (Some (presented c)) (Some (fingerprint x i)) = Inr (fingerprint x i)"
    and "peer_check x (Some (presented c)) None = Inr (fingerprint x i)"
proof -
  obtain d where "spki_sha256 x (nt_cert_der t) = Some d" "x_hex_encode x d = fingerprint x i"
    using own_cert_pin(1) [OF assms(1-3)] by auto
  moreover have "presented c = Some (nt_cert_der t)"
    using assms(4) by (auto simp: server_config_def presented_def split: if_splits)
  ultimately show "peer_check x (Some (presented c)) (Some (fingerprint x i)) = Inr (fingerprint x i)"
    "peer_check x (Some (presented c)) None = Inr (fingerprint x i)"
    by (simp_all add: peer_check_def spki_hex_of_def eq_ignore_ascii_case_def)
qed

lemma server_fails_other_pin:
  assumes "sig_laws x" "cert_law x mkcert" "tls_from_identity x mkcert i = Some t"
    and "server_config versions pair t = Some c" "\<not> eq_ignore_ascii_case (fingerprint x i) want"
  shows "\<exists>e. peer_check x (Some (presented c)) (Some want) = Inl e"
  using server_passes_pin(2) [OF assms(1-4)] assms(5) by (auto simp: peer_check_def split: sum.splits)

text \<open>Two unit tests of @<doclink-core/src/cert.rs>, for any certificate library that succeeds and keeps its law, and
  that may make another certificate at the second call.\<close>

definition spki_hash_equals_identity_fingerprint :: "ext \<Rightarrow> (bytes \<Rightarrow> string \<Rightarrow> bytes option) \<Rightarrow> bytes \<Rightarrow> bool" where
  "spki_hash_equals_identity_fingerprint x mkcert k \<longleftrightarrow> (let i = \<lparr>signing_key = k\<rparr> in
     case tls_from_identity x mkcert i of None \<Rightarrow> False
     | Some t \<Rightarrow> map_option (x_hex_encode x) (spki_sha256 x (nt_cert_der t)) = Some (fingerprint x i))"

definition regenerated_cert_keeps_same_spki_fingerprint ::
    "ext \<Rightarrow> (bytes \<Rightarrow> string \<Rightarrow> bytes option) \<Rightarrow> (bytes \<Rightarrow> string \<Rightarrow> bytes option) \<Rightarrow> bytes \<Rightarrow> bool" where
  "regenerated_cert_keeps_same_spki_fingerprint x mkcert mkcert' k \<longleftrightarrow> (let i = \<lparr>signing_key = k\<rparr> in
     case (tls_from_identity x mkcert i, tls_from_identity x mkcert' i) of
       (Some a, Some b) \<Rightarrow> spki_sha256 x (nt_cert_der a) \<noteq> None \<and> spki_sha256 x (nt_cert_der a) = spki_sha256 x (nt_cert_der b)
     | _ \<Rightarrow> False)"

lemma tls_made: "mkcert (pkcs8_from_seed k) (''doclink-'' @ fingerprint x \<lparr>signing_key = k\<rparr>) \<noteq> None
    \<Longrightarrow> \<exists>t. tls_from_identity x mkcert \<lparr>signing_key = k\<rparr> = Some t"
  by (auto simp: tls_from_identity_def)

lemma spki_hash_test:
  assumes "sig_laws x" "cert_law x mkcert" "mkcert (pkcs8_from_seed k) (''doclink-'' @ fingerprint x \<lparr>signing_key = k\<rparr>) \<noteq> None"
  shows "spki_hash_equals_identity_fingerprint x mkcert k"
proof -
  obtain t where "tls_from_identity x mkcert \<lparr>signing_key = k\<rparr> = Some t" using tls_made [of mkcert k x] assms(3) by blast
  then show ?thesis using own_cert_pin(1) [OF assms(1,2)] by (simp add: spki_hash_equals_identity_fingerprint_def)
qed

lemma regenerated_test:
  assumes "hex_laws x" "sig_laws x" "cert_law x mkcert" "cert_law x mkcert'"
    and "mkcert (pkcs8_from_seed k) (''doclink-'' @ fingerprint x \<lparr>signing_key = k\<rparr>) \<noteq> None"
    and "mkcert' (pkcs8_from_seed k) (''doclink-'' @ fingerprint x \<lparr>signing_key = k\<rparr>) \<noteq> None"
  shows "regenerated_cert_keeps_same_spki_fingerprint x mkcert mkcert' k"
proof -
  obtain a b where t: "tls_from_identity x mkcert \<lparr>signing_key = k\<rparr> = Some a" "tls_from_identity x mkcert' \<lparr>signing_key = k\<rparr> = Some b"
    using tls_made [of mkcert k x] tls_made [of mkcert' k x] assms(5,6) by blast
  have "map_option (x_hex_encode x) (spki_sha256 x (nt_cert_der a)) = Some (fingerprint x \<lparr>signing_key = k\<rparr>)"
    "map_option (x_hex_encode x) (spki_sha256 x (nt_cert_der b)) = Some (fingerprint x \<lparr>signing_key = k\<rparr>)"
    using own_cert_pin(1) [OF assms(2,3) t(1)] own_cert_pin(1) [OF assms(2,4) t(2)] .
  then show ?thesis using t hex_encode_inj [OF assms(1)]
    by (auto simp: regenerated_cert_keeps_same_spki_fingerprint_def)
qed

section \<open>Requests to the Windows shell\<close>

text \<open>The text of a path as Windows has it, 16-bit units, is an argument; the verb is spelled out. Both end
  with a zero, and the shell reads up to the first one.\<close>

record shell_request =
  sq_verb :: "u16 list"
  sq_file :: "u16 list"
  sq_no_ui :: bool
  sq_hidden :: bool

definition print_request :: "u16 list \<Rightarrow> shell_request" where
  "print_request wide_path = \<lparr>sq_verb = map (\<lambda>c. of_nat (byte_of c)) ''print'' @ [0], sq_file = wide_path @ [0],
     sq_no_ui = True, sq_hidden = True\<rparr>"

definition until_zero :: "u16 list \<Rightarrow> u16 list" where
  "until_zero ws = takeWhile (\<lambda>w. w \<noteq> 0) ws"

definition print_by_shell :: "bool \<Rightarrow> (shell_request \<Rightarrow> nat) \<Rightarrow> u16 list \<Rightarrow> string + unit" where
  "print_by_shell windows execute wide_path = (if windows then shell_print (execute (print_request wide_path))
     else Inl ''printing is only supported on Windows'')"

lemma printed_file: "0 \<notin> set p \<Longrightarrow> until_zero (sq_file (print_request p)) = p"
  by (induction p) (auto simp: until_zero_def print_request_def)

definition myshare_reveal :: "bool \<Rightarrow> string \<Rightarrow> os_request" where
  "myshare_reveal windows root = (if windows then Run_Program ''explorer'' [root] else No_Request)"

end
