(* ===== verification/UnitTests.thy ===== *)
theory UnitTests
  imports Machine "HOL-Library.Code_Target_Numeral"
begin

text \<open>The repository's own unit tests, translated: each definition is the conjunction of what one test asserts,
  over the modelled functions, and its lemma proves that the model passes it. They compare the model with what
  the authors of the code expect of it, input by input. This theory holds the tests of the pure functions and of
  the state in memory (@<server.rs>, @<admin.rs>, @<proxy.rs>, @<updater.rs>, @<local_print.rs>, @<events.rs>
  and @<store.rs>).\<close>

section \<open>Evaluation\<close>

text \<open>Equations that let the simplifier compute faster: a string whose ends are plain characters has nothing
  to trim, and the bound of a 64-bit number is spelled out.\<close>

definition plain_char :: "char \<Rightarrow> bool" where
  "plain_char c \<longleftrightarrow> 32 < byte_of c \<and> byte_of c < 128"

lemma ws_not_plain: "w \<in> set ws_chars \<Longrightarrow> w \<noteq> [] \<and> \<not> plain_char (hd w) \<and> \<not> plain_char (last w)"
proof -
  have "list_all (\<lambda>w. w \<noteq> [] \<and> \<not> plain_char (hd w) \<and> \<not> plain_char (last w)) ws_chars" by code_simp
  then show "w \<in> set ws_chars \<Longrightarrow> w \<noteq> [] \<and> \<not> plain_char (hd w) \<and> \<not> plain_char (last w)"
    by (simp add: list_all_iff)
qed

lemma trim_plain: "s \<noteq> [] \<Longrightarrow> plain_char (hd s) \<Longrightarrow> plain_char (last s) \<Longrightarrow> trim s = s"
  unfolding trim_id using ws_not_plain by (auto elim!: prefixE suffixE)

lemma trim_code [code]:
  "trim s = (if s \<noteq> [] \<and> plain_char (hd s) \<and> plain_char (last s) then s else trim_end (trim_start s))"
  using trim_plain [of s] by (simp add: trim_def)

lemma parse_u64_code [code]: "parse_u64 s = map_option of_nat (parse_uint 18446744073709551616 s)"
  by (simp add: parse_u64_def)

section \<open>Scopes and ranges\<close>

definition within_requires_strict_prefix_boundary :: bool where
  "within_requires_strict_prefix_boundary \<longleftrightarrow> within ''a/b'' ''a'' \<and> within ''a/b/c'' ''a/b'' \<and> \<not> within ''ab'' ''a''
     \<and> \<not> within ''a'' ''a'' \<and> \<not> within [] ''a'' \<and> \<not> within ''x/a'' ''a''"

lemma within_test: within_requires_strict_prefix_boundary
  by code_simp

definition can_list_full_grant_and_root_listing :: bool where
  "can_list_full_grant_and_root_listing \<longleftrightarrow> can_list [] [] \<and> can_list [] ''any/dir'' \<and> can_list [''docs/file.txt''] []"

lemma can_list_full_test: can_list_full_grant_and_root_listing
  by code_simp

definition can_list_scoped :: bool where
  "can_list_scoped \<longleftrightarrow> (let paths = [''parent/docs''] in
     can_list paths ''parent/docs'' \<and> can_list paths ''parent/docs/sub'' \<and> can_list paths ''parent''
     \<and> \<not> can_list paths ''other'' \<and> \<not> can_list paths ''parents'')"

lemma can_list_scoped_test: can_list_scoped
  by code_simp

definition can_read_file_scoped :: bool where
  "can_read_file_scoped \<longleftrightarrow> (let paths = [''docs''] in
       can_read_file paths ''docs/a.txt'' \<and> can_read_file paths ''docs/sub/b.txt''
       \<and> \<not> can_read_file paths ''docs2/a.txt'' \<and> \<not> can_read_file paths ''other/a.txt'')
     \<and> (let file_grant = [''docs/a.txt''] in
       can_read_file file_grant ''docs/a.txt'' \<and> \<not> can_read_file file_grant ''docs/b.txt''
       \<and> \<not> can_read_file file_grant ''docs/sub/c.bin'')
     \<and> can_read_file [] ''anything.bin''"

lemma can_read_file_scoped_test: can_read_file_scoped
  by code_simp

definition entry_visible_rules :: bool where
  "entry_visible_rules \<longleftrightarrow> (let paths = [''docs''] in
       entry_visible paths ''docs'' Dir \<and> entry_visible paths ''docs/a.txt'' File
       \<and> \<not> entry_visible paths ''other'' Dir \<and> \<not> entry_visible paths ''other.txt'' File)
     \<and> (let nested = [''parent/docs''] in
       entry_visible nested ''parent'' Dir \<and> \<not> entry_visible nested ''sibling'' Dir)"

lemma entry_visible_test: entry_visible_rules
  by code_simp

definition range_parsing_covers_all_forms :: bool where
  "range_parsing_covers_all_forms \<longleftrightarrow> (let total = 100 in
     parse_range None total = Full \<and> parse_range (Some ''chars=0-4'') total = Full
     \<and> parse_range (Some ''bytes='') total = Full \<and> parse_range (Some ''bytes=1-2,5-9'') total = Full
     \<and> parse_range (Some ''bytes=x-y'') total = Full
     \<and> parse_range (Some ''bytes=0-0'') total = Partial 0 0 \<and> parse_range (Some ''bytes=10-19'') total = Partial 10 19
     \<and> parse_range (Some ''bytes=90-'') total = Partial 90 99 \<and> parse_range (Some ''bytes=10-999'') total = Partial 10 99
     \<and> parse_range (Some ''bytes=-5'') total = Partial 95 99 \<and> parse_range (Some ''bytes=-500'') total = Partial 0 99
     \<and> parse_range (Some ''bytes=100-'') total = Unsatisfiable \<and> parse_range (Some ''bytes=150-160'') total = Unsatisfiable
     \<and> parse_range (Some ''bytes=50-10'') total = Full \<and> parse_range (Some ''bytes=0-'') 0 = Full)"

lemma range_parsing_test: range_parsing_covers_all_forms
  by code_simp

section \<open>The limiter and the pairing queue\<close>

text \<open>Times are nanoseconds; the test moves the start of the window 61 seconds back.\<close>

definition rate_limiter_blocks_after_cap_and_recovers :: bool where
  "rate_limiter_blocks_after_cap_and_recovers \<longleftrightarrow> (let
     now = 100 * 10 ^ 9; ip = ''10.1.2.3'';
     (a, l) = allow now ip (limiter_new 3); (b, l) = allow now ip l; (c, l) = allow now ip l;
     (d, l) = allow now ip l; (e, l) = allow now ip l; (f, l) = allow now ''10.1.2.4'' l;
     l = l\<lparr>lm_buckets := map (\<lambda>(k, n, t). (k, n, if k = ip then now - 61 * 10 ^ 9 else t)) (lm_buckets l)\<rparr>;
     (g, l) = allow now ip l
   in a \<and> b \<and> c \<and> \<not> d \<and> \<not> e \<and> f \<and> g)"

lemma rate_limiter_test: rate_limiter_blocks_after_cap_and_recovers
  by code_simp

text \<open>The requests of the queue tests are numbered in hexadecimal, sixteen digits wide.\<close>

definition hex16 :: "nat \<Rightarrow> string" where
  "hex16 i = map (\<lambda>k. hex_char (i div 16 ^ k mod 16)) (rev [0 ..< 16])"

definition pair_req_for :: "string \<Rightarrow> pair_request" where
  "pair_req_for nid = \<lparr>pr_node_id = nid, pr_name = ''n'', pr_pubkey_hex = concat (replicate 32 ''00''),
     pr_requested_duration_secs = 60, pr_signature = []\<rparr>"

text \<open>Filling the queue at time @<now>: the answers, and the queue.\<close>

definition fill_pending :: "u64 \<Rightarrow> nat \<Rightarrow> bool \<times> pairing" where
  "fill_pending now n = fold (\<lambda>i (ok, p). let (r, p) = admit_pending now now (pair_req_for (hex16 i)) p in
     (ok \<and> r = Inr (), p)) [0 ..< n] (True, pairing_default)"

definition pending_queue_is_capped :: "u64 \<Rightarrow> bool" where
  "pending_queue_is_capped now \<longleftrightarrow> (let
     (ok, p) = fill_pending now MAX_PENDING;
     (r, p) = admit_pending now now (pair_req_for (replicate 16 (CHR ''f''))) p;
     (again, _) = admit_pending now now (pair_req_for (hex16 0)) p
   in ok \<and> r = Inl (''too many pending pairing requests right now '' @ em_dash @ '' try again later'') \<and> again = Inr ())"

definition stale_pending_requests_are_evicted :: "u64 \<Rightarrow> bool" where
  "stale_pending_requests_are_evicted now \<longleftrightarrow> (let
     (ok, p) = fill_pending now MAX_PENDING;
     cutoff = now - PENDING_TTL_SECS - 1;
     p = p\<lparr>pending := map (\<lambda>(k, e). (k, e\<lparr>pe_received_unix := cutoff\<rparr>)) (pending p)\<rparr>;
     (r, p) = admit_pending now now (pair_req_for (replicate 16 (CHR ''a''))) p
   in ok \<and> r = Inr () \<and> length (pending p) = 1)"

definition decisions_map_is_bounded :: "u64 \<Rightarrow> bool" where
  "decisions_map_is_bounded now \<longleftrightarrow> (let resp = \<lparr>ps_status = Approved, ps_expires_unix = None\<rparr> in
     length (decisions (fold (\<lambda>i. remember_decision now (hex16 i) resp) [0 ..< MAX_DECISIONS + 10] pairing_default))
       = MAX_DECISIONS)"

lemma hex16_digit: "k < 16 \<Longrightarrow> hex16 i ! (15 - k) = hex_char (i div 16 ^ k mod 16)"
  unfolding hex16_def by (subst nth_map) (simp_all del: upt_rec add: rev_nth)

lemma hex_char_inj: "a < 16 \<Longrightarrow> b < 16 \<Longrightarrow> hex_char a = hex_char b \<Longrightarrow> a = b"
  using hex_char_props(2) by metis

lemma hex16_inj:
  assumes "i < 4096" "j < 4096" "hex16 i = hex16 j"
  shows "i = j"
proof -
  have d: "i div 16 ^ k mod 16 = j div 16 ^ k mod 16" if "k < 16" for k
    by (rule hex_char_inj) (simp_all add: hex16_digit [OF that, symmetric] assms(3))
  have e: "n div 16 div 16 = n div 256" for n :: nat by (simp flip: div_mult2_eq)
  have "i div 256 < 16" "j div 256 < 16" using assms(1,2) by simp_all
  then have "i div 16 div 16 = j div 16 div 16" using d [of 2] unfolding e by (simp add: power2_eq_square)
  moreover have "i div 16 mod 16 = j div 16 mod 16" "i mod 16 = j mod 16" using d [of 1] d [of 0] by simp_all
  ultimately show ?thesis by (metis div_mult_mod_eq)
qed

lemma hex16_not_repeated:
  assumes "i < 4096" "c \<noteq> hex_char 0"
  shows "hex16 i \<noteq> replicate 16 c"
proof
  assume "hex16 i = replicate 16 c"
  then have "hex16 i ! (15 - 15) = c" by simp
  moreover have "i div 16 ^ 15 mod 16 = 0" using assms(1) by simp
  ultimately show False using hex16_digit [of 15 i] assms(2) by simp
qed

definition queued :: "u64 \<Rightarrow> nat \<Rightarrow> (string \<times> pair_entry) list" where
  "queued t n = map (\<lambda>i. (hex16 i, \<lparr>pe_request = pair_req_for (hex16 i), pe_received_unix = t\<rparr>)) [0 ..< n]"

lemma queued_keys: "map_of (queued t n) k = None \<longleftrightarrow> k \<notin> hex16 ` {0 ..< n}"
  by (force simp: queued_def map_of_eq_None_iff)

lemma queued_length [simp]: "length (queued t n) = n"
  by (simp add: queued_def)

lemma prune_fresh:
  assumes "600 < unat now"
  shows "prune_pending now (p\<lparr>pending := queued now n\<rparr>) = p\<lparr>pending := queued now n\<rparr>"
proof -
  have "sat_sub now PENDING_TTL_SECS < now"
    using assms by (simp add: word_less_nat_alt unat_sat_sub PENDING_TTL_SECS_def)
  then show ?thesis by (simp add: prune_pending_def Let_def queued_def filter_map o_def)
qed

lemma update_new: "map_of xs k = None \<Longrightarrow> AList.update k v xs = xs @ [(k, v)]"
  by (induction xs) (auto split: if_splits)

lemma fill_pending_queued:
  assumes "600 < unat now" "n \<le> MAX_PENDING"
  shows "fill_pending now n = (True, pairing_default\<lparr>pending := queued now n\<rparr>)"
  using assms(2)
proof (induction n)
  case (Suc n)
  have "map_of (queued now n) (hex16 n) = None"
    unfolding queued_keys
  proof
    assume "hex16 n \<in> hex16 ` {0 ..< n}"
    then obtain j where "j < n" "hex16 n = hex16 j" by auto
    then show False using hex16_inj [of n j] Suc.prems by (simp add: MAX_PENDING_def)
  qed
  then have "AList.update (hex16 n) \<lparr>pe_request = pair_req_for (hex16 n), pe_received_unix = now\<rparr> (queued now n)
      = queued now (Suc n)" by (simp add: update_new) (simp add: queued_def)
  then show ?case using Suc prune_fresh [OF assms(1), where p = pairing_default and n = n]
    by (simp add: fill_pending_def admit_pending_def Let_def) (simp add: pair_req_for_def)
qed (simp add: fill_pending_def queued_def pairing_default_def)

lemma pending_queue_test: "600 < unat now \<Longrightarrow> pending_queue_is_capped now"
proof -
  assume now: "600 < unat now"
  have "CHR ''f'' \<noteq> hex_char 0" by code_simp
  then have f: "replicate 16 (CHR ''f'') \<notin> hex16 ` {0 ..< 64}"
  proof (intro notI)
    assume "replicate 16 (CHR ''f'') \<in> hex16 ` {0 ..< 64}"
    then obtain j where j: "replicate 16 (CHR ''f'') = hex16 j" "j \<in> {0 ..< 64}" by (rule imageE)
    from j(2) have "j < 4096" by simp
    from hex16_not_repeated [OF this \<open>CHR ''f'' \<noteq> hex_char 0\<close>] j(1) [symmetric] show False by (rule notE)
  qed
  have z: "hex16 0 \<in> hex16 ` {0 ..< 64}" by (rule imageI) simp
  show ?thesis unfolding pending_queue_is_capped_def fill_pending_queued [OF now le_refl]
    using f z prune_fresh [OF now, where p = pairing_default and n = MAX_PENDING]
    by (simp add: admit_pending_def Let_def queued_keys MAX_PENDING_def pair_req_for_def)
qed

lemma stale_pending_test: "1200 < unat now \<Longrightarrow> stale_pending_requests_are_evicted now"
proof -
  assume now: "1200 < unat now"
  then have c: "\<not> sat_sub now PENDING_TTL_SECS < now - PENDING_TTL_SECS - 1"
    by (simp add: word_less_nat_alt unat_sat_sub PENDING_TTL_SECS_def unat_sub word_le_nat_alt)
  show ?thesis using now fill_pending_queued [of now MAX_PENDING] c
    by (simp add: stale_pending_requests_are_evicted_def admit_pending_def prune_pending_def Let_def queued_def
        filter_map o_def filter_False MAX_PENDING_def)
qed

lemma length_delete_exact: "distinct (map fst xs) \<Longrightarrow> k \<in> fst ` set xs \<Longrightarrow> Suc (length (AList.delete k xs)) = length xs"
proof (induction xs)
  case (Cons e xs)
  show ?case
  proof (cases "fst e = k")
    case True
    then have "AList.delete k xs = xs" using Cons.prems(1) by (intro delete_id) auto
    then show ?thesis using True by (cases e) simp
  qed (use Cons in \<open>cases e; auto\<close>)
qed simp

lemma decisions_kept:
  assumes "n \<le> 266"
  shows "let d = decisions (fold (\<lambda>i. remember_decision now (hex16 i) resp) [0 ..< n] pairing_default) in
    distinct (map fst d) \<and> fst ` set d \<subseteq> hex16 ` {0 ..< n} \<and> length d = min n MAX_DECISIONS"
  using assms
proof (induction n)
  case (Suc n)
  define p where "p = fold (\<lambda>i. remember_decision now (hex16 i) resp) [0 ..< n] pairing_default"
  let ?d = "decisions p" and ?k = "fst (arg_min_list (\<lambda>e. snd (snd e)) (decisions p))"
  have IH: "distinct (map fst ?d)" "fst ` set ?d \<subseteq> hex16 ` {0 ..< n}" "length ?d = min n MAX_DECISIONS"
    using Suc by (simp_all add: Let_def p_def)
  have new: "map_of ?d (hex16 n) = None"
    unfolding map_of_eq_None_iff
  proof
    assume "hex16 n \<in> fst ` set ?d"
    then obtain j where "j < n" "hex16 n = hex16 j" using IH(2) by (metis (no_types, lifting) atLeastLessThan_iff imageE subsetD)
    then show False using hex16_inj [of n j] Suc.prems by simp
  qed
  define d where "d = (if MAX_DECISIONS \<le> length ?d then AList.delete ?k ?d else ?d)"
  have "?k \<in> fst ` set ?d" if "MAX_DECISIONS \<le> length ?d"
  proof -
    have "?d \<noteq> []" using that by (auto simp: MAX_DECISIONS_def)
    then show ?thesis by (intro imageI arg_min_list_in)
  qed
  then have d: "distinct (map fst d)" "set d \<subseteq> set ?d" "Suc (length d) = min (Suc n) MAX_DECISIONS"
    using IH length_delete_exact [OF IH(1), of ?k] delete_set_sub [of ?k ?d]
    by (auto simp: d_def distinct_delete min_def)
  then have "map_of d (hex16 n) = None" using new by (auto simp: map_of_eq_None_iff)
  moreover have "decisions (remember_decision now (hex16 n) resp p) = AList.update (hex16 n) (resp, now) d"
    using new by (auto simp: remember_decision_def Let_def d_def MAX_DECISIONS_def)
  ultimately have "decisions (remember_decision now (hex16 n) resp p) = d @ [(hex16 n, resp, now)]"
    by (simp add: update_new)
  moreover have "hex16 n \<notin> fst ` set d" using new d(2) by (auto simp: map_of_eq_None_iff)
  moreover have "fst ` set d \<subseteq> hex16 ` {0 ..< Suc n}"
    using image_mono [OF d(2), of fst] IH(2) by (auto simp: atLeast0_lessThan_Suc)
  ultimately show ?case using d by (simp add: Let_def p_def [symmetric])
qed (simp add: pairing_default_def)

lemma decisions_bounded_test: "decisions_map_is_bounded now"
  using decisions_kept [of 266 now "\<lparr>ps_status = Approved, ps_expires_unix = None\<rparr>"]
  by (simp add: decisions_map_is_bounded_def Let_def MAX_DECISIONS_def)

section \<open>The owner's server\<close>

definition accepts_local_hosts_on_admin_port :: bool where
  "accepts_local_hosts_on_admin_port \<longleftrightarrow> list_all (\<lambda>a. authority_allowed a 37656)
     [''127.0.0.1:37656'', ''localhost:37656'', ''LOCALHOST:37656'', ''127.0.0.1:37656'', ''http://127.0.0.1:37656'',
      ''http://localhost:37656/some/path?x=1'', ''localhost.:37656'', '' localhost:37656 '']"

lemma accepts_local_test: accepts_local_hosts_on_admin_port
  by code_simp

definition rejects_everything_else :: bool where
  "rejects_everything_else \<longleftrightarrow> list_all (\<lambda>a. \<not> authority_allowed a 37656)
     [''evil.example.com:37656'', ''http://evil.example.com'', ''127.0.0.1:37655'', ''localhost:9999'', ''127.0.0.1'', [],
      ''null'', ''127.0.0.1.evil.com:37656'', ''evillhost:37656'']"

lemma rejects_else_test: rejects_everything_else
  by code_simp

definition preview_mime_covers_common_types :: bool where
  "preview_mime_covers_common_types \<longleftrightarrow> preview_mime ''docs/report.pdf'' = ''application/pdf''
     \<and> preview_mime ''img/pic.PNG'' = ''image/png'' \<and> preview_mime ''a/b/song.mp3'' = ''audio/mpeg''
     \<and> preview_mime ''clip.webm'' = ''video/webm'' \<and> preview_mime ''notes.md'' = ''text/plain; charset=utf-8''
     \<and> preview_mime ''evil.html'' = ''text/plain; charset=utf-8'' \<and> preview_mime ''doc.docx'' = ''application/octet-stream''
     \<and> preview_mime ''noext'' = ''application/octet-stream''"

lemma preview_mime_test: preview_mime_covers_common_types
  by code_simp

definition exact_drop_from_scoped_grant :: bool where
  "exact_drop_from_scoped_grant \<longleftrightarrow> subtract_from_scope [''docs'', ''a.txt''] ''a.txt'' (\<lambda>_. None) = Some [''docs'']"

definition full_access_narrows_to_root_minus_branch :: bool where
  "full_access_narrows_to_root_minus_branch \<longleftrightarrow> subtract_from_scope [] ''private/secret.txt''
     (map_of [([], [''docs'', ''private'', ''z.txt'']), (''private'', [''private/secret.txt''])]) = Some [''docs'', ''z.txt'']"

definition covering_parent_expands_to_siblings :: bool where
  "covering_parent_expands_to_siblings \<longleftrightarrow> subtract_from_scope [''docs''] ''docs/a.txt''
     (map_of [(''docs'', [''docs/a.txt'', ''docs/b'', ''docs/c.txt''])]) = Some [''docs/b'', ''docs/c.txt'']"

definition no_coverage_is_a_noop :: bool where
  "no_coverage_is_a_noop \<longleftrightarrow> subtract_from_scope [''other''] ''docs/a.txt'' (\<lambda>_. None) = None"

definition emptied_scope_becomes_no_access_not_full :: bool where
  "emptied_scope_becomes_no_access_not_full \<longleftrightarrow> subtract_from_scope [''docs''] ''docs/gone.txt''
     (map_of [(''docs'', [''docs/gone.txt''])]) = Some [NO_ACCESS]"

definition deep_target_expands_every_level :: bool where
  "deep_target_expands_every_level \<longleftrightarrow> subtract_from_scope [] ''drop/nested/file.bin''
     (map_of [([], [''keep'', ''drop'']), (''drop'', [''drop/nested'']),
       (''drop/nested'', [''drop/nested/file.bin'', ''drop/nested/sibling.txt''])]) = Some [''keep'', ''drop/nested/sibling.txt'']"

definition missing_listing_fails_closed :: bool where
  "missing_listing_fails_closed \<longleftrightarrow> subtract_from_scope [''docs''] ''docs/a.txt'' (\<lambda>_. None) = None"

lemma share_scope_tests: "exact_drop_from_scoped_grant \<and> full_access_narrows_to_root_minus_branch
    \<and> covering_parent_expands_to_siblings \<and> no_coverage_is_a_noop \<and> emptied_scope_becomes_no_access_not_full
    \<and> deep_target_expands_every_level \<and> missing_listing_fails_closed"
  by code_simp

section \<open>Peers and versions\<close>

definition unsupported_route_detection :: bool where
  "unsupported_route_detection \<longleftrightarrow> is_unsupported_route NOT_FOUND [] \<and> is_unsupported_route NOT_FOUND ''   ''
     \<and> \<not> is_unsupported_route NOT_FOUND ''not found'' \<and> \<not> is_unsupported_route NOT_FOUND ''{}''
     \<and> \<not> is_unsupported_route NOT_FOUND ''<html>404</html>'' \<and> \<not> is_unsupported_route BAD_GATEWAY []
     \<and> \<not> is_unsupported_route 200 []"

lemma unsupported_route_test: unsupported_route_detection
  by code_simp

definition unsupported_peer_variant_is_501 :: bool where
  "unsupported_peer_variant_is_501 \<longleftrightarrow> he_status (proxy_response UnsupportedPeer) = 501"

lemma unsupported_variant_test: unsupported_peer_variant_is_501
  by (simp add: unsupported_peer_variant_is_501_def err_def NOT_IMPLEMENTED_def)

definition version_parsing_and_comparison :: bool where
  "version_parsing_and_comparison \<longleftrightarrow> parse_version ''0.2.0'' = Some (0, 2, 0) \<and> parse_version ''v0.3.1'' = Some (0, 3, 1)
     \<and> parse_version ''1'' = Some (1, 0, 0) \<and> parse_version ''2.5'' = Some (2, 5, 0)
     \<and> parse_version [] = None \<and> parse_version ''nope'' = None
     \<and> version_gt ''0.3.0'' ''0.2.0'' \<and> version_gt ''1.0.0'' ''0.9.9'' \<and> version_gt ''v0.9.0'' ''0.8.1''
     \<and> \<not> version_gt ''0.2.0'' ''0.2.0'' \<and> \<not> version_gt ''0.1.9'' ''0.2.0'' \<and> version_gt ''0.3.0'' ''garbage''"

lemma version_test: version_parsing_and_comparison
  by code_simp

definition expires_unix_parses_known_utc_timestamps :: bool where
  "expires_unix_parses_known_utc_timestamps \<longleftrightarrow> expires_unix ''2026-09-26 14:34:45'' = Some 1790433285
     \<and> expires_unix ''1970-01-01 00:00:00'' = Some 0 \<and> expires_unix ''bad'' = None"

lemma expires_test: expires_unix_parses_known_utc_timestamps
  by code_simp

section \<open>Events and stores\<close>

definition ids_are_monotonic_and_since_filters :: "u64 \<Rightarrow> bool" where
  "ids_are_monotonic_and_since_filters now \<longleftrightarrow> (let
     (a, e) = push now ''pair-request'' ''t1'' ''b1'' events_default; (b, e) = push now ''grant-expiring'' ''t2'' ''b2'' e
   in ev_id a = 1 \<and> ev_id b = 2 \<and> length (since 0 e) = 2 \<and> since (ev_id a) e = [b] \<and> since (ev_id b) e = [])"

definition ring_buffer_caps_at_capacity :: "u64 \<Rightarrow> bool" where
  "ring_buffer_caps_at_capacity now \<longleftrightarrow> (let
     e = push_all (map (\<lambda>i. (now, ''pair-request'', CHR ''t'' # show_nat i, [])) [0 ..< CAP + 25]) events_default;
     newest = since (of_nat CAP) e
   in length (items e) = CAP \<and> length newest = 25 \<and> ev_title (last newest) = ''t124'')"

definition expiry_claim_is_once_per_pair :: bool where
  "expiry_claim_is_once_per_pair \<longleftrightarrow> (let
     (a, e) = claim_expiry ''fp'' 100 events_default; (b, e) = claim_expiry ''fp'' 100 e;
     (c, e) = claim_expiry ''fp'' 200 e; (d, e) = claim_expiry ''other'' 100 e
   in a \<and> \<not> b \<and> c \<and> d)"

lemma event_tests: "ids_are_monotonic_and_since_filters 0" expiry_claim_is_once_per_pair
  by code_simp+

lemma push_all_snoc: "push_all (ps @ [(now, k, t, b)]) e = snd (push now k t b (push_all ps e))"
  by (induction ps e rule: push_all.induct) simp_all

lemma ring_buffer_test: "ring_buffer_caps_at_capacity now"
proof -
  define ps where "ps = map (\<lambda>i. (now, ''pair-request'', CHR ''t'' # show_nat i, [] :: string)) [0 ..< 124]"
  define e where "e = push_all (ps @ [(now, ''pair-request'', CHR ''t'' # show_nat 124, [])]) events_default"
  have l: "length ps = 124" by (simp add: ps_def)
  have r: "ring_ok e \<and> unat (next_id e) = 125"
    using push_all_ring [OF ring_ok_default, of "ps @ [(now, ''pair-request'', CHR ''t'' # show_nat 124, [])]"] l
    by (simp add: e_def events_default_def)
  have i: "length (items e) = CAP"
    using push_all_items [of events_default "ps @ [(now, ''pair-request'', CHR ''t'' # show_nat 124, [])]"] l
    by (simp add: e_def events_default_def CAP_def)
  have ids: "map (\<lambda>v. unat (ev_id v)) (since (of_nat CAP) e) = [101 ..< 126]"
    using since_ids [of e "of_nat CAP"] r i by (simp add: CAP_def)
  have n: "length (since (of_nat CAP) e) = 25"
    using arg_cong [OF ids, of length] by (simp only: length_map length_upt)
  have "items e \<noteq> [] \<and> ev_title (last (items e)) = CHR ''t'' # show_nat 124"
    unfolding e_def push_all_snoc push_def Let_def pop_to_cap_drop by (simp add: CAP_def last_drop)
  moreover have "show_nat 124 = ''124''" by code_simp
  ultimately have "\<exists>es ev. items e = es @ [ev] \<and> ev_title ev = ''t124''"
    by (metis append_butlast_last_id)
  then obtain es ev where ev: "items e = es @ [ev]" "ev_title ev = ''t124''" by blast
  have "last (since (of_nat CAP) e) = ev"
  proof -
    have "map (\<lambda>v. unat (ev_id v)) (items e) = [26 ..< 126]"
      using r i by (simp add: ring_ok_def CAP_def)
    then have "last (map (\<lambda>v. unat (ev_id v)) (items e)) = 125" by (simp add: last_conv_nth)
    then have "unat (ev_id ev) = 125" using ev(1) by simp
    then have "(of_nat CAP :: u64) < ev_id ev" by (simp add: word_less_nat_alt CAP_def)
    then show ?thesis using ev(1) by (simp add: since_def)
  qed
  moreover have "map (\<lambda>i. (now, ''pair-request'', CHR ''t'' # show_nat i, [] :: string)) [0 ..< CAP + 25]
      = ps @ [(now, ''pair-request'', CHR ''t'' # show_nat 124, [])]"
    using upt_Suc_append [of 0 124] by (simp add: ps_def CAP_def del: upt_rec)
  ultimately show ?thesis using i n ev(2) by (simp add: ring_buffer_caps_at_capacity_def e_def Let_def)
qed

definition test_grant :: "string \<Rightarrow> u64 option \<Rightarrow> grant" where
  "test_grant fp expires = \<lparr>g_fingerprint = fp, g_node_id = ''node-'' @ fp, g_name = ''n'', g_granted_unix = 1000,
     g_expires_unix = expires, g_paths = [], g_allow_files = True, g_allow_print = False\<rparr>"

definition upsert_replaces_by_fingerprint :: bool where
  "upsert_replaces_by_fingerprint \<longleftrightarrow> (let
     f = grants_upsert (test_grant ''bb'' None) (grants_upsert (test_grant ''aa'' None) []);
     f' = grants_upsert (test_grant ''aa'' (Some 5000)) f
   in length f = 2 \<and> length f' = 2
     \<and> map_option g_expires_unix (List.find (\<lambda>g. g_fingerprint g = ''aa'') f') = Some (Some 5000))"

definition prune_expired_keeps_open_and_future_grants :: bool where
  "prune_expired_keeps_open_and_future_grants \<longleftrightarrow> (let
     f = grants_upsert (test_grant ''past'' (Some 999)) (grants_upsert (test_grant ''future'' (Some 2000))
       (grants_upsert (test_grant ''open'' None) []));
     (changed, f) = prune_expired 1500 f; (again, f) = prune_expired 1500 f
   in changed \<and> map g_fingerprint f = [''open'', ''future''] \<and> \<not> again)"

definition contacts_upsert_and_remove_by_node_id :: bool where
  "contacts_upsert_and_remove_by_node_id \<longleftrightarrow> (let
     c = contacts_upsert \<lparr>c_node_id = ''n1'', c_alias = ''A'', c_fingerprint = ''f1'', c_host = None, c_status = ''pending''\<rparr> [];
     c = contacts_upsert \<lparr>c_node_id = ''n1'', c_alias = ''A2'', c_fingerprint = ''f1'', c_host = None, c_status = ''approved''\<rparr> c;
     (first, c') = contacts_remove ''n1'' c; (second, c'') = contacts_remove ''n1'' c'
   in map c_alias c = [''A2''] \<and> first \<and> \<not> second)"

lemma store_tests: upsert_replaces_by_fingerprint prune_expired_keeps_open_and_future_grants
    contacts_upsert_and_remove_by_node_id
  by code_simp+

end
