(* ===== verification/DiskTests.thy ===== *)
theory DiskTests
  imports UnitTests
begin

text \<open>The repository's unit tests of the share (@<share.rs>), the inbox (@<inbox.rs>) and the search (@<server.rs>),
  translated as in @<UnitTests>. Their fixtures are file systems of the
  model, built with its operations; the directory for temporary files is @<C:/t>, and no operation fails.\<close>

section \<open>The share\<close>

definition tmp_fs :: fsys where
  "tmp_fs = \<lparr>fs_nodes = [([''C''], FDir None), ([''C'', ''t''], FDir None)], fs_denied = []\<rparr>"

definition io_done :: "nat \<Rightarrow> io_out" where "io_done = (\<lambda>_. Done)"

definition made_dir :: "path \<Rightarrow> fsys \<Rightarrow> fsys" where
  "made_dir p fs = snd (fs_create_dir_all Done 0 p fs)"

definition wrote :: "path \<Rightarrow> bytes \<Rightarrow> fsys \<Rightarrow> fsys" where
  "wrote p b fs = snd (fs_write Done 0 p b fs)"

text \<open>A fresh share root with the file @<a/b.txt> and the empty directory @<c>.\<close>

definition share_fixture :: "share_root \<times> fsys" where
  "share_fixture = (let dir = [''C'', ''t'', ''r'']; (root, fs) = share_new Done 0 dir tmp_fs in
     (case root of Inl _ \<Rightarrow> \<lparr>sh_root = []\<rparr> | Inr r \<Rightarrow> r,
      made_dir (dir @ [''c'']) (wrote (dir @ [''a'', ''b.txt'']) ''hello'' (made_dir (dir @ [''a'']) fs))))"

definition share_resolve :: "string \<Rightarrow> share_error + path" where
  "share_resolve rel = resolve (snd share_fixture) (fst share_fixture) rel"

definition resolve_accepts_normal_paths :: bool where
  "resolve_accepts_normal_paths \<longleftrightarrow> share_resolve ''a/b.txt'' = Inr [''C'', ''t'', ''r'', ''a'', ''b.txt'']
     \<and> share_resolve ''a'' = Inr [''C'', ''t'', ''r'', ''a''] \<and> share_resolve [] = Inr [''C'', ''t'', ''r'']"

definition resolve_rejects_traversal :: bool where
  "resolve_rejects_traversal \<longleftrightarrow> list_all (\<lambda>bad. share_resolve bad = Inl OutsideRoot)
     [''../x'', ''a/../../x'', ''..'', ''a/../..'']"

definition resolve_rejects_absolute_and_prefixes :: bool where
  "resolve_rejects_absolute_and_prefixes \<longleftrightarrow> (let b = CHR 0x5C in
     list_all (\<lambda>bad. case share_resolve bad of Inl OutsideRoot \<Rightarrow> True | Inl (NotFound _) \<Rightarrow> True | _ \<Rightarrow> False)
       [''C:/Windows'', ''C:'' @ b # ''Windows'', b # b # ''?'' @ b # ''C:'' @ b # ''Windows'',
        b # b # ''server'' @ b # ''share'', ''/etc/passwd''])"

definition resolve_rejects_alternate_data_stream_selectors :: bool where
  "resolve_rejects_alternate_data_stream_selectors \<longleftrightarrow> list_all (\<lambda>bad. share_resolve bad = Inl OutsideRoot)
     [''a/b.txt:hidden'', '':ads'', ''a:stream'', ''a/b.txt:Zone.Identifier:$DATA'']"

definition resolve_rejects_symlink_escaping_root :: bool where
  "resolve_rejects_symlink_escaping_root \<longleftrightarrow> (let (root, fs) = share_fixture;
     fs = fs_put (sh_root root @ [''leak'']) (FLink [''C'', ''t'', ''outside'']) (made_dir [''C'', ''t'', ''outside''] fs)
   in resolve fs root ''leak'' = Inl OutsideRoot)"

lemma resolve_tests: resolve_accepts_normal_paths resolve_rejects_traversal resolve_rejects_absolute_and_prefixes
    resolve_rejects_alternate_data_stream_selectors resolve_rejects_symlink_escaping_root
  by code_simp+

definition delete_refuses_share_root :: bool where
  "delete_refuses_share_root \<longleftrightarrow> (let (root, fs) = share_fixture in
     fst (share_delete Done root [] fs) = Inl IsRoot \<and> fst (share_delete Done root ''.'' fs) = Inl IsRoot)"

definition list_sorts_dirs_first_and_reports_metadata :: bool where
  "list_sorts_dirs_first_and_reports_metadata \<longleftrightarrow> (let (root, fs) = share_fixture in
     (case (share_list demo_ext fs root [], share_list demo_ext fs root ''a'') of
        (Inr es, Inr inner) \<Rightarrow> length es = 2 \<and> de_kind (hd es) = Dir \<and> de_path (hd es) = ''a''
          \<and> map de_name inner = [''b.txt''] \<and> map de_size inner = [5]
      | _ \<Rightarrow> False))"

definition list_rejects_traversal :: bool where
  "list_rejects_traversal \<longleftrightarrow> (let (root, fs) = share_fixture in share_list demo_ext fs root ''../'' = Inl OutsideRoot)"

lemma share_tests: delete_refuses_share_root list_sorts_dirs_first_and_reports_metadata list_rejects_traversal
  by code_simp+

section \<open>The search\<close>

definition search_fixture :: "share_root \<times> fsys" where
  "search_fixture = (let dir = [''C'', ''t'', ''q''];
     fs = made_dir (dir @ [''media'']) (made_dir (dir @ [''docs'', ''deep'']) tmp_fs);
     fs = wrote (dir @ [''docs'', ''invoice-feb.txt'']) ''b'' (wrote (dir @ [''Invoice-jan.txt'']) ''a'' fs);
     fs = wrote (dir @ [''media'', ''song.mp3'']) ''d'' (wrote (dir @ [''docs'', ''deep'', ''INVOICE Q1.pdf'']) ''c'' fs);
     (root, fs) = share_new Done 0 dir fs
   in (case root of Inl _ \<Rightarrow> \<lparr>sh_root = []\<rparr> | Inr r \<Rightarrow> r, fs))"

text \<open>The first test sorts the paths it found before it compares them; here they are compared as a set, with
  their number.\<close>

definition full_access_finds_matches_case_insensitive_across_depths :: bool where
  "full_access_finds_matches_case_insensitive_across_depths \<longleftrightarrow> (let (root, fs) = search_fixture;
     (res, trunc) = search_scope demo_ext fs root [] ''invoice'' in
     \<not> trunc \<and> length res = 3
     \<and> set (map de_path res) = {''Invoice-jan.txt'', ''docs/deep/INVOICE Q1.pdf'', ''docs/invoice-feb.txt''})"

definition scoped_grant_only_walks_its_subtree :: bool where
  "scoped_grant_only_walks_its_subtree \<longleftrightarrow> (let (root, fs) = search_fixture in
     length (fst (search_scope demo_ext fs root [''docs''] ''invoice'')) = 2)"

definition no_match_yields_empty_not_truncated :: bool where
  "no_match_yields_empty_not_truncated \<longleftrightarrow> (let (root, fs) = search_fixture in
     search_scope demo_ext fs root [] ''zzzz'' = ([], False))"

lemma search_tests: full_access_finds_matches_case_insensitive_across_depths scoped_grant_only_walks_its_subtree
    no_match_yields_empty_not_truncated
  by code_simp+

section \<open>The inbox\<close>

definition valid_name_whitelist :: bool where
  "valid_name_whitelist \<longleftrightarrow> valid_name ''hello.txt'' \<and> valid_name ''report final.pdf'' \<and> valid_name ''x-1_y.z''
     \<and> valid_name (CHR 0xC3 # CHR 0xB1 # '' '' @ CHR 0xC3 # CHR 0xA7 # ''af'' @ CHR 0xC3 # CHR 0xA9 # ''.odt'')"

definition valid_name_rejects_hostile_input :: bool where
  "valid_name_rejects_hostile_input \<longleftrightarrow> (let b = CHR 0x5C in list_all (\<lambda>bad. \<not> valid_name bad)
     [[], ''.'', ''..'', ''.hidden'', ''a.'', '' a'', ''a '', ''a.b.txt '', ''../x'', ''a/../../x'', ''a'' @ b # ''b'', ''a/b'',
      ''C:/x'', ''C:'' @ b # ''x'', ''a:b'', ''a*b'', ''a?b'', ''a<b'', ''a>b'', ''a|b'', ''a'' @ CHR 0x22 # ''b'',
      ''a'' @ CHR 0x00 # ''b'', ''x.doclink.json'', ''.x.doclink.json''])"

lemma valid_name_tests: valid_name_whitelist valid_name_rejects_hostile_input
  by code_simp+

definition inbox_fixture :: "inbox_root \<times> fsys" where
  "inbox_fixture = (let (root, fs) = inbox_new Done 0 [''C'', ''t'', ''b''] tmp_fs in
     (case root of Inl _ \<Rightarrow> \<lparr>ib_root = []\<rparr> | Inr r \<Rightarrow> r, fs))"

definition no_sender :: inbox_meta where
  "no_sender = \<lparr>im_from = None, im_from_node_id = None, im_received_unix = None\<rparr>"

text \<open>A file format that can write and read one sender besides the unknown one.\<close>

definition sender_codec :: "inbox_meta \<Rightarrow> inbox_meta codec" where
  "sender_codec m = \<lparr>cd_ser = (\<lambda>m'. Some (if m' = m then ''m'' else [])),
     cd_de = (\<lambda>s. Some (if s = ''m'' then m else no_sender)), cd_default = no_sender\<rparr>"

definition put_file :: "inbox_meta \<Rightarrow> inbox_root \<Rightarrow> string \<Rightarrow> bytes \<Rightarrow> fsys \<Rightarrow> (inbox_error + string) \<times> fsys" where
  "put_file m r nm b fs = write_file (sender_codec m) io_done 0 r nm b m fs"

text \<open>What a listing shows of the entries, none if it fails.\<close>

definition in_inbox :: "(inbox_entry \<Rightarrow> 'a) \<Rightarrow> inbox_meta \<Rightarrow> inbox_root \<Rightarrow> fsys \<Rightarrow> 'a list option" where
  "in_inbox f m r fs = (case inbox_list (sender_codec m) fs r of Inl _ \<Rightarrow> None | Inr es \<Rightarrow> Some (map f es))"

definition write_list_roundtrip_carries_sender_meta :: bool where
  "write_list_roundtrip_carries_sender_meta \<longleftrightarrow> (let (root, fs) = inbox_fixture;
     meta = \<lparr>im_from = Some ''Living Room'', im_from_node_id = Some ''abc'', im_received_unix = Some 42\<rparr>;
     (stored, fs) = put_file meta root ''hello.txt'' ''hi there'' fs;
     shown = in_inbox (\<lambda>e. (ie_name e, ie_size e, ie_from e, ie_from_node_id e, ie_received_unix e)) meta root fs
   in stored = Inr ''hello.txt'' \<and> read_file fs (ib_root root @ [''hello.txt'']) = Some ''hi there''
     \<and> shown = Some [(''hello.txt'', 8, Some ''Living Room'', Some ''abc'', Some 42)])"

definition write_sidecar_is_written_and_duplicated_names_dedupe :: bool where
  "write_sidecar_is_written_and_duplicated_names_dedupe \<longleftrightarrow> (let (root, fs) = inbox_fixture;
     (a, fs) = put_file no_sender root ''a.txt'' ''one'' fs; (b, fs) = put_file no_sender root ''a.txt'' ''two'' fs
   in a = Inr ''a.txt'' \<and> b = Inr ''a (1).txt'' \<and> read_file fs (ib_root root @ [''a.txt'']) = Some ''one''
     \<and> read_file fs (ib_root root @ [''a (1).txt'']) = Some ''two''
     \<and> read_file fs (ib_root root @ [''a.txt.doclink.json'']) \<noteq> None)"

definition written_twice :: "inbox_root \<times> fsys" where
  "written_twice = (let (root, fs) = inbox_fixture;
     fs = snd (put_file no_sender root ''a.txt'' ''two'' (snd (put_file no_sender root ''a.txt'' ''one'' fs)))
   in (root, fs))"

definition write_leaves_no_temp_residue :: bool where
  "write_leaves_no_temp_residue \<longleftrightarrow> (let (root, fs) = written_twice in
     case in_inbox ie_name no_sender root fs of None \<Rightarrow> False
     | Some names \<Rightarrow> length names = 2 \<and> list_all (\<lambda>w. \<not> prefix ''.'' w) names)"

definition accept_moves_into_share_and_cleans_sidecar :: bool where
  "accept_moves_into_share_and_cleans_sidecar \<longleftrightarrow> (let (root, fs) = inbox_fixture; dest = [''C'', ''t'', ''d''];
     meta = \<lparr>im_from = Some ''bob'', im_from_node_id = Some ''n1'', im_received_unix = Some 1\<rparr>;
     fs = made_dir dest (snd (put_file meta root ''notes.txt'' ''notes'' fs));
     (moved, fs) = inbox_accept io_done 0 root ''notes.txt'' dest fs
   in moved = Inr ''notes.txt'' \<and> read_file fs (dest @ [''notes.txt'']) = Some ''notes'' \<and> in_inbox ie_name meta root fs = Some []
     \<and> fs_get fs (dest @ [''notes.txt.doclink.json'']) = None)"

definition same_name_fixture :: "path \<Rightarrow> inbox_root \<times> fsys" where
  "same_name_fixture dest = (let (root, fs) = inbox_fixture; fs = wrote (dest @ [''a.txt'']) ''existing'' (made_dir dest fs)
   in (root, snd (put_file no_sender root ''a.txt'' ''new'' fs)))"

definition accept_dedupes_when_share_has_same_name :: bool where
  "accept_dedupes_when_share_has_same_name \<longleftrightarrow> (let dest = [''C'', ''t'', ''d'']; (root, fs) = same_name_fixture dest;
     (moved, fs) = inbox_accept io_done 0 root ''a.txt'' dest fs
   in moved = Inr ''a (1).txt'' \<and> read_file fs (dest @ [''a (1).txt'']) = Some ''new''
     \<and> read_file fs (dest @ [''a.txt'']) = Some ''existing'')"

definition keep_drop_fixture :: "inbox_root \<times> fsys" where
  "keep_drop_fixture = (let (root, fs) = inbox_fixture; fs = snd (put_file no_sender root ''keep.txt'' ''k'' fs)
   in (root, snd (put_file no_sender root ''drop.txt'' ''d'' fs)))"

definition remove_deletes_file_and_sidecar_only :: bool where
  "remove_deletes_file_and_sidecar_only \<longleftrightarrow> (let (root, fs) = keep_drop_fixture;
     (gone, fs) = inbox_remove io_done root ''drop.txt'' fs
   in gone = Inr () \<and> in_inbox ie_name no_sender root fs = Some [''keep.txt'']
     \<and> fs_get fs (ib_root root @ [''drop.txt.doclink.json'']) = None)"

definition resolve_rejects_bad_names_missing_and_symlinks :: bool where
  "resolve_rejects_bad_names_missing_and_symlinks \<longleftrightarrow> (let (root, fs) = inbox_fixture;
     before = fs;
     fs = snd (put_file no_sender root ''real.txt'' ''x'' fs);
     linked = fs_put (ib_root root @ [''link.txt'']) (FLink [''C'', ''t'', ''out'']) (wrote [''C'', ''t'', ''out''] ''out'' fs)
   in inbox_resolve before root ''../x'' = Inl InvalidName \<and> inbox_resolve before root ''nope.txt'' = Inl (InboxNotFound ''nope.txt'')
     \<and> inbox_resolve fs root ''real.txt'' = Inr (ib_root root @ [''real.txt''])
     \<and> inbox_resolve linked root ''link.txt'' = Inl (InboxNotFound ''link.txt'')
     \<and> (case in_inbox ie_name no_sender root linked of None \<Rightarrow> False | Some names \<Rightarrow> ''link.txt'' \<notin> set names))"

definition manual_files_without_sidecar_list_with_unknown_sender :: bool where
  "manual_files_without_sidecar_list_with_unknown_sender \<longleftrightarrow> (let (root, fs) = inbox_fixture;
     fs = wrote (ib_root root @ [''manual.bin'']) ''raw'' fs;
     shown = in_inbox (\<lambda>e. (ie_name e, ie_from e, ie_received_unix e)) no_sender root fs;
     dest = ib_root root @ [''out''];
     (moved, fs') = inbox_accept io_done 0 root ''manual.bin'' dest (made_dir dest fs)
   in shown = Some [(''manual.bin'', None, None)]
     \<and> moved = Inr ''manual.bin'' \<and> read_file fs' (dest @ [''manual.bin'']) = Some ''raw'' \<and> in_inbox ie_name no_sender root fs' = Some [])"

lemma inbox_write_test: write_list_roundtrip_carries_sender_meta
  by code_simp

lemma inbox_sidecar_test: write_sidecar_is_written_and_duplicated_names_dedupe
  by code_simp

lemma inbox_residue_test: write_leaves_no_temp_residue
  by code_simp

lemma inbox_accept_test: accept_moves_into_share_and_cleans_sidecar
  by code_simp

lemma inbox_accept_dedupe_test: accept_dedupes_when_share_has_same_name
  by code_simp

lemma inbox_remove_test: remove_deletes_file_and_sidecar_only
  by code_simp

lemma inbox_resolve_test: resolve_rejects_bad_names_missing_and_symlinks
  by code_simp

lemma inbox_manual_test: manual_files_without_sidecar_list_with_unknown_sender
  by code_simp

end
