(* ===== verification/LawTests.thy ===== *)
theory LawTests
  imports Auth
begin

text \<open>The unit tests that rest on third-party code, translated: those of @<doclinkd/src/auth.rs> and of
  @<doclink-core/src/identity.rs>, of the sealed print jobs (@<local_print.rs>) and of the stores on the disk
  (@<store.rs>). Each definition asserts what its test asserts, for whatever keys the identities draw, whatever the
  clock reads and whatever that code computes; the lemmas prove them under its laws and, where a test relies on
  a signature that does not verify or on signatures that differ, under that.\<close>

section \<open>Fixtures\<close>

definition no_files :: disk where "no_files = \<lparr>main_file = None, tmp_file = None\<rparr>"

text \<open>A fresh node, with the identity of the given key.\<close>

definition test_state :: "ext \<Rightarrow> bytes \<Rightarrow> node \<times> node_identity" where
  "test_state x k = (let i = \<lparr>signing_key = k\<rparr> in
     (node_new \<lparr>ni_node_id = node_id x i, ni_name = ''test-node'', ni_version = ''0.2'',
          ni_fingerprint = fingerprint x i, ni_app_version = ''0.0.0-test''\<rparr>
        \<lparr>sh_root = [''C'', ''t'', ''shared'']\<rparr> \<lparr>ib_root = [''C'', ''t'', ''inbox'']\<rparr> (1024 * 1024)
        \<lparr>st_data = [], st_disk = no_files\<rparr> \<lparr>st_data = [], st_disk = no_files\<rparr> pairing_default events_default
        \<lparr>st_data = None, st_disk = no_files\<rparr> i \<lparr>fs_nodes = [([''C''], FDir None), ([''C'', ''t''], FDir None)], fs_denied = []\<rparr>,
      i))"

definition signed_with :: "ext \<Rightarrow> node_identity \<Rightarrow> string \<Rightarrow> string \<Rightarrow> u64 \<Rightarrow> string \<Rightarrow> bytes" where
  "signed_with x i method path_q ts nonce =
     sign x i (method @ [nl] @ path_q @ [nl] @ show_u64 ts @ [nl] @ nonce @ [nl])"

definition header_map :: "string \<Rightarrow> string \<Rightarrow> string \<Rightarrow> string \<Rightarrow> string \<Rightarrow> headers" where
  "header_map nid pk ts nonce sg = map_of [(''x-doclink-node'', nid), (''x-doclink-pub'', pk), (''x-doclink-ts'', ts),
     (''x-doclink-nonce'', nonce), (''x-doclink-sig'', sg)]"

fun flip_first :: "bytes \<Rightarrow> bytes" where
  "flip_first [] = []"
| "flip_first (c # b) = char_of (xor (byte_of c) 255) # b"

definition headers_for :: "ext \<Rightarrow> node_identity \<Rightarrow> string \<Rightarrow> string \<Rightarrow> u64 \<Rightarrow> bool \<Rightarrow> headers" where
  "headers_for x i method path_q ts tamper_sig = (let
     nonce = ''0123456789abcdef'';
     sg = signed_with x i method path_q ts nonce;
     sg = (if tamper_sig then flip_first sg else sg)
   in header_map (node_id x i) (x_hex_encode x (verifying_key x i)) (show_u64 ts) nonce (x_hex_encode x sg))"

definition insert_grant :: "ext \<Rightarrow> u64 \<Rightarrow> node_identity \<Rightarrow> u64 option \<Rightarrow> node \<Rightarrow> node" where
  "insert_grant x now i expires s = (let
     g = \<lparr>g_fingerprint = fingerprint x i, g_node_id = node_id x i, g_name = ''grantee'', g_granted_unix = now - 60,
       g_expires_unix = expires, g_paths = [], g_allow_files = True, g_allow_print = False\<rparr>
   in s\<lparr>nd_grants := (nd_grants s)\<lparr>st_data := grants_upsert g (grants_of s)\<rparr>\<rparr>)"

definition PATH_Q :: string where "PATH_Q = ''/v1/list?path=''"

abbreviation asks :: "ext \<Rightarrow> u64 \<Rightarrow> headers \<Rightarrow> node \<Rightarrow> (auth_error + grant) \<times> node" where
  "asks x now h s \<equiv> require_auth x (\<lambda>_. now) h ''GET'' PATH_Q [] s"

definition refused :: "nat \<Rightarrow> string option \<Rightarrow> (auth_error + grant) \<times> node \<Rightarrow> bool" where
  "refused st c r \<longleftrightarrow> (case fst r of Inr _ \<Rightarrow> False
     | Inl e \<Rightarrow> ae_status e = st \<and> (case c of None \<Rightarrow> True | Some k \<Rightarrow> ae_code e = k))"

section \<open>The tests\<close>

definition accepts_valid_signed_request :: "ext \<Rightarrow> bytes \<Rightarrow> u64 \<Rightarrow> bool" where
  "accepts_valid_signed_request x k now \<longleftrightarrow> (let (s, i) = test_state x k; s = insert_grant x now i None s;
     h = headers_for x i ''GET'' PATH_Q now False
   in case fst (asks x now h s) of Inl _ \<Rightarrow> False | Inr g \<Rightarrow> g_fingerprint g = fingerprint x i)"

definition rejects_missing_headers :: "ext \<Rightarrow> bytes \<Rightarrow> u64 \<Rightarrow> bool" where
  "rejects_missing_headers x k now \<longleftrightarrow> (let (s, i) = test_state x k; s = insert_grant x now i None s
   in refused UNAUTHORIZED (Some ''unauthenticated'') (asks x now Map.empty s))"

definition rejects_stale_timestamp :: "ext \<Rightarrow> bytes \<Rightarrow> u64 \<Rightarrow> bool" where
  "rejects_stale_timestamp x k now \<longleftrightarrow> (let (s, i) = test_state x k; s = insert_grant x now i None s;
     h = headers_for x i ''GET'' PATH_Q (now - MAX_SKEW_SECS - 5) False
   in refused UNAUTHORIZED None (asks x now h s))"

definition rejects_unknown_node :: "ext \<Rightarrow> bytes \<Rightarrow> u64 \<Rightarrow> bool" where
  "rejects_unknown_node x k now \<longleftrightarrow> (let (s, i) = test_state x k; h = headers_for x i ''GET'' PATH_Q now False
   in refused FORBIDDEN None (asks x now h s))"

definition rejects_expired_grant :: "ext \<Rightarrow> bytes \<Rightarrow> u64 \<Rightarrow> bool" where
  "rejects_expired_grant x k now \<longleftrightarrow> (let (s, i) = test_state x k; s = insert_grant x now i (Some (now - 10)) s;
     h = headers_for x i ''GET'' PATH_Q now False
   in refused FORBIDDEN (Some ''expired'') (asks x now h s))"

text \<open>The grant is the impostor's, and the request shows the impostor's node id with another key.\<close>

definition rejects_identity_swap :: "ext \<Rightarrow> bytes \<Rightarrow> bytes \<Rightarrow> u64 \<Rightarrow> bool" where
  "rejects_identity_swap x k k' now \<longleftrightarrow> (let (s, i) = test_state x k; impostor = \<lparr>signing_key = k'\<rparr>;
     s = insert_grant x now impostor None s;
     nonce = ''fedcba9876543210'';
     sg = signed_with x i ''GET'' PATH_Q now nonce;
     h = header_map (node_id x impostor) (x_hex_encode x (verifying_key x i)) (show_u64 now) nonce (x_hex_encode x sg)
   in refused FORBIDDEN (Some ''identity-changed'') (asks x now h s))"

definition rejects_tampered_signature :: "ext \<Rightarrow> bytes \<Rightarrow> u64 \<Rightarrow> bool" where
  "rejects_tampered_signature x k now \<longleftrightarrow> (let (s, i) = test_state x k; s = insert_grant x now i None s;
     h = headers_for x i ''GET'' PATH_Q now True
   in refused UNAUTHORIZED None (asks x now h s))"

definition rejects_signature_covering_different_path :: "ext \<Rightarrow> bytes \<Rightarrow> u64 \<Rightarrow> bool" where
  "rejects_signature_covering_different_path x k now \<longleftrightarrow> (let (s, i) = test_state x k; s = insert_grant x now i None s;
     h = headers_for x i ''GET'' ''/v1/list?path=docs'' now False
   in refused UNAUTHORIZED None (asks x now h s))"

definition rejects_replayed_request :: "ext \<Rightarrow> bytes \<Rightarrow> u64 \<Rightarrow> bool" where
  "rejects_replayed_request x k now \<longleftrightarrow> (let (s, i) = test_state x k; s = insert_grant x now i None s;
     h = headers_for x i ''GET'' PATH_Q now False; (r, s) = asks x now h s
   in \<not> isl r \<and> refused UNAUTHORIZED (Some ''replayed'') (asks x now h s))"

definition replay_cache_is_per_state :: "ext \<Rightarrow> bytes \<Rightarrow> bytes \<Rightarrow> u64 \<Rightarrow> bool" where
  "replay_cache_is_per_state x k k' now \<longleftrightarrow> (let (s1, i) = test_state x k; (s2, _) = test_state x k';
     s1 = insert_grant x now i None s1; s2 = insert_grant x now i None s2;
     h = headers_for x i ''GET'' PATH_Q now False; (r, s1) = asks x now h s1
   in \<not> isl r \<and> isl (fst (asks x now h s1)) \<and> \<not> isl (fst (asks x now h s2)))"

definition reports_pending_then_denied_before_unknown :: "ext \<Rightarrow> bytes \<Rightarrow> u64 \<Rightarrow> bool" where
  "reports_pending_then_denied_before_unknown x k now \<longleftrightarrow> (let (s, i) = test_state x k; nid = node_id x i;
     (r0, s) = asks x now (headers_for x i ''GET'' PATH_Q now False) s;
     req = \<lparr>pr_node_id = nid, pr_name = ''n'', pr_pubkey_hex = [], pr_requested_duration_secs = 0, pr_signature = []\<rparr>;
     s = s\<lparr>nd_pairing := (nd_pairing s)\<lparr>pending := AList.update nid \<lparr>pe_request = req, pe_received_unix = now\<rparr>
         (pending (nd_pairing s))\<rparr>\<rparr>;
     (r1, s) = asks x now (headers_for x i ''GET'' PATH_Q (now + 1) False) s;
     s = s\<lparr>nd_pairing := remember_decision now nid \<lparr>ps_status = Denied, ps_expires_unix = None\<rparr>
         ((nd_pairing s)\<lparr>pending := []\<rparr>)\<rparr>;
     (r2, s) = asks x now (headers_for x i ''GET'' PATH_Q (now + 2) False) s
   in (case r0 of Inl e \<Rightarrow> ae_code e = ''unknown-node'' | Inr _ \<Rightarrow> False)
     \<and> (case r1 of Inl e \<Rightarrow> ae_status e = FORBIDDEN \<and> ae_code e = ''pending'' \<and> sublist ''waiting'' (ae_message e) | Inr _ \<Rightarrow> False)
     \<and> (case r2 of Inl e \<Rightarrow> ae_code e = ''denied'' \<and> he_code (auth_into_response e) = Some ''denied'' | Inr _ \<Rightarrow> False))"

section \<open>Passing\<close>

lemma test_state_simps [simp]: "nd_seen (fst (test_state x k)) = []" "grants_of (fst (test_state x k)) = []"
    "nd_pairing (fst (test_state x k)) = pairing_default" "snd (test_state x k) = \<lparr>signing_key = k\<rparr>"
  by (simp_all add: test_state_def node_new_def Let_def)

lemma grant_simps [simp]: "nd_seen (insert_grant x now i e s) = nd_seen s" "nd_pairing (insert_grant x now i e s) = nd_pairing s"
  by (simp_all add: insert_grant_def Let_def)

lemma granted_found:
  assumes "grants_of s = []"
  shows "List.find (\<lambda>g. g_node_id g = node_id x i) (grants_of (insert_grant x now i e s))
    = Some \<lparr>g_fingerprint = fingerprint x i, g_node_id = node_id x i, g_name = ''grantee'', g_granted_unix = now - 60,
       g_expires_unix = e, g_paths = [], g_allow_files = True, g_allow_print = False\<rparr>"
  using assms by (simp add: insert_grant_def grants_upsert_def Let_def)

lemma lossy_nil: "from_utf8_lossy [] = []"
  by code_simp

lemma verify_map: "verify_signed_headers x now (header_map nid pk (show_u64 ts) nonce sg) m p [] =
    (if MAX_SKEW_SECS < abs_diff now ts then Inl (auth_error_new UNAUTHORIZED ''clock-skew''
       (''request timestamp is too far from this PC's clock '' @ em_dash @ '' check that both PCs' clocks are in sync''))
     else case verify x pk (m @ [nl] @ p @ [nl] @ show_u64 ts @ [nl] @ nonce @ [nl]) sg of
       Inl _ \<Rightarrow> Inl (auth_error_new UNAUTHORIZED ''bad-signature'' ''bad signature'')
     | Inr _ \<Rightarrow> Inr (nid, pk, sg))"
  by (simp add: verify_signed_headers_def header_map_def request_canonical_def lossy_nil)

lemma verify_signed_with: "hex_laws x \<Longrightarrow> sig_laws x \<Longrightarrow> verify x (x_hex_encode x (verifying_key x i))
    (m @ [nl] @ p @ [nl] @ show_u64 ts @ [nl] @ nonce @ [nl]) (x_hex_encode x (signed_with x i m p ts nonce)) = Inr ()"
  unfolding signed_with_def by (rule verify_own)

lemma signed_verified:
  assumes "hex_laws x" "sig_laws x" "abs_diff now ts \<le> MAX_SKEW_SECS"
  shows "verify_signed_headers x now (header_map nid (x_hex_encode x (verifying_key x i)) (show_u64 ts) nonce
      (x_hex_encode x (signed_with x i m p ts nonce))) m p []
    = Inr (nid, x_hex_encode x (verifying_key x i), x_hex_encode x (signed_with x i m p ts nonce))"
  using verify_signed_with [OF assms(1,2), of i m p ts nonce] assms(3) unfolding verify_map by simp

lemma skew_self [simp]: "abs_diff now now \<le> MAX_SKEW_SECS"
  by (simp add: abs_diff_def)

text \<open>What an authentication answers once the headers verify and the signature is new.\<close>

lemma verified_answer:
  assumes "verify_signed_headers x now h m p b = Inr (nid, pk, sg)" "map_of (purge_seen now (nd_seen s)) sg = None"
  shows "require_auth x (\<lambda>_. now) h m p b s = (check_grant x now (nd_pairing s) (grants_of s) nid pk,
    s\<lparr>nd_seen := AList.update sg now (purge_seen now (nd_seen s))\<rparr>)"
  using assms by (simp add: require_auth_def reject_replays_def Let_def)

lemma unverified_answer:
  "verify_signed_headers x now h m p b = Inl e \<Longrightarrow> require_auth x (\<lambda>_. now) h m p b s = (Inl e, s)"
  by (simp add: require_auth_def)

lemma purge_nil [simp]: "purge_seen now [] = []"
  by (simp add: purge_seen_def)

lemmas test_defs = headers_for_def Let_def case_prod_beta refused_def auth_error_new_def

lemmas passing = test_defs verified_answer unverified_answer signed_verified check_grant_def granted_found
  fingerprint_of_own_pubkey no_grant_error_def

lemma accepts_test: "hex_laws x \<Longrightarrow> sig_laws x \<Longrightarrow> accepts_valid_signed_request x k now"
  by (simp add: accepts_valid_signed_request_def passing)

lemma missing_test: "rejects_missing_headers x k now"
  by (simp add: rejects_missing_headers_def passing verify_signed_headers_def)

lemma stale_test: "905 \<le> unat now \<Longrightarrow> rejects_stale_timestamp x k now"
proof -
  assume n: "905 \<le> unat now"
  have e: "now - MAX_SKEW_SECS - 5 = now - 905" by (simp add: MAX_SKEW_SECS_def)
  have "unat (now - 905) = unat now - 905" using n by (simp add: unat_sub word_le_nat_alt)
  then have "MAX_SKEW_SECS < abs_diff now (now - 905)"
    using n by (simp add: abs_diff_le not_le [symmetric] MAX_SKEW_SECS_def)
  then show ?thesis by (simp add: rejects_stale_timestamp_def passing verify_map e)
qed

lemma unknown_test: "hex_laws x \<Longrightarrow> sig_laws x \<Longrightarrow> rejects_unknown_node x k now"
  by (simp add: rejects_unknown_node_def passing pairing_default_def)

lemma expired_test:
  assumes "hex_laws x" "sig_laws x" "10 \<le> unat now"
  shows "rejects_expired_grant x k now"
proof -
  have "now - 10 \<le> now" using assms(3) by (simp add: word_le_nat_alt unat_sub)
  then show ?thesis using assms(1,2) by (simp add: rejects_expired_grant_def passing)
qed

lemma swap_test:
  assumes "hex_laws x" "sig_laws x" "fingerprint x \<lparr>signing_key = k\<rparr> \<noteq> fingerprint x \<lparr>signing_key = k'\<rparr>"
  shows "rejects_identity_swap x k k' now"
  using assms by (simp add: rejects_identity_swap_def passing)

lemma unsigned_refused:
  assumes "\<And>u. verify x pk (m @ [nl] @ p @ [nl] @ show_u64 now @ [nl] @ nonce @ [nl]) sg \<noteq> Inr u"
  shows "fst (require_auth x (\<lambda>_. now) (header_map nid pk (show_u64 now) nonce sg) m p [] s)
    = Inl (auth_error_new UNAUTHORIZED ''bad-signature'' ''bad signature'')"
proof -
  obtain e where e: "verify x pk (m @ [nl] @ p @ [nl] @ show_u64 now @ [nl] @ nonce @ [nl]) sg = Inl e"
    using assms by (meson sumE)
  have n: "\<not> MAX_SKEW_SECS < abs_diff now now" by (simp only: not_less skew_self not_False_eq_True)
  have "verify_signed_headers x now (header_map nid pk (show_u64 now) nonce sg) m p []
      = Inl (auth_error_new UNAUTHORIZED ''bad-signature'' ''bad signature'')"
    unfolding verify_map e by (simp add: n)
  then show ?thesis by (simp add: unverified_answer)
qed

lemma tampered_test:
  assumes "\<And>u. verify x (x_hex_encode x (verifying_key x \<lparr>signing_key = k\<rparr>))
      (''GET'' @ [nl] @ PATH_Q @ [nl] @ show_u64 now @ [nl] @ ''0123456789abcdef'' @ [nl])
      (x_hex_encode x (flip_first (signed_with x \<lparr>signing_key = k\<rparr> ''GET'' PATH_Q now ''0123456789abcdef''))) \<noteq> Inr u"
  shows "rejects_tampered_signature x k now"
  by (simp only: rejects_tampered_signature_def test_defs test_state_simps if_True unsigned_refused [OF assms]) simp

lemma path_test:
  assumes "\<And>u. verify x (x_hex_encode x (verifying_key x \<lparr>signing_key = k\<rparr>))
      (''GET'' @ [nl] @ PATH_Q @ [nl] @ show_u64 now @ [nl] @ ''0123456789abcdef'' @ [nl])
      (x_hex_encode x (signed_with x \<lparr>signing_key = k\<rparr> ''GET'' ''/v1/list?path=docs'' now ''0123456789abcdef'')) \<noteq> Inr u"
  shows "rejects_signature_covering_different_path x k now"
  by (simp only: rejects_signature_covering_different_path_def test_defs test_state_simps if_False
      unsigned_refused [OF assms]) simp

lemma purge_now [simp]: "\<forall>e \<in> set seen. snd e = now \<Longrightarrow> purge_seen now seen = seen"
  by (simp add: purge_seen_def sat_sub_def MAX_SKEW_SECS_def)

lemma replayed_answer:
  assumes "verify_signed_headers x now h m p b = Inr (nid, pk, sg)" "map_of (purge_seen now (nd_seen s)) sg \<noteq> None"
  shows "fst (require_auth x (\<lambda>_. now) h m p b s) = Inl (auth_error_new UNAUTHORIZED ''replayed'' ''replayed request'')"
  using assms by (simp add: require_auth_def reject_replays_def Let_def)

lemma replay_test: "hex_laws x \<Longrightarrow> sig_laws x \<Longrightarrow> rejects_replayed_request x k now"
  by (simp add: rejects_replayed_request_def passing replayed_answer)

lemma per_state_test: "hex_laws x \<Longrightarrow> sig_laws x \<Longrightarrow> replay_cache_is_per_state x k k' now"
  by (simp add: replay_cache_is_per_state_def passing replayed_answer)

lemma skew_ahead:
  assumes "unat now + 2 < 2 ^ 64"
  shows "abs_diff now (now + 1) \<le> MAX_SKEW_SECS" "abs_diff now (now + 2) \<le> MAX_SKEW_SECS"
proof -
  have "unat (now + 1) = unat now + 1" "unat (now + 2) = unat now + 2"
    using assms by (simp_all add: unat_word_ariths)
  then show "abs_diff now (now + 1) \<le> MAX_SKEW_SECS" "abs_diff now (now + 2) \<le> MAX_SKEW_SECS"
    by (simp_all add: abs_diff_le MAX_SKEW_SECS_def)
qed

lemma pairing_test:
  assumes "hex_laws x" "sig_laws x" "unat now + 2 < 2 ^ 64"
    and "distinct (map (\<lambda>t. signed_with x \<lparr>signing_key = k\<rparr> ''GET'' PATH_Q t ''0123456789abcdef'') [now, now + 1, now + 2])"
  shows "reports_pending_then_denied_before_unknown x k now"
proof -
  let ?sg = "\<lambda>t. x_hex_encode x (signed_with x \<lparr>signing_key = k\<rparr> ''GET'' PATH_Q t ''0123456789abcdef'')"
  have d: "?sg now \<noteq> ?sg (now + 1)" "?sg now \<noteq> ?sg (now + 2)" "?sg (now + 1) \<noteq> ?sg (now + 2)"
    using assms(4) hex_encode_inj [OF assms(1)] by auto
  have w: "sublist ''waiting'' (''This PC has not approved your access request yet '' @ em_dash
      @ '' it is still waiting in the owner's Incoming list.'')"
    unfolding sublist_def by (rule exI [of _ "''This PC has not approved your access request yet '' @ em_dash @ '' it is still ''"],
        rule exI [of _ "'' in the owner's Incoming list.''"]) simp
  show ?thesis
    using assms(1,2) skew_ahead [OF assms(3)] d w
    by (simp add: reports_pending_then_denied_before_unknown_def passing pairing_default_def remember_decision_def
        auth_into_response_def coded_err_def update_conv)
qed

section \<open>Signed bodies\<close>

definition field :: "(string \<times> string) list \<Rightarrow> string \<Rightarrow> string" where
  "field h k = (case map_of h k of None \<Rightarrow> [] | Some v \<Rightarrow> v)"

definition body_signed_request_verifies_with_same_body :: "ext \<Rightarrow> bytes \<Rightarrow> u64 \<Rightarrow> bytes \<Rightarrow> bool" where
  "body_signed_request_verifies_with_same_body x k now nb \<longleftrightarrow> (let
     body = ''hello shared file contents'';
     h = auth_headers_body x \<lparr>signing_key = k\<rparr> now nb ''POST'' ''/v1/upload?name=report.txt'' body;
     canonical = ''POST'' @ [nl] @ ''/v1/upload?name=report.txt'' @ [nl] @ field h ''x-doclink-ts'' @ [nl]
       @ field h ''x-doclink-nonce'' @ [nl] @ from_utf8_lossy body
   in verify x (field h ''x-doclink-pub'') canonical (field h ''x-doclink-sig'') = Inr ())"

definition body_signed_request_rejects_different_body :: "ext \<Rightarrow> bytes \<Rightarrow> u64 \<Rightarrow> bytes \<Rightarrow> bool" where
  "body_signed_request_rejects_different_body x k now nb \<longleftrightarrow> (let
     h = auth_headers_body x \<lparr>signing_key = k\<rparr> now nb ''POST'' ''/v1/upload'' ''payload-A'';
     canonical = ''POST'' @ [nl] @ ''/v1/upload'' @ [nl] @ field h ''x-doclink-ts'' @ [nl]
       @ field h ''x-doclink-nonce'' @ [nl] @ from_utf8_lossy ''payload-B''
   in verify x (field h ''x-doclink-pub'') canonical (field h ''x-doclink-sig'') \<noteq> Inr ())"

definition empty_body_form_is_forward_compatible :: "ext \<Rightarrow> bytes \<Rightarrow> u64 \<Rightarrow> bytes \<Rightarrow> bool" where
  "empty_body_form_is_forward_compatible x k now nb \<longleftrightarrow> (let
     h = auth_headers_body x \<lparr>signing_key = k\<rparr> now nb ''GET'' ''/v1/list'' [];
     canonical = ''GET'' @ [nl] @ ''/v1/list'' @ [nl] @ field h ''x-doclink-ts'' @ [nl] @ field h ''x-doclink-nonce'' @ [nl];
     tampered = canonical @ ''x''
   in verify x (field h ''x-doclink-pub'') canonical (field h ''x-doclink-sig'') = Inr ()
     \<and> verify x (field h ''x-doclink-pub'') tampered (field h ''x-doclink-sig'') \<noteq> Inr ())"

lemma header_fields:
  "field (auth_headers_body x i now nb m p b) ''x-doclink-pub'' = x_hex_encode x (verifying_key x i)"
  "field (auth_headers_body x i now nb m p b) ''x-doclink-ts'' = show_u64 now"
  "field (auth_headers_body x i now nb m p b) ''x-doclink-nonce'' = x_hex_encode x nb"
  "field (auth_headers_body x i now nb m p b) ''x-doclink-sig''
    = x_hex_encode x (sign x i (request_canonical m p (show_u64 now) (x_hex_encode x nb) b))"
  by (simp_all add: field_def auth_headers_body_def Let_def)

lemma same_body_test: "hex_laws x \<Longrightarrow> sig_laws x \<Longrightarrow> body_signed_request_verifies_with_same_body x k now nb"
  unfolding body_signed_request_verifies_with_same_body_def header_fields Let_def request_canonical_def by (rule verify_own)

text \<open>The signature of the one message does not verify for the other.\<close>

definition binds :: "ext \<Rightarrow> node_identity \<Rightarrow> bytes \<Rightarrow> bytes \<Rightarrow> bool" where
  "binds x i m m' \<longleftrightarrow> verify x (x_hex_encode x (verifying_key x i)) m' (x_hex_encode x (sign x i m)) \<noteq> Inr ()"

lemma different_body_test:
  assumes "binds x \<lparr>signing_key = k\<rparr> (request_canonical ''POST'' ''/v1/upload'' (show_u64 now) (x_hex_encode x nb) ''payload-A'')
      (request_canonical ''POST'' ''/v1/upload'' (show_u64 now) (x_hex_encode x nb) ''payload-B'')"
  shows "body_signed_request_rejects_different_body x k now nb"
  using assms by (simp add: body_signed_request_rejects_different_body_def header_fields request_canonical_def binds_def)

lemma empty_body_test:
  assumes "hex_laws x" "sig_laws x"
    and "binds x \<lparr>signing_key = k\<rparr> (request_canonical ''GET'' ''/v1/list'' (show_u64 now) (x_hex_encode x nb) [])
      (request_canonical ''GET'' ''/v1/list'' (show_u64 now) (x_hex_encode x nb) [] @ ''x'')"
  shows "empty_body_form_is_forward_compatible x k now nb"
  using verify_own [OF assms(1,2), of "\<lparr>signing_key = k\<rparr>"] assms(3)
  by (simp add: empty_body_form_is_forward_compatible_def header_fields request_canonical_def binds_def lossy_nil Let_def)

section \<open>Sealed jobs\<close>

definition persona_id_is_nine_digits_and_stable :: "ext \<Rightarrow> bytes \<Rightarrow> bool" where
  "persona_id_is_nine_digits_and_stable x k \<longleftrightarrow> (let a = persona_id x \<lparr>signing_key = k\<rparr> in length a = 9 \<and> list_all is_digit a)"

lemma persona_test: "persona_id_is_nine_digits_and_stable x k"
  using persona_valid [of x] by (simp add: persona_id_is_nine_digits_and_stable_def is_valid_id_def)

definition token_hint_is_first_16_hex :: "ext \<Rightarrow> bool" where
  "token_hint_is_first_16_hex x \<longleftrightarrow> token_hint x ''abc'' = take 16 (x_hex_encode x (x_sha256 x ''abc''))"

lemma hint_test: "token_hint_is_first_16_hex x"
  by (simp add: token_hint_is_first_16_hex_def token_hint_def)

definition encrypt_roundtrips_with_python_shape :: "ext \<Rightarrow> bytes \<Rightarrow> bool" where
  "encrypt_roundtrips_with_python_shape x nonce \<longleftrightarrow> (let token = replicate 64 (CHR ''a''); plain = ''hello local printlink'' in
     case encrypt_payload x nonce plain token of Inl _ \<Rightarrow> False
     | Inr blob \<Rightarrow> length blob = length plain + 12 + 16 \<and> decrypt_payload x blob token = Inr plain)"

text \<open>The sealing succeeds, and adds the tag of 16 bytes and nothing else.\<close>

lemma encrypt_test:
  assumes "aead_laws x" "length nonce = 12"
    and "\<And>k m. \<exists>c. x_aes_seal x k nonce m = Inr c \<and> length c = length m + 16"
  shows "encrypt_roundtrips_with_python_shape x nonce"
proof -
  let ?t = "replicate 64 (CHR ''a'')"
  obtain c where "x_aes_seal x (key_from_token x ?t) nonce ''hello local printlink'' = Inr c" "length c = 21 + 16"
    using assms(3) [of "key_from_token x ?t" "''hello local printlink''"] by auto
  then have e: "encrypt_payload x nonce ''hello local printlink'' ?t = Inr (nonce @ c)" "length (nonce @ c) = 21 + 12 + 16"
    using assms(2) by (simp_all add: encrypt_payload_def)
  then show ?thesis using decrypt_encrypt [OF assms(1,2) e(1)]
    by (simp add: encrypt_roundtrips_with_python_shape_def)
qed

section \<open>Stores on the disk\<close>

definition saved_grant :: grant where
  "saved_grant = \<lparr>g_fingerprint = ''cc'', g_node_id = ''node-cc'', g_name = ''n'', g_granted_unix = 1000,
     g_expires_unix = Some 42, g_paths = [], g_allow_files = True, g_allow_print = False\<rparr>"

definition save_then_reload_roundtrips :: "grants_file codec \<Rightarrow> bool" where
  "save_then_reload_roundtrips c \<longleftrightarrow> (case store_open c True no_files of Inl _ \<Rightarrow> False
     | Inr st \<Rightarrow> (let (ok, st) = store_save c no_faults (st\<lparr>st_data := grants_upsert saved_grant (st_data st)\<rparr>) in
         ok \<and> (case store_open c True (st_disk st) of Inl _ \<Rightarrow> False
           | Inr st' \<Rightarrow> length (st_data st') = 1 \<and> map g_expires_unix (st_data st') = [Some 42])))"

lemma reload_test:
  assumes "codec_ok c" "cd_default c = []"
  shows "save_then_reload_roundtrips c"
proof -
  let ?st = "\<lparr>st_data = grants_upsert saved_grant [], st_disk = no_files\<rparr>"
  obtain p where p: "cd_ser c (st_data ?st) = Some p" "valid_utf8 p" "cd_de c p = Some (st_data ?st)"
    using assms(1) unfolding codec_ok_def by blast
  then have "store_save c no_faults ?st = (True, ?st\<lparr>st_disk := \<lparr>main_file = Some p, tmp_file = None\<rparr>\<rparr>)"
    by (simp add: store_save_def save_ops_def no_faults_def no_files_def)
  then show ?thesis using p assms(2)
    by (simp add: save_then_reload_roundtrips_def store_open_def no_files_def grants_upsert_def saved_grant_def)
qed

definition save_writes_tmp_then_renames :: "grants_file codec \<Rightarrow> bool" where
  "save_writes_tmp_then_renames c \<longleftrightarrow> (case store_open c True no_files of Inl _ \<Rightarrow> False
     | Inr st \<Rightarrow> (let (ok, st) = store_save c no_faults st in
         ok \<and> tmp_file (st_disk st) = None \<and> main_file (st_disk st) \<noteq> None))"

lemma rename_test:
  assumes "codec_ok c"
  shows "save_writes_tmp_then_renames c"
proof -
  obtain p where "cd_ser c (cd_default c) = Some p" using assms unfolding codec_ok_def by blast
  then show ?thesis
    by (simp add: save_writes_tmp_then_renames_def store_open_def store_save_def save_ops_def no_faults_def no_files_def)
qed

end
