(* ===== verification/Frames.thy ===== *)
theory Frames
  imports DataPlane Admin Wire Notify
begin

text \<open>What the operations leave alone, and what they leave behind: the state a request of a peer may change,
  the paths an upload and the accepting of a file touch, what a pairing request puts in the queue, and what
  a tick of the verifier and of the poller comes to in every case.\<close>

section \<open>What a peer's request changes\<close>

lemma with_grant_state:
  "(\<exists>seen. snd (with_grant y n h me pq bo k s) = s\<lparr>nd_seen := seen\<rparr>)
    \<or> (\<exists>g seen. authenticated y n h me pq bo s g
      \<and> with_grant y n h me pq bo k s = k g (s\<lparr>nd_seen := seen\<rparr>))"
proof -
  obtain a s1 where a: "require_auth (sy_x y) (en_clk n) h me pq bo s = (a, s1)" by force
  show ?thesis
  proof (cases a)
    case (Inl e)
    then show ?thesis using require_auth_state [of "sy_x y" "en_clk n" h me pq bo s] a
      by (auto simp: with_grant_def)
  next
    case (Inr g)
    then show ?thesis using require_auth_authenticated [of y n h me pq bo s g s1] a
      by (auto simp: with_grant_def)
  qed
qed

text \<open>The parts of a node that no request of a peer touches.\<close>

definition settled :: "node \<Rightarrow> grants_file store \<times> node_identity \<times> node_info \<times> share_root \<times> inbox_root \<times> u64" where
  "settled s = (nd_grants s, nd_identity s, nd_node s, nd_share s, nd_inbox s, nd_inbox_max s)"

lemma settled_simps [simp]:
  "settled (s\<lparr>nd_seen := seen\<rparr>) = settled s" "settled (s\<lparr>nd_fs := fs\<rparr>) = settled s"
  "settled (s\<lparr>nd_pairing := p\<rparr>) = settled s" "settled (s\<lparr>nd_limiter := l\<rparr>) = settled s"
  "settled (s\<lparr>nd_print := lp\<rparr>) = settled s" "settled (s\<lparr>nd_contacts := c\<rparr>) = settled s"
  "settled (push_event now k t b s) = settled s"
  by (simp_all add: settled_def push_event_def)

lemma label_contact_settled [simp]: "settled (label_contact y n fp l s) = settled s"
  by (simp add: label_contact_def split: option.split)

lemma handlers_settled:
  "settled (snd (list_handler y n h p s)) = settled s"
  "settled (snd (file_handler y n h p s)) = settled s"
  "settled (snd (search_handler y n h p s)) = settled s"
  "settled (snd (upload_handler y n h p b s)) = settled s"
  "settled (snd (print_handler y n h p b s)) = settled s"
  unfolding list_handler_def file_handler_def search_handler_def upload_handler_def print_handler_def
  by (auto simp: Let_def intro!: with_grant_keeps [where f = settled] split: sum.split option.split prod.split)

lemma pairing_handlers_settled:
  "settled (snd (pair_request_handler y n b s)) = settled s"
  "settled (snd (pair_decision_handler y n b s)) = settled s"
  "settled (snd (pair_status_handler y n h i s)) = settled s"
  by (auto simp: pair_request_handler_def admit_request_def pair_decision_handler_def
      pair_status_handler_def Let_def split: sum.split option.split prod.split)

lemma serve_settled: "settled (snd (serve y n ip h req s)) = settled s"
  by (cases req) (auto simp: serve_def answer_def buffered_def rate_limit_pair_def Let_def handlers_settled
      pairing_handlers_settled split: option.split prod.split)

text \<open>The contacts: a decision whose signer is a contact sets the status of that contact, and nothing else.\<close>

lemma update_first_none: "List.find P xs = None \<Longrightarrow> update_first P f xs = xs"
  by (induction xs) auto

lemma update_first_same:
  "List.find P xs = Some x \<Longrightarrow> f x = x \<Longrightarrow> update_first P f xs = xs"
  by (induction xs) auto

lemma label_contact_contacts:
  "contacts_of (label_contact y n fp l s)
    = update_first (\<lambda>c. c_fingerprint c = fp) (\<lambda>c. c\<lparr>c_status := l\<rparr>) (contacts_of s)"
  "main_file (st_disk (nd_contacts (label_contact y n fp l s))) = main_file (st_disk (nd_contacts s))
    \<or> main_file (st_disk (nd_contacts (label_contact y n fp l s)))
      = cd_ser (sy_contacts y) (contacts_of (label_contact y n fp l s))"
proof -
  have same: "c\<lparr>c_status := c_status c\<rparr> = c" for c :: contact by simp
  show "contacts_of (label_contact y n fp l s)
      = update_first (\<lambda>c. c_fingerprint c = fp) (\<lambda>c. c\<lparr>c_status := l\<rparr>) (contacts_of s)"
    using same by (auto simp: label_contact_def update_first_none update_first_same split: option.split)
  show "main_file (st_disk (nd_contacts (label_contact y n fp l s))) = main_file (st_disk (nd_contacts s))
    \<or> main_file (st_disk (nd_contacts (label_contact y n fp l s)))
      = cd_ser (sy_contacts y) (contacts_of (label_contact y n fp l s))"
    by (auto simp: label_contact_def store_save_def split: option.split prod.split) (metis run_save)
qed

definition relabelled :: "sys \<Rightarrow> pair_decision \<Rightarrow> node \<Rightarrow> node \<Rightarrow> bool" where
  "relabelled y d s s' \<longleftrightarrow> (\<exists>fp. verify (sy_x y) (pd_pubkey_hex d) (canonical_decision_string d) (pd_signature d) = Inr ()
     \<and> pd_requester_node_id d = ni_node_id (nd_node s)
     \<and> fingerprint_from_pubkey_hex (sy_x y) (pd_pubkey_hex d) = Some fp
     \<and> contacts_of s' = update_first (\<lambda>c. c_fingerprint c = fp)
         (\<lambda>c. c\<lparr>c_status := contact_label (decision_status (pd_decision d))\<rparr>) (contacts_of s)
     \<and> main_file (st_disk (nd_contacts s')) \<in> {main_file (st_disk (nd_contacts s)), cd_ser (sy_contacts y) (contacts_of s')})"

lemma decision_relabels:
  "nd_contacts (snd (pair_decision_handler y n b s)) = nd_contacts s
    \<or> (\<exists>d. sy_pair_decision y b = Some d \<and> relabelled y d s (snd (pair_decision_handler y n b s)))"
proof (cases "\<exists>d fp. sy_pair_decision y b = Some d
    \<and> verify (sy_x y) (pd_pubkey_hex d) (canonical_decision_string d) (pd_signature d) = Inr ()
    \<and> pd_requester_node_id d = ni_node_id (nd_node s) \<and> fingerprint_from_pubkey_hex (sy_x y) (pd_pubkey_hex d) = Some fp
    \<and> list_ex (\<lambda>c. c_fingerprint c = fp) (contacts_of s)")
  case True
  then obtain d fp where d: "sy_pair_decision y b = Some d"
    "verify (sy_x y) (pd_pubkey_hex d) (canonical_decision_string d) (pd_signature d) = Inr ()"
    "pd_requester_node_id d = ni_node_id (nd_node s)"
    "fingerprint_from_pubkey_hex (sy_x y) (pd_pubkey_hex d) = Some fp"
    "list_ex (\<lambda>c. c_fingerprint c = fp) (contacts_of s)" by blast
  define p where "p = remember_decision (en_clk n 1) (pd_requester_node_id d)
    \<lparr>ps_status = decision_status (pd_decision d), ps_expires_unix =
      (if pd_duration_secs d \<noteq> 0 then Some (en_clk n 0 + pd_duration_secs d) else None)\<rparr> (nd_pairing s)"
  have "snd (pair_decision_handler y n b s)
      = label_contact y n fp (contact_label (decision_status (pd_decision d))) (s\<lparr>nd_pairing := p\<rparr>)"
    using d by (simp add: pair_decision_handler_def Let_def p_def)
  then show ?thesis
    using d label_contact_contacts [of y n fp "contact_label (decision_status (pd_decision d))" "s\<lparr>nd_pairing := p\<rparr>"]
    by (auto simp: relabelled_def)
next
  case False
  then have "snd (pair_decision_handler y n b s) = s"
    by (auto simp: pair_decision_handler_def Let_def split: option.split sum.split)
  then show ?thesis by simp
qed

lemma handlers_keep_contacts:
  "nd_contacts (snd (list_handler y n h p s)) = nd_contacts s"
  "nd_contacts (snd (file_handler y n h p s)) = nd_contacts s"
  "nd_contacts (snd (search_handler y n h p s)) = nd_contacts s"
  "nd_contacts (snd (upload_handler y n h p b s)) = nd_contacts s"
  "nd_contacts (snd (print_handler y n h p b s)) = nd_contacts s"
  "nd_contacts (snd (pair_request_handler y n b s)) = nd_contacts s"
  "nd_contacts (snd (pair_status_handler y n h i s)) = nd_contacts s"
  unfolding list_handler_def file_handler_def search_handler_def upload_handler_def print_handler_def
    pair_request_handler_def admit_request_def pair_status_handler_def
  by (auto simp: Let_def intro!: with_grant_keeps [where f = nd_contacts] split: sum.split option.split prod.split)

lemma relabelled_limiter: "relabelled y d (s\<lparr>nd_limiter := l\<rparr>) s' = relabelled y d s s'"
  by (simp add: relabelled_def)

lemma serve_contacts:
  "nd_contacts (snd (serve y n ip h req s)) = nd_contacts s
    \<or> (\<exists>b d. req = PostPairDecision b \<and> sy_pair_decision y b = Some d
      \<and> relabelled y d s (snd (serve y n ip h req s)))"
proof (cases req)
  case (PostPairDecision b)
  let ?r = "snd (serve y n ip h req s)"
  have "nd_contacts ?r = nd_contacts s \<or> (\<exists>l. ?r = snd (pair_decision_handler y n b (s\<lparr>nd_limiter := l\<rparr>)))
      \<or> ?r = snd (pair_decision_handler y n b s)"
    by (cases ip) (auto simp: PostPairDecision serve_def answer_def buffered_def rate_limit_pair_def Let_def case_prod_beta)
  then show ?thesis
  proof (elim disjE exE)
    fix l
    assume r: "?r = snd (pair_decision_handler y n b (s\<lparr>nd_limiter := l\<rparr>))"
    show ?thesis using decision_relabels [of y n b "s\<lparr>nd_limiter := l\<rparr>"] PostPairDecision
      unfolding r relabelled_limiter by simp
  next
    assume r: "?r = snd (pair_decision_handler y n b s)"
    show ?thesis using decision_relabels [of y n b s] PostPairDecision unfolding r by simp
  qed simp
qed (auto simp: serve_def answer_def buffered_def rate_limit_pair_def Let_def handlers_keep_contacts
      split: option.split prod.split)

text \<open>The token of the printer: only a print request of an authenticated caller who may print renews it.\<close>

lemma handlers_keep_print:
  "nd_print (snd (list_handler y n h p s)) = nd_print s"
  "nd_print (snd (file_handler y n h p s)) = nd_print s"
  "nd_print (snd (search_handler y n h p s)) = nd_print s"
  "nd_print (snd (upload_handler y n h p b s)) = nd_print s"
  "nd_print (snd (pair_request_handler y n b s)) = nd_print s"
  "nd_print (snd (pair_decision_handler y n b s)) = nd_print s"
  "nd_print (snd (pair_status_handler y n h i s)) = nd_print s"
  unfolding list_handler_def file_handler_def search_handler_def upload_handler_def pair_decision_handler_def
    label_contact_def pair_request_handler_def admit_request_def pair_status_handler_def push_event_def
  by (auto simp: Let_def intro!: with_grant_keeps [where f = nd_print] split: sum.split option.split prod.split)

lemma print_handler_token:
  "nd_print (snd (print_handler y n h nm b s)) = nd_print s
    \<or> (\<exists>q g. authenticated y n h ''POST'' (print_path_q (sy_x y) q) b s g \<and> g_allow_print g)"
proof -
  let ?q = "if trim nm = [] then ''document'' else trim nm"
  define k where "k = (\<lambda>(grant :: grant) s. if \<not> g_allow_print grant then (Inl (err FORBIDDEN ''grant does not allow printing''), s)
     else if b = [] then (Inl (err BAD_REQUEST ''empty file''), s)
     else if MAX_JOB_BYTES < length b then
       (Inl (err PAYLOAD_TOO_LARGE ''file exceeds PrintLink size limit (100 MiB)''), s)
     else (case ensure_paired (sy_x y) (en_net n) (en_port_var n) (sy_print y) (en_faults n) (en_clk n 3) (en_clk n 4)
         (nd_identity s) (ni_name (nd_node s)) (nd_print s) of
       (Inl e, lp) \<Rightarrow> (Inl (err BAD_GATEWAY (''local PrintLink: '' @ e)), s\<lparr>nd_print := lp\<rparr>)
     | (Inr token, lp) \<Rightarrow> let s = s\<lparr>nd_print := lp\<rparr> in
       (case submit_job (sy_x y) (en_net n) (en_port_var n) (en_rnd n) token (persona_id (sy_x y) (nd_identity s)) ?q b of
         Inl msg \<Rightarrow> (Inl (if contains ''offline'' msg then err SERVICE_UNAVAILABLE msg
                        else err BAD_GATEWAY msg), s)
       | Inr _ \<Rightarrow> (Inr (), push_event (en_clk n 5) ''print-job''
           (g_name grant @ '' printed '' @ ?q @ '' on this PC'')
           ''Sent to the default printer via PrintLink.'' s))))"
  have p: "print_handler y n h nm b s = with_grant y n h ''POST'' (print_path_q (sy_x y) ?q) b k s"
    by (simp add: print_handler_def k_def Let_def)
  have "\<not> g_allow_print g \<Longrightarrow> nd_print (snd (k g s')) = nd_print s'" for g s' by (simp add: k_def)
  then show ?thesis using with_grant_state [of y n h "''POST''" "print_path_q (sy_x y) ?q" b k s]
    unfolding p by fastforce
qed

lemma serve_print:
  "nd_print (snd (serve y n ip h req s)) = nd_print s
    \<or> (\<exists>nm b q g. req = PostPrint nm b \<and> authenticated y n h ''POST'' (print_path_q (sy_x y) q) b s g \<and> g_allow_print g)"
  using print_handler_token [of y n h]
  by (cases req) (auto simp: serve_def answer_def buffered_def rate_limit_pair_def Let_def
      handlers_keep_print split: option.split prod.split)

section \<open>What an upload leaves\<close>

definition temp_path :: "path \<Rightarrow> string \<Rightarrow> path" where
  "temp_path d st = d @ [''.'' @ st @ ''.part'']"

text \<open>A stored upload leaves its payload, its sidecar, no temporary file, and nothing else.\<close>

lemma write_file_leaves:
  assumes ok: "inbox_ok fs r" and w: "write_file mc io now r nm b m fs = (Inr st, fs')"
  shows "fs_get fs' (temp_path (ib_root r) st) = None"
    and "fs_get fs' (sidecar_path r st)
      = (case cd_ser mc m of None \<Rightarrow> fs_get fs (sidecar_path r st) | Some raw \<Rightarrow> Some (FFile raw (Some now)))"
    and "q \<notin> {ib_root r @ [st], temp_path (ib_root r) st, sidecar_path r st} \<Longrightarrow> fs_get fs' q = fs_get fs q"
proof -
  let ?tmp = "ib_root r @ [''.'' @ st @ ''.part'']"
  have v: "valid_name (trim nm)" using w by (auto simp: write_file_def Let_def split: if_splits)
  have st: "st = dedupe_in_dir fs (ib_root r) (trim nm)"
    using w v by (auto simp: write_file_def Let_def split: if_splits sum.splits option.splits prod.splits)
  obtain ok1 fs1 where w1: "fs_write (io 0) now ?tmp b fs = (ok1, fs1)" by force
  obtain res fs2 where w2: "fs_rename (io 1) ?tmp (ib_root r @ [st]) fs1 = (res, fs2)" by force
  note stages = write_stages [OF ok w1 w2]
  have ok1: ok1 and res: "\<exists>u. res = Inr u" and fs': "fs' = (case cd_ser mc m of None \<Rightarrow> fs2
      | Some raw \<Rightarrow> snd (fs_write (io 2) now (sidecar_path r st) raw fs2))"
    and ok3: "\<And>raw. cd_ser mc m = Some raw \<Longrightarrow> fst (fs_write (io 2) now (sidecar_path r st) raw fs2)"
    using w v w1 w2 unfolding write_file_def Let_def st [symmetric]
    by (auto split: if_splits sum.splits option.splits prod.splits)
  obtain md where s2: "solid fs2 (ib_root r)" "fs_get fs2 (ib_root r) = Some (FDir md)" "no_links_below fs2 (ib_root r)"
    using stages(3) by (auto simp: inbox_ok_def)
  have "last ?tmp \<noteq> last (sidecar_path r st)" "last ?tmp \<noteq> last (ib_root r @ [st])"
      "last (sidecar_path r st) \<noteq> last (ib_root r @ [st])"
    using arg_cong [of "''.'' @ st @ ''.part''" "st @ SIDECAR_SUFFIX" "\<lambda>l. last l"]
      arg_cong [of "''.'' @ st @ ''.part''" st "\<lambda>l. length l"]
      arg_cong [of "st @ SIDECAR_SUFFIX" st "\<lambda>l. length l"]
    by (auto simp: sidecar_path_def SIDECAR_SUFFIX_def)
  then have ne: "?tmp \<noteq> sidecar_path r st" "?tmp \<noteq> ib_root r @ [st]" "sidecar_path r st \<noteq> ib_root r @ [st]" by metis+
  have rest: "fs_get fs' p = fs_get fs2 p" if "p \<noteq> sidecar_path r st" for p
    using sidecar_write_frame [OF stages(3) that] fs' by (auto split: option.splits)
  obtain b0 m0 where "fs_get fs1 ?tmp = Some (FFile b0 m0)"
    using rename_ok [of ?tmp "ib_root r @ [st]" "io 1" fs1 _ fs2] w2 res by auto
  then have "fs_get fs2 ?tmp = None" using rename_file [OF _ _ ne(2)] w2 res by auto
  then show "fs_get fs' (temp_path (ib_root r) st) = None" using rest [OF ne(1)] by (simp add: temp_path_def)
  have "fs_get fs2 (sidecar_path r st) = fs_get fs (sidecar_path r st)"
    by (rule stages(2)) (use ne in auto)
  moreover have "fs_get (snd (fs_write (io 2) now (sidecar_path r st) raw fs2)) (sidecar_path r st) = Some (FFile raw (Some now))"
    if "cd_ser mc m = Some raw" for raw
    using write_ok_get [OF s2, of "io 2" now "st @ SIDECAR_SUFFIX" raw] ok3 [OF that]
    by (metis prod.collapse sidecar_path_def)
  ultimately show "fs_get fs' (sidecar_path r st)
      = (case cd_ser mc m of None \<Rightarrow> fs_get fs (sidecar_path r st) | Some raw \<Rightarrow> Some (FFile raw (Some now)))"
    unfolding fs' by (auto split: option.split)
  show "q \<notin> {ib_root r @ [st], temp_path (ib_root r) st, sidecar_path r st} \<Longrightarrow> fs_get fs' q = fs_get fs q"
    using rest [of q] stages(2) [of q] by (auto simp: temp_path_def)
qed

definition upload_meta :: "env \<Rightarrow> grant \<Rightarrow> inbox_meta" where
  "upload_meta n g = \<lparr>im_from = Some (g_name g), im_from_node_id = Some (g_node_id g), im_received_unix = Some (en_clk n 3)\<rparr>"

lemma upload_handler_stores:
  assumes "upload_handler y n h raw body s = (Inr r, s')"
  obtains g seen where
    "authenticated y n h ''POST'' (upload_path_q (sy_x y) (trim raw)) body s g" "g_allow_files g"
    "of_nat (length body) \<le> nd_inbox_max s" "ur_size r = of_nat (length body)"
    "write_file (sy_meta y) (en_io n) (en_clk n 4) (nd_inbox s) (trim raw) body (upload_meta n g) (nd_fs s)
      = (Inr (ur_name r), nd_fs s')"
    "s' = push_event (en_clk n 5) ''inbox-file'' (g_name g @ '' sent you '' @ ur_name r)
      ''Accept it into your shared folder, download it, or discard it.'' (s\<lparr>nd_seen := seen, nd_fs := nd_fs s'\<rparr>)"
  using assms unfolding upload_handler_def Let_def upload_meta_def
  by (auto simp: not_less push_event_def split: if_splits sum.splits prod.splits elim!: with_grant_Inr)

section \<open>What an accepted file leaves\<close>

lemma move_file_frame:
  assumes dok: "inbox_ok fs \<lparr>ib_root = dest\<rparr>" and src: "src \<noteq> []"
    and q: "q \<notin> {src, dest @ [w], dest @ [tmp]}"
    and mv: "move_file io now src (dest @ [w]) (dest @ [tmp]) fs = (moved, fs')"
  shows "fs_get fs' q = fs_get fs q"
proof -
  obtain res fs1 where w1: "fs_rename (io 0) src (dest @ [w]) fs = (res, fs1)" by force
  have f1: "fs_get fs1 q = fs_get fs q" using rename_frame [of src "dest @ [w]" q "io 0" fs] src q w1 by simp
  show ?thesis
  proof (cases "\<exists>c b. res = Inl c \<and> c = Some EXDEV \<and> read_file fs1 src = Some b")
    case False
    then show ?thesis using mv w1 f1 by (auto simp: move_file_def split: sum.splits if_splits option.splits)
  next
    case True
    then obtain b where b: "res = Inl (Some EXDEV)" "read_file fs1 src = Some b" by blast
    then have fs1: "fs1 = fs" using w1 rename_fails_same by blast
    obtain ok2 fs2 where w2: "fs_write (io 1) now (dest @ [tmp]) b fs = (ok2, fs2)" by force
    obtain res3 fs3 where w3: "fs_rename (io 2) (dest @ [tmp]) (dest @ [w]) fs2 = (res3, fs3)" by force
    note stages = write_stages [OF dok, unfolded inbox_root.simps, OF w2 w3]
    have "fs_get fs2 q = fs_get fs q" "fs_get fs3 q = fs_get fs q" using stages(1,2) [of q] q by auto
    moreover have "fs' \<in> {fs2, fs3, snd (fs_remove_file (io 3) src fs3)}"
      using mv w1 w2 w3 b fs1 by (auto simp: move_file_def split: if_splits sum.splits)
    moreover have "fs_get (snd (fs_remove_file (io 3) src fs3)) q = fs_get fs3 q"
      by (rule fs_remove_file_frame [OF src]) (use q in simp)
    ultimately show ?thesis by auto
  qed
qed

lemma accept_frame:
  assumes ok: "inbox_ok fs r" and dok: "inbox_ok fs \<lparr>ib_root = dest\<rparr>" and ne: "dest \<noteq> ib_root r"
    and a: "inbox_accept io now r nm dest fs = (out, fs')" and w: "w = dedupe_in_dir fs dest nm"
  shows "q \<notin> {ib_root r @ [nm], sidecar_path r nm, dest @ [w], temp_path dest w} \<Longrightarrow> fs_get fs' q = fs_get fs q"
    and "out = Inl e \<Longrightarrow> fs_get fs' (sidecar_path r nm) = fs_get fs (sidecar_path r nm)"
    and "out = Inr v \<Longrightarrow> v = w"
proof -
  show "out = Inr v \<Longrightarrow> v = w" using a w by (auto simp: inbox_accept_def Let_def split: sum.splits prod.splits if_splits)
  have "(\<exists>e. out = Inl e) \<and> fs' = fs \<or> (\<exists>moved fs1. move_file io now (ib_root r @ [nm]) (dest @ [w]) (temp_path dest w) fs = (moved, fs1)
      \<and> (if moved then out = Inr w \<and> fs' = snd (fs_remove_file (io 4) (sidecar_path r nm) fs1) else fs' = fs1))"
  proof (cases "inbox_resolve fs r nm")
    case (Inl e)
    then show ?thesis using a by (auto simp: inbox_accept_def)
  next
    case (Inr p)
    then have p: "p = ib_root r @ [nm]" using inbox_resolve_Inr [OF ok] by blast
    obtain moved fs1 where m: "move_file io now p (dest @ [w]) (dest @ [''.'' @ w @ ''.part'']) fs = (moved, fs1)"
      by (metis prod.collapse)
    have "(out, fs') = (if \<not> moved then (Inl InboxIo, fs1)
        else (Inr w, snd (fs_remove_file (io 4) (sidecar_path r nm) fs1)))"
      using a Inr m by (simp only: inbox_accept_def sum.case Let_def w [symmetric] prod.case)
    then show ?thesis using m unfolding p temp_path_def by (cases moved) auto
  qed
  note cases = this
  have mv: "fs_get fs1 p = fs_get fs p"
    if "move_file io now (ib_root r @ [nm]) (dest @ [w]) (temp_path dest w) fs = (moved, fs1)"
      "p \<notin> {ib_root r @ [nm], dest @ [w], temp_path dest w}" for moved fs1 p
    using move_file_frame [OF dok _ _ that(1) [unfolded temp_path_def], of p] that(2) by (simp add: temp_path_def)
  have sc: "sidecar_path r nm \<noteq> []" by (simp add: sidecar_path_def)
  show "fs_get fs' q = fs_get fs q" if "q \<notin> {ib_root r @ [nm], sidecar_path r nm, dest @ [w], temp_path dest w}"
    using cases mv [of _ _ q] fs_remove_file_frame [OF sc, of q] that by (auto split: if_splits)
  have "sidecar_path r nm \<notin> {ib_root r @ [nm], dest @ [w], temp_path dest w}"
    using ne by (auto simp: sidecar_path_def temp_path_def SIDECAR_SUFFIX_def)
  then show "out = Inl e \<Longrightarrow> fs_get fs' (sidecar_path r nm) = fs_get fs (sidecar_path r nm)"
    using cases mv [of _ _ "sidecar_path r nm"] by (auto split: if_splits)
qed

section \<open>What enters the queue\<close>

text \<open>The checks of the handler on a request, in their order.\<close>

definition own_request :: "ext \<Rightarrow> pair_request \<Rightarrow> string \<Rightarrow> bool" where
  "own_request x r fp \<longleftrightarrow> verify x (pr_pubkey_hex r) (canonical_request_string r) (pr_signature r) = Inr ()
     \<and> fingerprint_from_pubkey_hex x (pr_pubkey_hex r) = Some fp \<and> take 16 fp = pr_node_id r"

lemma pair_request_admits:
  assumes "pair_request_handler y n body s = (resp, s')"
    "e \<in> set (pending (nd_pairing s'))" "e \<notin> set (pending (nd_pairing s))"
  obtains req fp where "sy_pair_request y body = Some req" "own_request (sy_x y) req fp"
    "\<And>g. find_grant fp (grants_of s) = Some g \<Longrightarrow> \<not> grant_live (en_clk n 0) g"
    "e = (pr_node_id req, \<lparr>pe_request = req, pe_received_unix = en_clk n 2\<rparr>)"
    "resp = Inr \<lparr>ps_status = Pending, ps_expires_unix = None\<rparr>"
proof -
  have adm: "e = (pr_node_id req, \<lparr>pe_request = req, pe_received_unix = en_clk n 2\<rparr>)
      \<and> resp = Inr \<lparr>ps_status = Pending, ps_expires_unix = None\<rparr>"
    if "admit_request n req s = (resp, s')" for req
    using that assms(2,3) by (auto simp: admit_request_def admit_pending_def prune_pending_def Let_def
        split: if_splits sum.splits prod.splits dest!: set_update_alist)
  have ne: "s' \<noteq> s" using assms(2,3) by auto
  obtain req where req: "sy_pair_request y body = Some req"
    using assms(1) ne that by (cases "sy_pair_request y body") (auto simp: pair_request_handler_def Let_def)
  have v: "verify (sy_x y) (pr_pubkey_hex req) (canonical_request_string req) (pr_signature req) = Inr ()"
    using assms(1) ne req by (cases "verify (sy_x y) (pr_pubkey_hex req) (canonical_request_string req) (pr_signature req)")
      (auto simp: pair_request_handler_def Let_def)
  obtain fp where fp: "fingerprint_from_pubkey_hex (sy_x y) (pr_pubkey_hex req) = Some fp"
    using assms(1) ne req v that by (cases "fingerprint_from_pubkey_hex (sy_x y) (pr_pubkey_hex req)")
      (auto simp: pair_request_handler_def Let_def)
  have nid: "take 16 fp = pr_node_id req"
    using assms(1) ne req v fp by (auto simp: pair_request_handler_def Let_def split: if_splits)
  have live: "\<not> grant_live (en_clk n 0) g" if "find_grant fp (grants_of s) = Some g" for g
    using assms(1) ne req v fp nid that by (auto simp: pair_request_handler_def Let_def)
  have "admit_request n req s = (resp, s')"
    using assms(1) req v fp nid live by (auto simp: pair_request_handler_def Let_def split: option.splits if_splits)
  from that [OF req _ live adm [OF this, THEN conjunct1] adm [OF this, THEN conjunct2]] v fp nid
  show thesis by (simp add: own_request_def)
qed

lemma own_request_plain:
  assumes "hex_laws x" "own_request x r fp"
  shows "nl \<notin> set (pr_pubkey_hex r)" "nl \<notin> set (pr_node_id r)"
proof -
  show "nl \<notin> set (pr_pubkey_hex r)" using assms nl_notin_hex [OF assms(1)] by (auto simp: own_request_def verify_Inr)
  have "nl \<notin> set fp" using assms(2) nl_notin_hex_encode [OF assms(1)]
    by (auto simp: own_request_def fingerprint_from_pubkey_hex_def split: option.splits)
  then show "nl \<notin> set (pr_node_id r)" using assms(2) by (metis in_set_takeD own_request_def)
qed

section \<open>What a tick of the verifier comes to\<close>

lemma verifier_tick_waits:
  assumes "find_contact nid (st_data st) = Some c" and "List.find (\<lambda>p. p_node_id p = nid) peers = Some p"
    and "fetch (peer_base_url (p_addr p) (p_http_port p)) (''/v1/pair/status?node_id='' @ x_url_encode x my_id)
        (c_fingerprint c) = Some ps" "status_label ps = None"
  shows "find_contact nid (st_data (verifier_tick x cd faults fetch peers my_id st)) = Some c"
proof -
  let ?step = "verifier_step x cd faults fetch peers my_id"
  have "find_contact nid (st_data (?step i st')) = Some c" if "find_contact nid (st_data st') = Some c" for i st'
  proof (cases "i = nid")
    case True
    then show ?thesis using that assms(2-4) by (simp add: verifier_step_def verifier_poll_def verifier_apply_find)
  next
    case False
    then show ?thesis using that by (auto simp: verifier_step_def verifier_apply_find split: option.split)
  qed
  then have "find_contact nid (st_data st') = Some c \<Longrightarrow> find_contact nid (st_data (fold ?step ids st')) = Some c" for ids st'
    by (induction ids arbitrary: st') auto
  then show ?thesis using assms(1) by (simp add: verifier_tick_def)
qed

text \<open>What a contact becomes under an answer.\<close>

definition answered_contact :: "pair_status \<Rightarrow> contact \<Rightarrow> contact" where
  "answered_contact ps c = (case status_label ps of None \<Rightarrow> c | Some l \<Rightarrow> c\<lparr>c_status := l\<rparr>)"

lemma verifier_tick_answered:
  assumes "find_contact nid (st_data st) = Some c" "c_status c = ''pending''"
    and "List.find (\<lambda>p. p_node_id p = nid) peers = Some p"
    and "fetch (peer_base_url (p_addr p) (p_http_port p)) (''/v1/pair/status?node_id='' @ x_url_encode x my_id)
        (c_fingerprint c) = Some ps"
  shows "find_contact nid (st_data (verifier_tick x cd faults fetch peers my_id st)) = Some (answered_contact ps c)"
  using verifier_tick_waits [where fetch = fetch, OF assms(1,3,4)] verifier_tick_settles [where fetch = fetch, OF assms]
  by (cases "status_label ps") (simp_all add: answered_contact_def)

section \<open>Sharing an item, where a listing fails\<close>

text \<open>Whatever the listings hold, a grant that was not checked reads nothing it could not read before.\<close>

lemma share_on_grant_narrows:
  assumes "fs_ok (nd_fs s)" "names_ok (nd_fs s)" "g_fingerprint g \<notin> set fps" "CHR 0x00 \<notin> set f"
    and "can_read_file (g_paths (share_on_grant (shared_listings y s path fps) path fps g)) f"
  shows "can_read_file (g_paths g) f"
proof (cases "subtract_from_scope (g_paths g) path (map_of (shared_listings y s path fps))")
  case (Some out)
  have "listing_below (map_of (shared_listings y s path fps))"
    using fetched_listings(2) [OF assms(1,2)] by (simp add: shared_listings_def listing_below_def)
  then show ?thesis
    using subtract_narrows [OF _ Some] no_access_unrelated [OF assms(4)] Some assms(3,5) by (auto simp: share_on_grant_def)
qed (use assms in \<open>simp add: share_on_grant_def\<close>)

text \<open>A root that cannot be listed counts as an empty one: an unscoped grant that was not checked is left with nothing.\<close>

lemma share_on_grant_unlisted:
  assumes "share_list (sy_x (as_sys y)) (nd_fs s) (nd_share s) [] = Inl e"
    and "g \<in> set (grants_of s)" "g_fingerprint g \<notin> set fps" "g_paths g = []"
  shows "g_paths (share_on_grant (shared_listings y s path fps) path fps g) = [NO_ACCESS]"
proof -
  have "shared_listings y s path fps = fetch_listings (sy_x (as_sys y)) (nd_fs s) (nd_share s) path"
    using assms(2-4) by (auto simp: shared_listings_def list_ex_iff)
  moreover have "map_of (fetch_listings (sy_x (as_sys y)) (nd_fs s) (nd_share s) path) [] = Some []"
    using assms(1) by (simp add: fetched_lookup scope_dirs_def)
  ultimately show ?thesis using assms(3,4) by (simp add: share_on_grant_def subtract_from_scope_def)
qed

end
