(* ===== verification/Toasts.thy ===== *)
theory Toasts
  imports Notify
begin

text \<open>The window over a run of the daemon: pushes to the event ring, polls that are answered and polls that
  are not follow each other in any order. The toasts are those of the pushes between the position the
  poller started from and the one it has reached.\<close>

section \<open>Polls and pushes\<close>

text \<open>A poll that learns nothing: the daemon is not up, does not answer, or its answer does not parse.\<close>

definition unanswered :: "poll_env \<Rightarrow> fsys \<Rightarrow> poller \<Rightarrow> bool" where
  "unanswered v fs p \<longleftrightarrow> (let port = read_admin_port fs (pe_dir v) in
     pe_up v port \<longrightarrow> (case http_get_json (pe_net v) port (events_path (po_last p)) of
       Body body \<Rightarrow> pe_parse v body = None | _ \<Rightarrow> True))"

text \<open>From a poller, pushes to the ring of a daemon that started with an empty one, and the commands its ticks
  hand the window. When a poll is answered, at most @<CAP> of the pushes are past the poller's position: the
  ring still holds them.\<close>

inductive watched :: "poller \<Rightarrow> fsys \<Rightarrow> (u64 \<times> string \<times> string \<times> string) list \<Rightarrow> string list \<Rightarrow> poller \<Rightarrow> fsys \<Rightarrow> bool"
  for p0 fs0 where
  Opened: "watched p0 fs0 [] [] p0 fs0"
| Pushed: "watched p0 fs0 ps cs p fs \<Longrightarrow> watched p0 fs0 (ps @ [ev]) cs p fs"
| Answered: "watched p0 fs0 ps cs p fs \<Longrightarrow> feeds v fs p (push_all ps events_default)
    \<Longrightarrow> length ps \<le> unat (po_last p) + CAP \<Longrightarrow> poll_tick v fs p = (cmds, Some q, fs')
    \<Longrightarrow> watched p0 fs0 ps (cs @ cmds) q fs'"
| Unanswered: "watched p0 fs0 ps cs p fs \<Longrightarrow> unanswered v fs p \<Longrightarrow> poll_tick v fs p = (cmds, Some q, fs')
    \<Longrightarrow> watched p0 fs0 ps (cs @ cmds) q fs'"

section \<open>One poll\<close>

lemma drop_news: "k \<le> length ps \<Longrightarrow> drop k (news i ps) = news (i + of_nat k) (drop k ps)"
proof (induction i ps arbitrary: k rule: news.induct)
  case (2 i now kd t b ps)
  then show ?case by (cases k) (simp_all add: add.assoc)
qed simp

lemma news_past:
  "unat j + length ps < u64_limit \<Longrightarrow> filter (\<lambda>ev. i < ev_id ev) (news j ps) = drop (unat i - unat j) (news j ps)"
proof (induction j ps rule: news.induct)
  case (2 j now k t b ps)
  have "j + 1 \<noteq> 0" by (rule unat_no_wrap) (use 2(2) in simp)
  then have s: "unat (j + 1) = Suc (unat j)" by (rule unat_succ)
  have IH: "filter (\<lambda>ev. i < ev_id ev) (news (j + 1) ps) = drop (unat i - Suc (unat j)) (news (j + 1) ps)"
    using 2 by (simp add: s)
  show ?case
  proof (cases "i < j + 1")
    case True
    then have "unat i \<le> unat j" by (simp add: word_less_nat_alt s)
    then show ?thesis using True IH by simp
  next
    case False
    then have "unat i - unat j = Suc (unat i - Suc (unat j))" by (simp add: word_less_nat_alt s)
    then show ?thesis using False IH by simp
  qed
qed simp

lemma since_default:
  assumes "length ps < u64_limit" "length ps \<le> unat i + CAP"
  shows "since i (push_all ps events_default) = drop (unat i) (news 0 ps)"
proof -
  let ?k = "length ps - CAP"
  have items: "items (push_all ps events_default) = drop ?k (news 0 ps)"
    using push_all_news [of events_default ps] by (simp add: events_default_def)
  have "drop ?k (news 0 ps) = news (of_nat ?k) (drop ?k ps)" using drop_news [of ?k ps 0] by simp
  moreover have "unat (of_nat ?k :: u64) = ?k"
    using assms(1) by (simp add: unsigned_of_nat take_bit_nat_eq_self)
  ultimately have "since i (push_all ps events_default) = drop (unat i - ?k) (drop ?k (news 0 ps))"
    using news_past [of "of_nat ?k" "drop ?k ps" i] assms(1) by (auto simp: since_def items)
  then show ?thesis using assms(2) by simp
qed

text \<open>An answered poll shows what is past the position and moves it to the end.\<close>

lemma answered_tick:
  assumes "po_primed p" "length ps < u64_limit" "length ps \<le> unat (po_last p) + CAP"
    and "feeds v fs p (push_all ps events_default)"
  shows "\<exists>i. unat i = max (unat (po_last p)) (length ps)
    \<and> poll_tick v fs p = ((if po_prev_up p = Some False then [''web-reload''] else [])
        @ map toast_lines (drop (unat (po_last p)) ps),
      Some (p\<lparr>po_prev_up := Some True, po_last := i\<rparr>),
      if i \<noteq> 0 then save_cursor (pe_io v) (pe_now v) (pe_dir v) i fs else fs)"
proof -
  let ?i = "po_last p"
  note fed = fed_tick [OF assms(4,1), unfolded since_default [OF assms(2,3)]]
  show ?thesis
  proof (cases "unat ?i \<le> length ps")
    case True
    have n: "drop (unat ?i) (news 0 ps) = news ?i (drop (unat ?i) ps)" using drop_news [OF True, of 0] by simp
    have l: "unat ?i + length (drop (unat ?i) ps) = length ps" using True by simp
    have "unat (?i + of_nat (length (drop (unat ?i) ps))) = length ps"
    proof -
      have "?i + of_nat (length (drop (unat ?i) ps)) = of_nat (unat ?i + length (drop (unat ?i) ps))"
        by (simp only: of_nat_add of_nat_unat ucast_id)
      then show ?thesis unfolding l using assms(2) by (simp add: unsigned_of_nat take_bit_nat_eq_self)
    qed
    moreover have "show_new (map shown_of (news ?i (drop (unat ?i) ps))) ?i
        = (map toast_lines (drop (unat ?i) ps), ?i + of_nat (length (drop (unat ?i) ps)))"
      using show_new_all [of ?i "drop (unat ?i) ps"] l assms(2) news_toasts by simp
    ultimately show ?thesis using True unfolding fed n
      by (intro exI [of _ "?i + of_nat (length (drop (unat ?i) ps))"]) simp
  next
    case False
    then show ?thesis unfolding fed by (intro exI [of _ ?i]) simp
  qed
qed

lemma unanswered_tick:
  assumes "unanswered v fs p" "poll_tick v fs p = (cmds, Some q, fs')"
  shows "\<exists>up. q = p\<lparr>po_prev_up := up\<rparr> \<and> set cmds \<subseteq> {''web-reload''}"
  using assms by (auto simp: unanswered_def poll_tick_def Let_def split: if_splits option.splits fetched.splits)

section \<open>A run\<close>

abbreviation toasts_in :: "string list \<Rightarrow> string list" where
  "toasts_in cs \<equiv> filter (\<lambda>c. c \<noteq> ''web-reload'') cs"

lemma toast_lines_in [simp]: "toasts_in (map toast_lines ps) = map toast_lines ps"
  using toast_lines_not_reload by (induction ps) auto

lemma drop_take_more: "a \<le> b \<Longrightarrow> drop a (take b xs) @ drop b xs = drop a xs"
  by (metis append_take_drop_id drop_append drop_drop drop_take le_add_diff_inverse2 add.commute)

lemma watched_shows:
  assumes "watched p0 fs0 ps cs p fs" "po_primed p0" "length ps < u64_limit"
  shows "po_primed p \<and> unat (po_last p0) \<le> unat (po_last p)
    \<and> (po_last p = po_last p0 \<or> unat (po_last p) \<le> length ps)
    \<and> toasts_in cs = map toast_lines (drop (unat (po_last p0)) (take (unat (po_last p)) ps))"
  using assms(1,3)
proof (induction rule: watched.induct)
  case (Pushed ps cs p fs ev)
  then show ?case by auto
next
  case (Answered ps cs p fs v cmds q fs')
  let ?a = "unat (po_last p0)" and ?b = "unat (po_last p)"
  note IH = Answered.IH [OF Answered.prems]
  obtain i where i: "unat i = max ?b (length ps)" "cmds = (if po_prev_up p = Some False then [''web-reload''] else [])
        @ map toast_lines (drop ?b ps)" "q = p\<lparr>po_prev_up := Some True, po_last := i\<rparr>"
    using answered_tick [OF _ Answered.prems Answered.hyps(3,2)] Answered.hyps(4) IH by auto
  have "toasts_in (cs @ cmds) = map toast_lines (drop ?a ps)"
    using IH drop_take_more [of ?a ?b ps] by (auto simp: i(2) map_append [symmetric] simp del: map_append)
  moreover have "i = po_last p" if "length ps < ?b" using i(1) that by (simp add: word_unat_eq_iff)
  ultimately show ?case using IH i(1,3) by auto
next
  case (Unanswered ps cs p fs v cmds q fs')
  obtain up where "q = p\<lparr>po_prev_up := up\<rparr>" "set cmds \<subseteq> {''web-reload''}"
    using unanswered_tick [OF Unanswered.hyps(2,3)] by blast
  then show ?case using Unanswered.IH [OF Unanswered.prems] by (auto simp: filter_empty_conv)
qed (use assms(2) in simp)

end
