(* ===== verification/Spec2Isabelle.thy ===== *)
theory Spec2Isabelle
  imports Prelude Utf8 Externals Protocol Identity Events Store Files Share Inbox RateLimit Pairing
    LocalPrint Node Auth Scope Search DataPlane Registry Updater AdminScope Admin Proxy Calls
    Wire Machine Access Config Startup Lifecycle Shell Notify Interleave OwnerApi
    Upkeep Demo Scenario Phases Covered Discover Tray Platform UnitTests DiskTests LawTests Frames Toasts
begin

text \<open>DocLink shares files between Windows PCs of one network without a server in the middle. This
  development models its Rust code under src/crates and states what makes it correct; a reader needs the
  repository only. Paths below are relative to src/crates.

  \<^bold>\<open>The program.\<close> On every PC runs a daemon (@<doclinkd>) with two servers. The peers' server answers other PCs
  over TLS: they ask to be paired, list, search and download what the owner shares with them, drop files
  into an inbox and print. A request is signed with the key whose hash is the PC's fingerprint, and is
  answered under the grant of that fingerprint. The owner's server, on the loopback address, decides pairing
  requests, narrows and revokes grants, accepts or discards what came in, and calls other PCs on the owner's
  behalf, each pinned to the fingerprint of its contact. A window (@<doclink-win>) starts the daemon, shows
  the owner's pages and polls the daemon's events for its toasts. Grants, contacts and the printer's token
  are JSON files; the rest of the state lives in memory and is shared by the two servers. The model keeps those
  files with their stores (@<st_disk> of a @<store>), apart from the tree of the share and the inbox (@<nd_fs>).

  \<^bold>\<open>Theories and sources.\<close>
  \<^item> @<Prelude>, @<Utf8>: strings as lists of bytes with Rust's operations, numbers, keyed lists; UTF-8 and its
    lossy reading. @<Externals>: the third-party functions (hex, SHA-256, ed25519, AES-GCM, URL encoding,
    X.509, lower case) as one record with their documented laws, and an instance of it.
  \<^item> @<Protocol>, @<Identity>: doclink-core/src/protocol.rs, identity.rs and cert.rs.
  \<^item> @<Events>, @<Store>, @<Registry>: doclinkd/src/events.rs, store.rs with the sweeper and the verifier,
    doclink-core/src/discovery.rs with peer.rs, scan.rs and the keepalive.
  \<^item> @<Files>: the file system, with links, denied paths and failing or torn operations. @<Share>, @<Inbox>:
    share.rs and inbox.rs. @<Interleave>: uploads that run at the same time.
  \<^item> @<RateLimit>, @<Pairing>, @<Scope>, @<Search>, @<Node>, @<DataPlane>: the peers' server, server.rs, from
    its limiter and pairing queue to @<serve>, which dispatches a request. @<Auth>: auth.rs.
    @<LocalPrint>: local_print.rs.
  \<^item> @<AdminScope>, @<Admin>, @<Calls>, @<OwnerApi>: the owner's server, admin.rs, from @<subtract_from_scope>
    to @<owner_serve>, which puts the guard in front of the routes. @<Proxy>: proxy.rs. @<Wire>: the calls of
    one node answered by the routes of another.
  \<^item> @<Config>, @<Startup>, @<Updater>, @<Upkeep>: config.rs, main.rs, updater.rs, the background loops, tls.rs
    and the staging of files for the printer.
  \<^item> @<Shell>, @<Tray>, @<Notify>: doclink-win/src/main.rs (the poller and its commands; the tray, its drawn icon,
    the place of the card and the event loop), and the window together with the daemon.
  \<^item> @<Discover>: the browser of discovery.rs over batches of mDNS events, advertising and goodbyes. @<Platform>:
    what the program asks of the system (permissions of the key file, TLS configuration, shell requests).
  \<^item> @<Phases>: sharing an item while the node is busy. @<Covered>: what a signature covers, and for how long.
    @<Frames>: what requests, uploads and the accepting of a file leave alone and leave behind, and what enters the
    pairing queue. @<Toasts>: a window over a run of pushes and polls.
  \<^item> @<UnitTests>, @<DiskTests>, @<LawTests>: the repository's unit tests as propositions the model satisfies.
  \<^item> @<Machine>, @<Access>, @<Lifecycle>: the whole node as a transition system, what it promises about access,
    and the daemon over many starts, stops and crashes. @<Demo>, @<Scenario>: concrete nodes for witnesses.

  \<^bold>\<open>How it is modelled.\<close> A struct is a record and an enum a datatype; a handler is a function from its state
  to an answer and the state after it, with every early return a branch and an error a value of the sum
  with @<http_error>. What a call meets outside (clock readings in their order, outcomes of disk operations,
  random bytes, the network, the parsers) is an argument. Machine integers are words; where the code adds on
  them the sum wraps, as in a release build. Handlers run one after the other, in any order; the two places
  where the code awaits between looking and changing without a lock are also modelled operation by operation:
  the storing of uploads, interleaved in @<Interleave>, and the sharing of an item, amid anything, in @<Phases>.

  \<^bold>\<open>What is shown.\<close> The properties C1 to C40 stand in this theory, each after the sentence it proves and with
  a witness where it has hypotheses. What a peer can read and write (C1 to C4, C12 to C17); who holds access
  and keeps it, on a busy node and over all runs and restarts (C5 to C9, C33); replays and what a signature covers
  (C10, C11); pairing and its limiter (C18 to C20); events, scopes and stores (C21 to C24); the owner's guard and
  routes (C25, C26); printing (C27); calls between two nodes (C28 to C32); searches (C34); discovery (C35); start,
  settings, the window and updates (C36 to C40). Beside the theorems that hold as meant there are some that show
  where the code does otherwise: C15, C30, the last sentences of C6, C11, C25, C32 and C40, and the theorems without a
  number on a scope that holds the empty path (@<empty_path_scope>), denials that outlive an approval
  (@<stale_denial_shadows>), toasts that are muted (@<stale_cursor_mutes>, @<peer_mutes_toasts>) and others, with
  @<Phases.widened_meanwhile>, @<Covered.altered_upload>, @<Covered.late_replay> and @<Tray.card_scaled>. Lemmas are grouped by component in the
  theories above: what an operation that succeeds has done (names ending in Inr), what it leaves alone
  (names in frame and keeps), and invariants (names in ok and sane). The locales are the interfaces: @<keyed_store>
  for vectors and maps kept by key (interpreted on grants, contacts and the hash maps), @<ttl_cache> for the
  replay cache, @<canonical_paths> for what the share and the inbox ask of the file system.

  \<^bold>\<open>Bounds and fuel.\<close> Following links has a budget of 40, as an operating system has. The search for a free
  name tries as many names as there are files and one more, which always suffices (@<dedupe_fresh>). The walk
  that narrows a scope has the length of the item's path as fuel, enough because each step goes to a longer
  path (C22). The searches and the parsing of chunks end by a measure. The walk over a peer's directories is
  bounded by the code's own budget.

  \<^bold>\<open>What is not modelled, and why.\<close> The cryptography, TLS, X.509, mDNS, JSON, TOML and HTTP libraries: third-party,
  parameters with named laws. The building of the HTTP clients, logging, what windows and pages show, and what
  icacls, PowerShell, netsh, the file manager and the printer do beyond the commands and requests given to them:
  input and output without state of the program. Of the unit tests, those that fix vectors of the cryptography,
  the text of a JSON value or the refusal of a malformed certificate, which are claims about those libraries.
  The web pages under webui are not Rust. Times are whole seconds, names of files compare exactly, and a
  single file operation is one step.\<close>

section \<open>What a peer can read\<close>

text \<open>C1. A download that succeeds was asked for by a caller whose signature verifies under the key of
  a live grant; that grant allows files and its scope covers the requested path; the path resolves
  below the share root through no link; and what is streamed is the content of that file from some
  offset on.\<close>

theorem download_safe:
  assumes "file_handler y n h path s = (Inr d, s')"
  shows "\<exists>g p content m. authenticated y n h ''GET'' (file_path_q (sy_x y) path) [] s g
    \<and> g_allow_files g \<and> can_read_file (g_paths g) path
    \<and> resolve (nd_fs s) (nd_share s) path = Inr p \<and> prefix (sh_root (nd_share s)) p \<and> solid (nd_fs s) p
    \<and> fs_get (nd_fs s) p = Some (FFile content m) \<and> (\<exists>k. dl_stream d = drop k content)"
  using assms by (elim file_handler_Inr) (blast dest: resolve_inside resolve_solid serve_file_Inr)

theorem download_safe_witness:
  "\<exists>g. authenticated demo_sys demo_env (demo_headers ''GET'' (file_path_q demo_ext ''ab'') []) ''GET''
      (file_path_q demo_ext ''ab'') [] (demo_node [''ab'']) g \<and> can_read_file (g_paths g) ''ab''"
  using demo_download download_safe [of demo_sys demo_env _ "''ab''" "demo_node [''ab'']"] by fastforce

text \<open>C2. A listing that succeeds went to an authenticated caller whose grant may list the directory.
  It holds exactly the entries of the directory that are visible in the grant's scope; every file
  in it may be read under the grant, and every entry that may be read is in it.\<close>

theorem listing_exact:
  assumes "list_handler y n h path s = (Inr r, s')"
  shows "\<exists>g es. authenticated y n h ''GET'' (list_path_q (sy_x y) path) [] s g \<and> g_allow_files g
    \<and> can_list (g_paths g) path \<and> share_list (sy_x y) (nd_fs s) (nd_share s) path = Inr es
    \<and> set (lr_entries r) = {e \<in> set es. g_paths g = [] \<or> entry_visible (g_paths g) (de_path e) (de_kind e)}
    \<and> (\<forall>e \<in> set (lr_entries r). de_kind e = File \<longrightarrow> can_read_file (g_paths g) (de_path e))
    \<and> (\<forall>e \<in> set es. can_read_file (g_paths g) (de_path e) \<longrightarrow> e \<in> set (lr_entries r))"
proof -
  have vis: "can_read_file ps f \<Longrightarrow> ps = [] \<or> entry_visible ps f k" for ps f k
    by (auto simp: can_read_file_def entry_visible_def list_ex_iff)
  have all: "can_read_file [] f" for f by (simp add: can_read_file_def)
  show ?thesis using assms
    by (elim list_handler_Inr) (auto intro!: exI simp: all dest: vis visible_file_readable)
qed

theorem listing_exact_witness:
  "\<exists>g. authenticated demo_sys demo_env (demo_headers ''GET'' (list_path_q demo_ext []) []) ''GET''
      (list_path_q demo_ext []) [] (demo_node [''ab'']) g \<and> can_list (g_paths g) []"
  using demo_listing listing_exact [of demo_sys demo_env _ "[]" "demo_node [''ab'']"] by fastforce

text \<open>C3. Every hit of a search may be read under the caller's grant, which allows files, unless the
  grant's scope holds the empty path. (The owner's update stores such a scope as it is; the next theorem shows
  what a search then reports.)\<close>

theorem search_in_scope:
  assumes "search_handler y n h q s = (Inr r, s')"
  shows "\<exists>g. authenticated y n h ''GET'' (search_path_q (sy_x y) q) [] s g \<and> g_allow_files g
    \<and> (\<forall>e \<in> set (sr_results r). can_read_file (g_paths g) (de_path e) \<or> [] \<in> set (g_paths g))"
proof -
  obtain g where "authenticated y n h ''GET'' (search_path_q (sy_x y) q) [] s g" "g_allow_files g"
    "\<And>e. e \<in> set (sr_results r) \<Longrightarrow> [] \<notin> set (g_paths g) \<Longrightarrow> can_read_file (g_paths g) (de_path e)"
    using search_hits_readable [OF assms] by blast
  then show ?thesis by blast
qed

theorem search_in_scope_witness:
  "\<exists>g. authenticated demo_sys demo_env (demo_headers ''GET'' (search_path_q demo_ext ''ab'') []) ''GET''
      (search_path_q demo_ext ''ab'') [] (demo_node [''ab'']) g \<and> g_allow_files g"
  using demo_searching search_in_scope [of demo_sys demo_env _ "''ab''" "demo_node [''ab'']"] by fastforce

text \<open>The scope that holds the empty path only: a search reports a file of the share whose download is refused as
  outside the scope.\<close>

theorem empty_path_scope:
  "\<exists>r s' e. search_handler demo_sys demo_env (demo_headers ''GET'' (search_path_q demo_ext ''ab'') []) ''ab''
      (demo_node [[]]) = (Inr r, s') \<and> e \<in> set (sr_results r) \<and> de_path e = ''ab''
    \<and> fst (file_handler demo_sys demo_env (demo_headers ''GET'' (file_path_q demo_ext ''ab'') []) ''ab'' (demo_node [[]]))
      = Inl (err FORBIDDEN ''path outside grant scope'')"
proof -
  have "search_scope demo_ext demo_fs \<lparr>sh_root = [''C'', ''s'']\<rparr> [[]] ''ab''
      = search_scope demo_ext demo_fs \<lparr>sh_root = [''C'', ''s'']\<rparr> [] ''ab''" by (simp add: search_scope_def)
  then have w: "search_scope demo_ext demo_fs \<lparr>sh_root = [''C'', ''s'']\<rparr> [[]] ''ab''
      = ([\<lparr>de_name = ''ab'', de_path = ''ab'', de_kind = File, de_size = 2, de_modified_unix = None\<rparr>], False)"
    by (simp only: demo_search)
  have "\<not> can_read_file [[]] ''ab''" by code_simp
  then show ?thesis by (simp add: search_handler_def file_handler_def demo_query w Let_def)
    (intro exI [of _ "\<lparr>de_name = ''ab'', de_path = ''ab'', de_kind = File, de_size = 2, de_modified_unix = None\<rparr>"], simp)
qed

text \<open>C4. What a request of a peer can change. In memory and in the files of the stores: no grant, and nothing of
  the identity, the node's name, its roots and its limit; of the contacts the status only, of the contact whose key
  signed a decision sent to this node, and the file of the contacts is then the old one or holds the new ones; and the
  printer's token only when an authenticated PC whose grant allows printing asked to print. In the tree of
  files: only direct children of the inbox directory, where that directory is reached without links and holds
  none. (The files of the stores, @<nd_grants>, @<nd_contacts> and
  @<nd_print>, are kept apart from the tree, @<nd_fs>.)\<close>

theorem requests_confined:
  assumes "inbox_ok (nd_fs s) (nd_inbox s)" "serve y n ip h req s = (resp, s')"
  shows "nd_grants s' = nd_grants s \<and> nd_identity s' = nd_identity s \<and> nd_node s' = nd_node s
    \<and> nd_share s' = nd_share s \<and> nd_inbox s' = nd_inbox s \<and> nd_inbox_max s' = nd_inbox_max s
    \<and> (nd_contacts s' = nd_contacts s \<or> (\<exists>b d fp. req = PostPairDecision b \<and> sy_pair_decision y b = Some d
        \<and> verify (sy_x y) (pd_pubkey_hex d) (canonical_decision_string d) (pd_signature d) = Inr ()
        \<and> pd_requester_node_id d = ni_node_id (nd_node s)
        \<and> fingerprint_from_pubkey_hex (sy_x y) (pd_pubkey_hex d) = Some fp
        \<and> contacts_of s' = update_first (\<lambda>c. c_fingerprint c = fp)
            (\<lambda>c. c\<lparr>c_status := contact_label (decision_status (pd_decision d))\<rparr>) (contacts_of s)
        \<and> main_file (st_disk (nd_contacts s')) \<in> {main_file (st_disk (nd_contacts s)), cd_ser (sy_contacts y) (contacts_of s')}))
    \<and> (nd_print s' = nd_print s \<or> (\<exists>nm b q g. req = PostPrint nm b
        \<and> authenticated y n h ''POST'' (print_path_q (sy_x y) q) b s g \<and> g_allow_print g))
    \<and> (\<forall>q. (\<forall>w. q \<noteq> ib_root (nd_inbox s) @ [w]) \<longrightarrow> fs_get (nd_fs s') q = fs_get (nd_fs s) q)"
proof -
  have s': "s' = snd (serve y n ip h req s)" using assms(2) by simp
  have "settled s' = settled s" unfolding s' by (rule serve_settled)
  moreover have "nd_contacts s' = nd_contacts s \<or> (\<exists>b d. req = PostPairDecision b \<and> sy_pair_decision y b = Some d \<and> relabelled y d s s')"
    unfolding s' by (rule serve_contacts)
  moreover have "nd_print s' = nd_print s \<or> (\<exists>nm b q g. req = PostPrint nm b
        \<and> authenticated y n h ''POST'' (print_path_q (sy_x y) q) b s g \<and> g_allow_print g)"
    unfolding s' by (rule serve_print)
  moreover have "fs_get (nd_fs s') q = fs_get (nd_fs s) q" if "\<forall>w. q \<noteq> ib_root (nd_inbox s) @ [w]" for q
    unfolding s' by (rule serve_fs_frame [OF assms(1)]) (use that in blast)
  ultimately show ?thesis unfolding settled_def relabelled_def by blast
qed

theorem requests_confined_witness:
  "fs_get (nd_fs (snd (serve demo_sys demo_env None (\<lambda>_. None) (PostUpload ''a'' ''b'') (demo_node [])))) [''C'', ''s'', ''ab'']
      = Some (FFile ''hi'' None)
    \<and> nd_contacts (snd (serve demo_sys demo_env None (\<lambda>_. None) (PostUpload ''a'' ''b'') (demo_node []))) = nd_contacts (demo_node [])"
proof -
  have f: "fs_get demo_fs [''C'', ''s'', ''ab''] = Some (FFile ''hi'' None)" by code_simp
  obtain resp s' where s: "serve demo_sys demo_env None (\<lambda>_. None) (PostUpload ''a'' ''b'') (demo_node []) = (resp, s')"
    by (metis prod.collapse)
  show ?thesis using requests_confined [OF _ s] demo_inbox_ok f by (simp add: s)
qed

section \<open>Who holds access\<close>

text \<open>C5. Sharing an item with a set of PCs gives exactly them access to it: afterwards a grant reads
  the item if and only if its PC was checked, whatever each scope was before. (The path does not end in a
  slash and holds no NUL, and no entry of the disk has an empty name.)\<close>

theorem share_item_exact:
  assumes "share_item y n path fps s = (Inr infos, s')" "fs_ok (nd_fs s)" "names_ok (nd_fs s)"
    "last path \<noteq> CHR ''/''" "CHR 0x00 \<notin> set path"
  shows "\<forall>g \<in> set (grants_of s'). can_read_file (g_paths g) path \<longleftrightarrow> g_fingerprint g \<in> set fps"
proof
  fix g'
  assume "g' \<in> set (grants_of s')"
  then obtain g where g: "g \<in> set (grants_of s)" "g' = share_on_grant (shared_listings y s path fps) path fps g"
    using share_item_grants(1) [OF assms(1)] by auto
  show "can_read_file (g_paths g') path \<longleftrightarrow> g_fingerprint g' \<in> set fps"
    using share_on_grant_wanted [of g fps _ path path] g
      share_on_grant_unwanted [OF assms(2,3) g(1) _ share_item_grants(3) [OF assms(1)] assms(4,5)]
    by (cases "g_fingerprint g \<in> set fps") auto
qed

theorem share_item_exact_witness:
  "\<exists>infos s'. share_item demo_admin_sys demo_env ''ab'' [] (demo_node []) = (Inr infos, s')
    \<and> (\<forall>g \<in> set (grants_of s'). \<not> can_read_file (g_paths g) ''ab'')"
  using demo_share_item share_item_exact [of demo_admin_sys demo_env "''ab''" "[]" "demo_node []"] demo_fs_ok
  by fastforce

text \<open>C6. What sharing an item does to the access to an unrelated file, grant by grant: it never widens it; it
  leaves a checked PC's as it was, and every PC's when the directories on the way to the item can be listed and show
  the way to that file. A root that cannot be listed counts as an empty one, and takes everything from a
  PC that had full access and was not checked.\<close>

theorem share_item_keeps_others:
  assumes "share_item y n path fps s = (Inr infos, s')" "fs_ok (nd_fs s)" "names_ok (nd_fs s)"
    "f \<noteq> path" "\<not> within f path" "\<not> within path f" "CHR 0x00 \<notin> set f"
  shows "list_all2 (\<lambda>g g'. g_fingerprint g' = g_fingerprint g
    \<and> (can_read_file (g_paths g') f \<longrightarrow> can_read_file (g_paths g) f)
    \<and> (g_fingerprint g \<in> set fps \<or> leads_to (sy_x (as_sys y)) (nd_fs s) (nd_share s) path f
        \<longrightarrow> (can_read_file (g_paths g') f \<longleftrightarrow> can_read_file (g_paths g) f))
    \<and> ((\<exists>e. share_list (sy_x (as_sys y)) (nd_fs s) (nd_share s) [] = Inl e) \<and> g_fingerprint g \<notin> set fps \<and> g_paths g = []
        \<longrightarrow> g_paths g' = [NO_ACCESS])) (grants_of s) (grants_of s')"
proof -
  let ?g = "share_on_grant (shared_listings y s path fps) path fps"
  have w: "can_read_file (g_paths (?g g)) f \<longleftrightarrow> can_read_file (g_paths g) f" if "g_fingerprint g \<in> set fps" for g
    using share_on_grant_wanted [of g fps _ path f] assms(4,5) that by blast
  have "can_read_file (g_paths (?g g)) f \<Longrightarrow> can_read_file (g_paths g) f" for g
    using w share_on_grant_narrows [OF assms(2,3) _ assms(7)] by blast
  moreover have "can_read_file (g_paths (?g g)) f \<longleftrightarrow> can_read_file (g_paths g) f"
    if "leads_to (sy_x (as_sys y)) (nd_fs s) (nd_share s) path f" for g
    using w share_on_grant_others [OF assms(2,3) _ that assms(4-7)] by blast
  moreover have "g_paths (?g g) = [NO_ACCESS]" if "g \<in> set (grants_of s)" "g_fingerprint g \<notin> set fps" "g_paths g = []"
    "share_list (sy_x (as_sys y)) (nd_fs s) (nd_share s) [] = Inl e" for g e
    using share_on_grant_unlisted [OF that(4,1-3)] by simp
  ultimately show ?thesis
    unfolding share_item_grants(1) [OF assms(1)] list_all2_map2 list_all2_same share_on_grant_fingerprint using w by blast
qed

theorem share_item_keeps_others_witness:
  "\<exists>infos s'. share_item demo_admin_sys demo_env ''ab'' [] (demo_node []) = (Inr infos, s')
    \<and> (\<exists>g. grants_of s' = [g] \<and> can_read_file (g_paths g) ''d/cd'')"
proof -
  obtain infos s' where s: "share_item demo_admin_sys demo_env ''ab'' [] (demo_node []) = (Inr infos, s')"
    using demo_share_item by blast
  have l: "leads_to demo_ext demo_fs \<lparr>sh_root = [''C'', ''s'']\<rparr> ''ab'' ''d/cd''" by code_simp
  have "\<not> within ''d/cd'' ''ab''" "\<not> within ''ab'' ''d/cd''" by code_simp+
  then have "list_all2 (\<lambda>g g'. leads_to demo_ext demo_fs \<lparr>sh_root = [''C'', ''s'']\<rparr> ''ab'' ''d/cd''
      \<longrightarrow> (can_read_file (g_paths g') ''d/cd'' \<longleftrightarrow> can_read_file (g_paths g) ''d/cd'')) [demo_grant []] (grants_of s')"
    using share_item_keeps_others [OF s, of "''d/cd''"] demo_fs_ok
    by (auto simp: demo_admin_sys_def elim: list_all2_mono)
  then show ?thesis using s l by (auto simp: list_all2_Cons1 can_read_file_def)
qed

text \<open>C7. Sharing an item holds its promise on a busy node: the request looks at the grants, lists one directory after
  the other and only then changes the grants, and whatever happens in between (other requests, changes of
  grants by other routes, files that come and go), afterwards a grant reads the item if and only if its PC was
  checked. The only proviso is that, if some grant has to be narrowed at the end, some grant already had to be
  when the request looked.\<close>

theorem shared_amid_others:
  assumes "si_pc t = Looking" "disk_ok s" "amid y n (share_step y n t s) (t1, s1)"
    and "si_pc t1 = Fetching [] got" "share_step y n t1 s1 = (t2, s2)"
    and "si_path t \<noteq> []" "last (si_path t) \<noteq> CHR ''/''" "CHR 0x00 \<notin> set (si_path t)"
    and "list_ex (to_narrow (si_path t) (si_fps t)) (grants_of s1)
      \<Longrightarrow> list_ex (to_narrow (si_path t) (si_fps t)) (grants_of s)"
  shows "\<forall>g \<in> set (grants_of s2). can_read_file (g_paths g) (si_path t) \<longleftrightarrow> g_fingerprint g \<in> set (si_fps t)"
  using share_amid_exact [OF assms] by blast

theorem shared_amid_others_witness:
  "\<exists>t s. amid demo_admin_sys demo_env (\<lparr>si_path = ''ab'', si_fps = [], si_pc = Looking\<rparr>, demo_node []) (t, s)
    \<and> si_pc t = Shared (map to_grant_info (grants_of s)) \<and> (\<forall>g \<in> set (grants_of s). \<not> can_read_file (g_paths g) ''ab'')"
proof -
  let ?t = "\<lambda>pc. \<lparr>si_path = ''ab'', si_fps = [], si_pc = pc\<rparr>"
  have d: "disk_ok (demo_node ps)" for ps using demo_fs_ok by (simp add: disk_ok_def)
  have "scope_dirs ''ab'' = [[]]" by code_simp
  then have a: "share_step demo_admin_sys demo_env (?t Looking) (demo_node []) = (?t (Fetching [[]] []), demo_node [])"
    by (simp add: share_step_def to_narrow_def demo_grant_def)
  define got :: "(string \<times> string list) list" where "got = [([], survivors demo_ext demo_fs \<lparr>sh_root = [''C'', ''s'']\<rparr> ''ab'' [])]"
  have b: "share_step demo_admin_sys demo_env (?t (Fetching [[]] [])) (demo_node [''ab'']) = (?t (Fetching [] got), demo_node [''ab''])"
    by (simp add: share_step_def got_def demo_admin_sys_def)
  obtain t2 s2 where c: "share_step demo_admin_sys demo_env (?t (Fetching [] got)) (demo_node [''ab'']) = (t2, s2)" by force
  have m: "amid demo_admin_sys demo_env (?t (Fetching [[]] []), demo_node []) (?t (Fetching [] got), demo_node [''ab''])"
    unfolding b [symmetric] by (rule amid.own [OF amid.other [OF amid.here d]])
  have "amid demo_admin_sys demo_env c (?t (Fetching [] got), demo_node [''ab''])"
    if "c = (?t Looking, demo_node [])" for c
    unfolding that b [symmetric]
    by (rule amid.own, rule amid.other [OF _ d], subst a [symmetric], rule amid.own, rule amid.here)
  then have "amid demo_admin_sys demo_env (?t Looking, demo_node []) (t2, s2)" using amid.own c by metis
  moreover have "si_pc t2 = Shared (map to_grant_info (grants_of s2))"
    using c by (auto simp: share_step_def save_grants_def demo_admin_sys_def Let_def grants_saves)
  moreover have "\<forall>g \<in> set (grants_of s2). can_read_file (g_paths g) ''ab'' \<longleftrightarrow> g_fingerprint g \<in> set []"
    using shared_amid_others [of "?t Looking" "demo_node []" demo_admin_sys demo_env "?t (Fetching [] got)" "demo_node [''ab'']" got t2 s2]
      m c d by (simp add: a to_narrow_def demo_grant_def)
  ultimately show ?thesis by simp blast
qed

text \<open>Within one run: a revoked PC stays out: if after the owner revokes the grant of a key a signed request under that
  key is accepted again, the owner has approved a pairing request of that key's node since.\<close>

theorem revoked_stays_out:
  assumes "boot y a0" "run y a0 ls a" "step y a (Owner_Revoke fp) b" "run y b ls' c"
    and "require_auth (sy_x (as_sys y)) clk h method path_q body (ad_node c) = (Inr g, s')"
    and "h ''x-doclink-pub'' = Some pk" "fingerprint_from_pubkey_hex (sy_x (as_sys y)) pk = Some fp"
  shows "Owner_Decision (take 16 fp) ''approve'' \<in> set ls'"
proof -
  have "admin_sane (sy_x (as_sys y)) b"
    using step_sane [OF assms(3) run_sane [OF assms(2) boot_sane [OF assms(1)]]] .
  moreover have "holds_grant fp c"
    using assms(5,6,7) by (elim require_auth_Inr) (auto simp: verify_headers_Inr check_grant_Inr holds_grant_def find_Some_iff)
  ultimately show ?thesis using run_new_grant [OF assms(4)] revoke_drops [OF assms(3)] by blast
qed

theorem revoked_stays_out_witness:
  "\<exists>ls' c. run demo_admin_sys demo_revoked ls' c
    \<and> Owner_Decision (take 16 (fingerprint demo_ext demo_ident)) ''approve'' \<in> set ls'"
proof -
  let ?ls = "[Peer_Request, Owner_Decision (node_id demo_ext demo_ident) (db_decision demo_approve)]"
  have r: "step demo_admin_sys (demo_admin []) (Owner_Revoke (fingerprint demo_ext demo_ident)) demo_revoked"
    unfolding demo_revoked_def by (rule step.revoke)
  have "run demo_admin_sys demo_revoked ([] @ [Peer_Request]) demo_asked"
    unfolding demo_asked_def by (rule run.more [OF run.stay step.peer])
  then have q: "run demo_admin_sys demo_revoked ?ls demo_approved"
    unfolding demo_approved_def using run.more step.decide by fastforce
  have "demo_headers ''GET'' [] [] ''x-doclink-pub'' = Some (x_hex_encode demo_ext (verifying_key demo_ext demo_ident))"
    by (simp add: demo_headers_def auth_headers_body_def Let_def)
  then have "Owner_Decision (take 16 (fingerprint demo_ext demo_ident)) ''approve'' \<in> set ?ls"
    using revoked_stays_out [OF demo_boot run.stay r q, of "\<lambda>_. 0" "demo_headers ''GET'' [] []" "''GET''" "[]" "[]"]
      demo_honest [of "''GET''" "[]" "[]"] fingerprint_of_own_pubkey [OF demo_hex_laws, of demo_ident]
    by (auto simp: demo_admin_sys_def)
  then show ?thesis using q by blast
qed

text \<open>Within one run: in every state the node can reach, by any interleaving of requests from the network, actions of
  the owner and background loops, at most one grant names a key and every grant names the node id of
  its key; the waiting requests and the recorded decisions are bounded, with one entry a node id, and
  every waiting request is one whose key has that node id; the event ring is bounded and the peer
  registry holds one peer an id.\<close>

theorem reachable_sane:
  assumes "boot y a0" "run y a0 ls a"
  shows "grants_sane (grants_of (ad_node a)) \<and> pairing_ok (nd_pairing (ad_node a))
    \<and> pending_sane (sy_x (as_sys y)) (nd_pairing (ad_node a)) \<and> length (items (nd_events (ad_node a))) \<le> CAP
    \<and> registry_ok (ad_peers a)"
  using run_sane [OF assms(2) boot_sane [OF assms(1)]] by (auto simp: admin_sane_def node_sane_def)

theorem reachable_sane_witness: "grants_sane (grants_of (ad_node demo_revoked))"
proof -
  have "run demo_admin_sys (demo_admin []) ([] @ [Owner_Revoke (fingerprint demo_ext demo_ident)]) demo_revoked"
    unfolding demo_revoked_def by (rule run.more [OF run.stay step.revoke])
  then show ?thesis using reachable_sane [OF demo_boot] by blast
qed

text \<open>C8. A revoked PC stays out, across restarts: if after the owner revokes the grant of a key a signed request
  under that key is accepted again, then, however often the daemon was stopped, crashed in the middle of a
  save, or was started again in between, the owner has approved a pairing request of that key's node since.\<close>

theorem revoked_for_good:
  assumes "codec_ok (sy_grants (as_sys y))" "cd_default (sy_grants (as_sys y)) = []"
    and "computer_ok y s0" "life y s0 ls0 (On a key)"
    and "revoke_grant y n fp (ad_node a) = (Inr u, s')" "life y (On (a\<lparr>ad_node := s'\<rparr>) key) ls (On c key')"
    and "require_auth (sy_x (as_sys y)) clk h method path_q body (ad_node c) = (Inr g, s'')"
    and "h ''x-doclink-pub'' = Some pk" "fingerprint_from_pubkey_hex (sy_x (as_sys y)) pk = Some fp"
  shows "Owner_Decision (take 16 fp) ''approve'' \<in> set ls"
proof -
  have "step y a (Owner_Revoke fp) (a\<lparr>ad_node := s'\<rparr>)"
    using step.revoke [of y a fp n] assms(5) by (simp add: on_node_def)
  then have ok: "computer_ok y (On (a\<lparr>ad_node := s'\<rparr>) key)"
    using life_ok [OF assms(1,2) life.act [OF assms(4)] assms(3)] by blast
  have "holds_grant fp c"
    using assms(7-9) by (elim require_auth_Inr) (auto simp: verify_headers_Inr check_grant_Inr holds_grant_def find_Some_iff)
  then show ?thesis
    using life_new_grant [OF assms(1,2,6) ok revoked_key [OF assms(1,5)]] by simp
qed

theorem revoked_for_good_witness:
  "\<exists>ls c. life demo_admin_sys (On demo_revoked None) ls (On c None)
    \<and> Owner_Decision (take 16 (fingerprint demo_ext demo_ident)) ''approve'' \<in> set ls"
proof -
  let ?fp = "fingerprint demo_ext demo_ident"
  let ?ls = "[Peer_Request, Owner_Decision (node_id demo_ext demo_ident) (db_decision demo_approve)]"
  obtain u s' where r: "revoke_grant demo_admin_sys demo_env ?fp (demo_node []) = (Inr u, s')"
    "demo_revoked = (demo_admin [])\<lparr>ad_node := s'\<rparr>"
    by (simp add: demo_revoked_def on_node_def demo_admin_def revoke_grant_def save_grants_def Let_def
        demo_admin_sys_def grants_saves)
  have s: "step demo_admin_sys demo_revoked Peer_Request demo_asked"
    "step demo_admin_sys demo_asked (Owner_Decision (node_id demo_ext demo_ident) (db_decision demo_approve)) demo_approved"
    unfolding demo_asked_def demo_approved_def by (rule step.peer step.decide)+
  have l: "life demo_admin_sys (On demo_revoked None) ?ls (On demo_approved None)"
    using life.act [OF life.act [OF life.begun s(1)] s(2)] by simp
  have ok: "computer_ok demo_admin_sys (On (demo_admin []) None)"
    using boot_sane [OF demo_boot, of demo_ext] by (simp add: demo_admin_sys_def stored_sane_def demo_admin_def demo_store_def)
  have "demo_headers ''GET'' [] [] ''x-doclink-pub'' = Some (x_hex_encode demo_ext (verifying_key demo_ext demo_ident))"
    by (simp add: demo_headers_def auth_headers_body_def Let_def)
  then have "Owner_Decision (take 16 ?fp) ''approve'' \<in> set ?ls"
    using revoked_for_good [of demo_admin_sys _ _ "demo_admin []", OF _ _ ok life.begun _ l [unfolded r(2)],
        of demo_env ?fp u "\<lambda>_. 0" "demo_headers ''GET'' [] []" "''GET''" "[]" "[]"] r
      demo_honest [of "''GET''" "[]" "[]"] fingerprint_of_own_pubkey [OF demo_hex_laws, of demo_ident] grants_codec_ok
    by (auto simp: demo_admin_sys_def grants_codec_def demo_admin_def)
  then show ?thesis using l by blast
qed

text \<open>C9. Whatever happens from the first start on (requests from the network, actions of the owner, background
  loops, stops, crashes at any step of a save, further starts), while the daemon runs at most one grant
  names a key and every grant names the node id of its key; the waiting requests and the recorded
  decisions are bounded, with one entry a node id, and every waiting request is one whose key has that
  node id; the event ring is bounded, the peer registry holds one peer an id, and the identity is the one
  of the key that stood on the disk.\<close>

theorem life_well_formed:
  assumes "codec_ok (sy_grants (as_sys y))" "cd_default (sy_grants (as_sys y)) = []"
    and "main_file (md_grants d0) = None" "life y (Off d0) ls (On a key)"
  shows "grants_sane (grants_of (ad_node a)) \<and> pairing_ok (nd_pairing (ad_node a))
    \<and> pending_sane (sy_x (as_sys y)) (nd_pairing (ad_node a)) \<and> length (items (nd_events (ad_node a))) \<le> CAP
    \<and> registry_ok (ad_peers a)
    \<and> (\<forall>k. md_key d0 = Some k \<longrightarrow> signing_key (nd_identity (ad_node a)) = k)"
proof -
  have "computer_ok y (Off d0)" using assms(3) by (simp add: stored_sane_def)
  from life_ok [OF assms(1,2,4) this] life_key [OF assms(4)]
  show ?thesis by (auto simp: admin_sane_def node_sane_def)
qed

theorem life_well_formed_witness:
  "\<exists>a key. life demo_admin_sys (Off demo_disk) [Owner_Other] (On a key)
    \<and> grants_sane (grants_of (ad_node a)) \<and> signing_key (nd_identity (ad_node a)) = demo_key"
proof -
  obtain a d' where s: "daemon_start demo_admin_sys demo_start_env demo_cli demo_disk = (Inr a, d')"
    using demo_first_start by blast
  have l: "life demo_admin_sys (Off demo_disk) [Owner_Other] (On (shutdown_node a) (md_key d'))"
    using life.act [OF life.start [OF life.begun s] step.stop] by simp
  have "codec_ok (sy_grants (as_sys demo_admin_sys))" "cd_default (sy_grants (as_sys demo_admin_sys)) = []"
    using grants_codec_ok by (simp_all add: demo_admin_sys_def grants_codec_def)
  from life_well_formed [OF this _ l] show ?thesis using l
    by (auto simp: demo_disk_def no_file_def)
qed

section \<open>Signed requests\<close>

text \<open>A request signed the way a node signs its requests is accepted by every peer that holds a live
  grant for it, when the clocks agree within the window and the signature was not seen before.\<close>

theorem honest_request_accepted:
  assumes "hex_laws x" "sig_laws x" "h = map_of (auth_headers_body x i t nb method path_q body)"
    and "abs_diff (clk 0) t \<le> MAX_SKEW_SECS"
    and "\<forall>sg. h ''x-doclink-sig'' = Some sg \<longrightarrow> map_of (purge_seen (clk 1) (nd_seen s)) sg = None"
    and "List.find (\<lambda>g. g_node_id g = node_id x i) (grants_of s) = Some g"
    and "g_fingerprint g = fingerprint x i" "grant_live (clk 2) g"
  shows "fst (require_auth x clk h method path_q body s) = Inr g"
proof -
  obtain sg where "h ''x-doclink-sig'' = Some sg"
    using assms(3) by (simp add: auth_headers_body_def Let_def)
  then show ?thesis using honest_accepted [OF assms(1-4) _ _ assms(6-8)] assms(5) by simp
qed

theorem honest_request_accepted_witness:
  "fst (require_auth demo_ext (\<lambda>_. 0) (map_of (auth_headers_body demo_ext demo_ident 0 [] ''GET'' ''/v1/list'' []))
    ''GET'' ''/v1/list'' [] (demo_node [])) = Inr (demo_grant [])"
  by (rule honest_request_accepted [OF demo_hex_laws demo_sig_laws refl])
    (simp_all add: abs_diff_def purge_seen_def demo_grant_def grant_live_def)

text \<open>C10. Once a request is accepted, its signature is refused for the next 900 seconds, whatever other
  signed requests come in between.\<close>

theorem replay_rejected:
  assumes "require_auth x clk h method path_q body s = (Inr g, s1)" "distinct (map fst (nd_seen s))"
    and "h ''x-doclink-sig'' = Some sg"
    and "sorted (map (\<lambda>r. unat (fst r)) rs)"
    and "\<forall>r \<in> set rs. unat (clk 1) \<le> unat (fst r) \<and> unat (fst r) \<le> unat (clk 1) + unat MAX_SKEW_SECS"
    and "i < length rs" "snd (rs ! i) = sg"
  shows "\<not> replay_run rs (nd_seen s1) ! i"
proof -
  have "fst (reject_replays (clk 1) sg (nd_seen s)) = Inr () \<and> nd_seen s1 = snd (reject_replays (clk 1) sg (nd_seen s))"
    using assms(1,3) by (elim require_auth_Inr) (auto simp: verify_headers_Inr)
  then show ?thesis using accepted_stamped [OF _ assms(2)] replay_refused [OF _ _ assms(4-7)] by simp
qed

theorem replay_rejected_witness:
  "\<not> replay_run [(900, fst (hd (demo_seen ''GET'' [] [])))] (demo_seen ''GET'' [] []) ! 0"
proof -
  have "demo_headers ''GET'' [] [] ''x-doclink-sig'' = Some (fst (hd (demo_seen ''GET'' [] [])))"
    by (simp add: demo_headers_def auth_headers_body_def demo_seen_def Let_def)
  then show ?thesis
    using replay_rejected [OF demo_auth [of "''GET''" "[]" "[]" "[]"], where i = 0
        and rs = "[(900, fst (hd (demo_seen ''GET'' [] [])))]"]
    by (simp add: MAX_SKEW_SECS_def)
qed

text \<open>C11. What a signature covers: two requests have the same signed string if and only if they agree in
  method, path with query, time stamp, nonce and the lossy reading of the body as text; so a body altered to
  another of the same reading is answered exactly as the original.\<close>

theorem signature_covers:
  assumes "nl \<notin> set m" "nl \<notin> set m'" "nl \<notin> set p" "nl \<notin> set p'" "nl \<notin> set c" "nl \<notin> set c'"
  shows "(request_canonical m p (show_u64 t) c b = request_canonical m' p' (show_u64 t') c' b'
      \<longleftrightarrow> m = m' \<and> p = p' \<and> t = t' \<and> c = c' \<and> from_utf8_lossy b = from_utf8_lossy b')
    \<and> (from_utf8_lossy b = from_utf8_lossy b' \<longrightarrow> require_auth x clk h m p b s = require_auth x clk h m p b' s)"
  using canonical_iff [of m m' p p' "show_u64 t" "show_u64 t'" c c' b b'] assms require_auth_lossy [of b b']
    show_u64_inj [of t t'] by auto

theorem signature_covers_witness:
  "fst (require_auth demo_ext (\<lambda>_. 0) (demo_headers ''POST'' ''/v1/upload'' [CHR 0xFF]) ''POST'' ''/v1/upload'' [CHR 0xFE] (demo_node []))
    = Inr (demo_grant [])"
proof -
  have "from_utf8_lossy [CHR 0xFF] = from_utf8_lossy [CHR 0xFE]" "nl \<notin> set ''POST''" "nl \<notin> set ''/v1/upload''" by code_simp+
  then have "require_auth demo_ext (\<lambda>_. 0) (demo_headers ''POST'' ''/v1/upload'' [CHR 0xFF]) ''POST'' ''/v1/upload'' [CHR 0xFF] (demo_node [])
      = require_auth demo_ext (\<lambda>_. 0) (demo_headers ''POST'' ''/v1/upload'' [CHR 0xFF]) ''POST'' ''/v1/upload'' [CHR 0xFE] (demo_node [])"
    using signature_covers [of "''POST''" "''POST''" "''/v1/upload''" "''/v1/upload''" "[]" "[]" 0 "[CHR 0xFF]" 0 "[CHR 0xFE]"
        demo_ext "\<lambda>_. 0" "demo_headers ''POST'' ''/v1/upload'' [CHR 0xFF]" "demo_node []"] by simp
  then show ?thesis unfolding demo_auth by (elim subst) simp
qed

section \<open>The disk\<close>

text \<open>C12. A resolved path lies below the share root, exists and goes through no link, so that reading it
  reads what is there; a request with a parent component, a colon or a root is refused; and without links
  below the root, the path is exactly the root followed by the names of the request.\<close>

theorem resolve_confined:
  assumes "resolve fs r rel = Inr p"
  shows "prefix (sh_root r) p \<and> solid fs p \<and> canon fs p = Some p
    \<and> CHR '':'' \<notin> set rel \<and> \<not> list_ex escapes (components rel)
    \<and> (solid fs (sh_root r) \<and> no_links_below fs (sh_root r) \<and> (\<exists>m. fs_get fs (sh_root r) = Some (FDir m))
        \<longrightarrow> p = sh_root r @ normals (components rel))"
  using resolve_inside [OF assms] resolve_solid [OF assms] resolve_canon [OF assms] resolve_Inr [OF assms]
    resolve_no_links [OF assms] by blast

theorem resolve_confined_witness: "solid demo_fs [''C'', ''s'', ''d'', ''cd'']"
  using resolve_confined [OF demo_resolve(2)] by blast

text \<open>C13. An accepted upload came from an authenticated PC whose grant allows files and is no larger than
  the limit; it is stored, whole, under a valid name that no entry of the inbox had, beside a sidecar that names the
  PC and the time. Of the temporary file nothing is left, no other path of the disk changes, and of the node only
  the replay cache, and the event that tells the owner. (The inbox directory is reached without links and holds
  none.)\<close>

theorem upload_stored:
  assumes "upload_handler y n h raw body s = (Inr r, s')" "inbox_ok (nd_fs s) (nd_inbox s)"
  shows "\<exists>g seen. authenticated y n h ''POST'' (upload_path_q (sy_x y) (trim raw)) body s g \<and> g_allow_files g
    \<and> of_nat (length body) \<le> nd_inbox_max s \<and> ur_size r = of_nat (length body) \<and> valid_name (ur_name r)
    \<and> fs_get (nd_fs s) (ib_root (nd_inbox s) @ [ur_name r]) = None
    \<and> fs_get (nd_fs s') (ib_root (nd_inbox s) @ [ur_name r]) = Some (FFile body (Some (en_clk n 4)))
    \<and> fs_get (nd_fs s') (sidecar_path (nd_inbox s) (ur_name r))
      = (case cd_ser (sy_meta y) \<lparr>im_from = Some (g_name g), im_from_node_id = Some (g_node_id g),
            im_received_unix = Some (en_clk n 3)\<rparr> of
          None \<Rightarrow> fs_get (nd_fs s) (sidecar_path (nd_inbox s) (ur_name r))
        | Some text \<Rightarrow> Some (FFile text (Some (en_clk n 4))))
    \<and> fs_get (nd_fs s') (ib_root (nd_inbox s) @ [''.'' @ ur_name r @ ''.part'']) = None
    \<and> (\<forall>q. q \<notin> {ib_root (nd_inbox s) @ [ur_name r], sidecar_path (nd_inbox s) (ur_name r),
          ib_root (nd_inbox s) @ [''.'' @ ur_name r @ ''.part'']} \<longrightarrow> fs_get (nd_fs s') q = fs_get (nd_fs s) q)
    \<and> s' = push_event (en_clk n 5) ''inbox-file'' (g_name g @ '' sent you '' @ ur_name r)
        ''Accept it into your shared folder, download it, or discard it.'' (s\<lparr>nd_seen := seen, nd_fs := nd_fs s'\<rparr>)"
proof -
  obtain g seen where g: "authenticated y n h ''POST'' (upload_path_q (sy_x y) (trim raw)) body s g" "g_allow_files g"
    "of_nat (length body) \<le> nd_inbox_max s" "ur_size r = of_nat (length body)"
    and w: "write_file (sy_meta y) (en_io n) (en_clk n 4) (nd_inbox s) (trim raw) body (upload_meta n g) (nd_fs s)
      = (Inr (ur_name r), nd_fs s')"
    and s': "s' = push_event (en_clk n 5) ''inbox-file'' (g_name g @ '' sent you '' @ ur_name r)
      ''Accept it into your shared folder, download it, or discard it.'' (s\<lparr>nd_seen := seen, nd_fs := nd_fs s'\<rparr>)"
    using upload_handler_stores [OF assms(1)] .
  note st = write_file_stored [OF assms(2) w] and lv = write_file_leaves [OF assms(2) w, unfolded temp_path_def upload_meta_def]
  show ?thesis
    by (intro exI [of _ g] exI [of _ seen] conjI allI impI g s' lv(1,2) lv(3) st [THEN conjunct1]
        st [THEN conjunct2, THEN conjunct1] st [THEN conjunct2, THEN conjunct2]) (simp add: insert_commute)
qed

theorem upload_stored_witness:
  "\<exists>r s'. upload_handler demo_sys demo_env (demo_headers ''POST'' (upload_path_q demo_ext ''f'') ''x'')
      ''f'' ''x'' (demo_node []) = (Inr r, s')
    \<and> fs_get (nd_fs s') [''C'', ''i'', ''f''] = Some (FFile ''x'' (Some 0))
    \<and> fs_get (nd_fs s') [''C'', ''s'', ''ab''] = Some (FFile ''hi'' None)"
proof -
  obtain r s' where u: "upload_handler demo_sys demo_env (demo_headers ''POST'' (upload_path_q demo_ext ''f'') ''x'')
      ''f'' ''x'' (demo_node []) = (Inr r, s')" "ur_name r = ''f''" using demo_upload by blast
  have "fs_get demo_fs [''C'', ''s'', ''ab''] = Some (FFile ''hi'' None)" by code_simp
  moreover have "fs_get (nd_fs s') [''C'', ''i'', ''f''] = Some (FFile ''x'' (Some 0))"
    "q \<notin> {[''C'', ''i'', ''f''], [''C'', ''i'', ''f'' @ SIDECAR_SUFFIX], [''C'', ''i'', ''.'' @ ''f'' @ ''.part'']} \<Longrightarrow>
      fs_get (nd_fs s') q = fs_get demo_fs q" for q
    using upload_stored [OF u(1)] demo_inbox_ok unfolding u(2) sidecar_path_def demo_node_simps by auto
  ultimately show ?thesis using u(1) by auto
qed

text \<open>C14. Uploads at the same time keep apart: in whatever order the file operations of any number of uploads into
  one inbox interleave, and whichever of them fail, an upload that is answered as stored has its content
  under its name, unless another upload took the same name.\<close>

theorem uploads_keep_apart:
  assumes "inbox_ok fs r" "list_all (\<lambda>u. ul_pc u = Choosing) us" "together mc r us fs vs fs'"
    and "i < length vs" "ul_pc (vs ! i) = Stored st"
    and "list_all (\<lambda>j. j = i \<or> chosen (ul_pc (vs ! j)) \<noteq> Some st) [0..<length vs]"
  shows "valid_name st \<and> fs_get fs' (ib_root r @ [st]) = Some (FFile (ul_body (us ! i)) (Some (ul_now (us ! i))))"
proof -
  have "chosen (ul_pc (vs ! j)) \<noteq> Some st" if "j < length vs" "j \<noteq> i" for j
    using assms(6) that by (auto simp: list_all_iff)
  from uploads_apart [OF assms(1-5) this] show ?thesis by (simp add: stored_path_def)
qed

theorem uploads_keep_apart_witness:
  "\<exists>vs fs'. together (demo_codec no_meta) \<lparr>ib_root = [''C'', ''i'']\<rparr> [demo_task ''f'' ''x'', demo_task ''f'' ''y''] demo_fs vs fs'
    \<and> fs_get fs' [''C'', ''i'', ''f''] = Some (FFile ''x'' (Some 0))"
proof -
  obtain fs' where t: "together (demo_codec no_meta) \<lparr>ib_root = [''C'', ''i'']\<rparr> [demo_task ''f'' ''x'', demo_task ''f'' ''y''] demo_fs
      [(demo_task ''f'' ''x'')\<lparr>ul_pc := Stored ''f''\<rparr>, demo_task ''f'' ''y''] fs'" using demo_tasks by blast
  show ?thesis using uploads_keep_apart [OF demo_inbox_ok _ t, of 0 "''f''"] t by (auto simp: demo_task_def)
qed

text \<open>C15. The name is looked for and taken without a lock: two uploads of one free name can both be answered as
  stored under it, and the content of the first is gone.\<close>

theorem same_name_race:
  assumes "inbox_ok fs r" "valid_name nm"
    and "ul_pc u = Choosing" "trim (ul_name u) = nm" "ul_io u = (\<lambda>_. Done)"
    and "ul_pc v = Choosing" "trim (ul_name v) = nm" "ul_io v = (\<lambda>_. Done)"
    and "fs_get fs (part_path r nm) = None" "fs_get fs (stored_path r nm) = None" "fs_get fs (sidecar_path r nm) = None"
  shows "\<exists>us fs'. together mc r [u, v] fs us fs' \<and> map (\<lambda>w. answered (ul_pc w)) us = [Some (Inr nm), Some (Inr nm)]
    \<and> fs_get fs' (ib_root r @ [nm]) = Some (FFile (ul_body v) (Some (ul_now v)))"
proof -
  have "\<forall>p \<in> {part_path r nm, stored_path r nm, sidecar_path r nm}. fs_get fs p = None" using assms(9-11) by blast
  from same_name [OF assms(1-8) this, of mc] obtain fs' where
    "together mc r [u, v] fs [u\<lparr>ul_pc := Stored nm\<rparr>, v\<lparr>ul_pc := Stored nm\<rparr>] fs'"
    "fs_get fs' (stored_path r nm) = Some (FFile (ul_body v) (Some (ul_now v)))" by blast
  then show ?thesis by (intro exI [of _ "[u\<lparr>ul_pc := Stored nm\<rparr>, v\<lparr>ul_pc := Stored nm\<rparr>]"]) (auto simp: stored_path_def)
qed

theorem same_name_race_witness:
  "\<exists>us fs'. together (demo_codec no_meta) \<lparr>ib_root = [''C'', ''i'']\<rparr> [demo_task ''f'' ''x'', demo_task ''f'' ''y''] demo_fs us fs'
    \<and> map (\<lambda>w. answered (ul_pc w)) us = [Some (Inr ''f''), Some (Inr ''f'')]
    \<and> fs_get fs' [''C'', ''i'', ''f''] = Some (FFile ''y'' (Some 0))"
proof -
  let ?r = "\<lparr>ib_root = [''C'', ''i'']\<rparr>"
  have t: "ul_pc (demo_task ''f'' b) = Choosing" "trim (ul_name (demo_task ''f'' b)) = ''f''"
    "ul_io (demo_task ''f'' b) = (\<lambda>_. Done)" "ul_body (demo_task ''f'' b) = b" "ul_now (demo_task ''f'' b) = 0" for b
    using demo_valid by (simp_all add: demo_task_def)
  have "fs_get demo_fs (part_path ?r ''f'') = None" "fs_get demo_fs (stored_path ?r ''f'') = None"
    "fs_get demo_fs (sidecar_path ?r ''f'') = None"
    by (simp_all add: demo_fs_def fs_get_def part_path_def stored_path_def sidecar_path_def)
  from same_name_race [OF demo_inbox_ok demo_valid(1) t(1-3) t(1-3) this] show ?thesis by (simp add: t)
qed

text \<open>C16. Accepting a file of the inbox into the share never loses it, nor any other: there is a name that was free
  in the share such that, if the accepting succeeds, the file is gone from the inbox and stands in the share, under
  that name, which is answered, with the same content; if it fails, the file and its sidecar are still in the inbox.
  Either way every other path of the disk is as it was, the temporary file of a move across volumes apart,
  and nothing of the node changes but the disk. (Inbox and share are two directories, reached without links and
  holding none.)\<close>

theorem accept_keeps:
  assumes "inbox_ok (nd_fs s) (nd_inbox s)" "inbox_ok (nd_fs s) \<lparr>ib_root = sh_root (nd_share s)\<rparr>"
    and "sh_root (nd_share s) \<noteq> ib_root (nd_inbox s)"
    and "fs_get (nd_fs s) (ib_root (nd_inbox s) @ [nm]) = Some (FFile b m)"
    and "admin_inbox_accept n nm s = (out, s')"
  shows "\<exists>w. fs_get (nd_fs s) (sh_root (nd_share s) @ [w]) = None
    \<and> (case out of
        Inl e \<Rightarrow> fs_get (nd_fs s') (ib_root (nd_inbox s) @ [nm]) = Some (FFile b m)
          \<and> fs_get (nd_fs s') (sidecar_path (nd_inbox s) nm) = fs_get (nd_fs s) (sidecar_path (nd_inbox s) nm)
      | Inr v \<Rightarrow> v = w \<and> fs_get (nd_fs s') (ib_root (nd_inbox s) @ [nm]) = None
          \<and> (\<exists>m'. fs_get (nd_fs s') (sh_root (nd_share s) @ [w]) = Some (FFile b m')))
    \<and> (\<forall>q. q \<notin> {ib_root (nd_inbox s) @ [nm], sidecar_path (nd_inbox s) nm, sh_root (nd_share s) @ [w],
          sh_root (nd_share s) @ [''.'' @ w @ ''.part'']} \<longrightarrow> fs_get (nd_fs s') q = fs_get (nd_fs s) q)
    \<and> s' = s\<lparr>nd_fs := nd_fs s'\<rparr>"
proof -
  obtain res fs' where a: "Inbox.inbox_accept (en_io n) (en_clk n 0) (nd_inbox s) nm (sh_root (nd_share s)) (nd_fs s)
      = (res, fs')" by force
  then have o: "out = lift_inbox res" "s' = s\<lparr>nd_fs := fs'\<rparr>" using assms(5) by (auto simp: admin_inbox_accept_def)
  define w where "w = dedupe_in_dir (nd_fs s) (sh_root (nd_share s)) nm"
  have free: "fs_get (nd_fs s) (sh_root (nd_share s) @ [w]) = None"
    using free_child [OF assms(2), of nm] by (simp add: w_def)
  note fr = accept_frame [OF assms(1-3) a w_def, unfolded temp_path_def] and c = accept_keeps_content [OF assms(1-4) a]
  show ?thesis unfolding o
    by (intro exI [of _ w] conjI free allI impI)
      (use c fr in \<open>cases res; auto simp: lift_inbox_def\<close>, use fr(1) in simp_all)
qed

theorem accept_keeps_witness:
  "\<exists>s'. admin_inbox_accept demo_env ''ab'' ((demo_node [])\<lparr>nd_inbox := \<lparr>ib_root = [''C'', ''s'']\<rparr>,
        nd_share := \<lparr>sh_root = [''C'', ''i'']\<rparr>\<rparr>) = (Inr ''ab'', s')
    \<and> fs_get (nd_fs s') [''C'', ''s'', ''ab''] = None
    \<and> (\<exists>m'. fs_get (nd_fs s') [''C'', ''i'', ''ab''] = Some (FFile ''hi'' m'))
    \<and> fs_get (nd_fs s') [''C'', ''s'', ''d''] = fs_get demo_fs [''C'', ''s'', ''d'']"
proof -
  let ?s = "(demo_node [])\<lparr>nd_inbox := \<lparr>ib_root = [''C'', ''s'']\<rparr>, nd_share := \<lparr>sh_root = [''C'', ''i'']\<rparr>\<rparr>"
  have "fst (Inbox.inbox_accept (\<lambda>_. Done) 0 \<lparr>ib_root = [''C'', ''s'']\<rparr> ''ab'' [''C'', ''i''] demo_fs) = Inr ''ab''"
    by code_simp
  then obtain s' where a: "admin_inbox_accept demo_env ''ab'' ?s = (Inr ''ab'', s')"
    by (simp add: admin_inbox_accept_def lift_inbox_def case_prod_beta)
  have "fs_get demo_fs [''C'', ''s'', ''ab''] = Some (FFile ''hi'' None)" by code_simp
  moreover have "inbox_ok demo_fs \<lparr>ib_root = [''C'', ''s'']\<rparr>"
    by (simp add: inbox_ok_def solid_def dirs_to_def less_Suc_eq numeral_2_eq_2 demo_fs_def fs_get_def no_links_below_def)
  ultimately show ?thesis
    using a accept_keeps [OF _ _ _ _ a, of "''hi''" None] demo_inbox_ok by (auto simp: sidecar_path_def SIDECAR_SUFFIX_def)
qed

text \<open>C17. Deleting an item of the share touches nothing outside the share root, nor the root itself.\<close>

theorem delete_confined:
  assumes "\<not> prefix (sh_root (nd_share s)) q \<or> q = sh_root (nd_share s)"
  shows "fs_get (nd_fs (snd (myshare_delete n path s))) q = fs_get (nd_fs s) q"
  using delete_frame [OF assms] by (simp add: myshare_delete_def Let_def case_prod_beta)

theorem delete_confined_witness:
  "fs_get (nd_fs (snd (myshare_delete demo_env ''d'' (demo_node [])))) [''C'', ''i''] = Some (FDir None)"
proof -
  have "fs_get demo_fs [''C'', ''i''] = Some (FDir None)" by code_simp
  then show ?thesis using delete_confined [of "demo_node []" "[''C'', ''i'']" demo_env "''d''"]
    by (simp add: prefix_def)
qed

section \<open>Pairing\<close>

text \<open>C18. What enters the queue of waiting requests. An entry that the handler adds is the request it was sent, under the
  node id that the request's key hashes to, and the signature over its fields verifies under that key, which holds no
  live grant; the answer says it waits. That signature stands for this request only: any request with the same signed
  text whose key and node id belong together agrees with it in every field but the signature, and its signed text is
  not that of a decision, nor of a GET or POST request.\<close>

theorem pair_request_binding:
  assumes "hex_laws (sy_x y)" "pair_request_handler y n body s = (resp, s')"
    and "e \<in> set (pending (nd_pairing s'))" "e \<notin> set (pending (nd_pairing s))"
  shows "\<exists>r fp. sy_pair_request y body = Some r \<and> e = (pr_node_id r, \<lparr>pe_request = r, pe_received_unix = en_clk n 2\<rparr>)
    \<and> resp = Inr \<lparr>ps_status = Pending, ps_expires_unix = None\<rparr>
    \<and> verify (sy_x y) (pr_pubkey_hex r) (canonical_request_string r) (pr_signature r) = Inr ()
    \<and> fingerprint_from_pubkey_hex (sy_x y) (pr_pubkey_hex r) = Some fp \<and> take 16 fp = pr_node_id r
    \<and> (\<forall>g. find_grant fp (grants_of s) = Some g \<longrightarrow> \<not> grant_live (en_clk n 0) g)
    \<and> (\<forall>r' fp'. verify (sy_x y) (pr_pubkey_hex r') (canonical_request_string r') (pr_signature r') = Inr ()
        \<and> fingerprint_from_pubkey_hex (sy_x y) (pr_pubkey_hex r') = Some fp' \<and> take 16 fp' = pr_node_id r'
        \<and> canonical_request_string r' = canonical_request_string r
        \<longrightarrow> pr_node_id r' = pr_node_id r \<and> pr_name r' = pr_name r \<and> pr_pubkey_hex r' = pr_pubkey_hex r
          \<and> pr_requested_duration_secs r' = pr_requested_duration_secs r)
    \<and> (\<forall>d. canonical_request_string r \<noteq> canonical_decision_string d)
    \<and> (\<forall>m \<in> {''GET'', ''POST''}. \<forall>p t nonce b. canonical_request_string r \<noteq> request_canonical m p t nonce b)"
proof -
  obtain r fp where r: "sy_pair_request y body = Some r" "own_request (sy_x y) r fp"
    "\<And>g. find_grant fp (grants_of s) = Some g \<Longrightarrow> \<not> grant_live (en_clk n 0) g"
    "e = (pr_node_id r, \<lparr>pe_request = r, pe_received_unix = en_clk n 2\<rparr>)"
    "resp = Inr \<lparr>ps_status = Pending, ps_expires_unix = None\<rparr>"
    using pair_request_admits [OF assms(2-4)] by metis
  note plain = own_request_plain [OF assms(1)]
  have "pr_node_id r' = pr_node_id r \<and> pr_name r' = pr_name r \<and> pr_pubkey_hex r' = pr_pubkey_hex r
      \<and> pr_requested_duration_secs r' = pr_requested_duration_secs r"
    if "own_request (sy_x y) r' fp'" "canonical_request_string r' = canonical_request_string r" for r' fp'
    using request_fields [OF that(2) plain(2) [OF that(1)] plain(2) [OF r(2)] plain(1) [OF that(1)] plain(1) [OF r(2)]] .
  moreover have "canonical_request_string r \<noteq> canonical_decision_string d"
    "\<And>m. m \<in> {''GET'', ''POST''} \<Longrightarrow> canonical_request_string r \<noteq> request_canonical m p t nonce b" for d p t nonce b
    by (auto simp: canonical_request_string_def canonical_decision_string_def request_canonical_def)
  ultimately show ?thesis using r unfolding own_request_def by (intro exI [of _ r] exI [of _ fp]) blast
qed

theorem pair_request_binding_witness:
  "\<exists>resp s'. pair_request_handler marked_sys demo_env [] ((demo_node [])\<lparr>nd_grants := demo_store []\<rparr>) = (resp, s')
    \<and> (\<exists>e r. pending (nd_pairing s') = [e] \<and> pe_request (snd e) = r
      \<and> verify demo_ext (pr_pubkey_hex r) (canonical_request_string r) (pr_signature r) = Inr ())"
proof -
  let ?s = "(demo_node [])\<lparr>nd_grants := demo_store []\<rparr>"
  obtain resp s' where s: "pair_request_handler marked_sys demo_env [] ?s = (Inr resp, s')" "ps_status resp = Pending"
    using marked_asks by blast
  have none: "pending (nd_pairing ?s) = []" by (simp add: pairing_default_def)
  obtain e where e: "pending (nd_pairing s') = [e]"
    using s marked_verifies fingerprint_of_own_pubkey [OF demo_hex_laws, of demo_ident]
    by (auto simp: pair_request_handler_def marked_sys_def marked_fields admit_request_def admit_pending_def prune_pending_def
        find_grant_def pairing_default_def MAX_PENDING_def Let_def node_id_def)
  have "sy_x marked_sys = demo_ext" by (simp add: marked_sys_def)
  then show ?thesis using pair_request_binding [OF _ s(1), of e] demo_hex_laws e none s(1) by auto
qed

text \<open>C19. An approval that succeeds sets exactly one grant, that of the key of the waiting request, with
  the permissions and the expiry the owner chose and full scope; every other grant stays, the
  request no longer waits, and the grant allows something.\<close>

theorem approval_grants:
  assumes "apply_decision_with_perms x cd faults now nid ''approve'' dur af ap p st = (Inr resp, p', st')"
    and "distinct (map fst (pending p))"
  shows "\<exists>e fp g. map_of (pending p) nid = Some e
    \<and> fingerprint_from_pubkey_hex x (pr_pubkey_hex (pe_request e)) = Some fp
    \<and> g = granted now dur (af \<noteq> Some False) (ap = Some True) fp (pe_request e)
    \<and> (\<forall>fp'. find_grant fp' (st_data st') = (if fp' = fp then Some g else find_grant fp' (st_data st)))
    \<and> (g_allow_files g \<or> g_allow_print g) \<and> g_paths g = []
    \<and> map_of (pending p') nid = None \<and> ps_status resp = Approved \<and> ps_expires_unix resp = g_expires_unix g"
proof -
  have perms: "(case af of None \<Rightarrow> True | Some b \<Rightarrow> b) = (af \<noteq> Some False)"
    "(case ap of None \<Rightarrow> False | Some b \<Rightarrow> b) = (ap = Some True)" by (auto split: option.split)
  show ?thesis
    using assms(1) apply_pending [OF assms(2,1)] find_key_upsert [of g_fingerprint, folded gf_keyed]
    unfolding perms [symmetric]
    by (elim apply_approved) (fastforce simp: gf_keyed find_key_upsert granted_def)
qed

theorem approval_grants_witness:
  "\<exists>resp p' st'. apply_decision_with_perms demo_ext (demo_codec []) no_faults 0 (pr_node_id demo_request) ''approve'' 0
      None None \<lparr>pending = [(pr_node_id demo_request, \<lparr>pe_request = demo_request, pe_received_unix = 0\<rparr>)], decisions = []\<rparr>
      (demo_store []) = (Inr resp, p', st') \<and> ps_status resp = Approved"
proof -
  obtain resp p' st' where a: "apply_decision_with_perms demo_ext (demo_codec []) no_faults 0 (pr_node_id demo_request) ''approve'' 0
      None None \<lparr>pending = [(pr_node_id demo_request, \<lparr>pe_request = demo_request, pe_received_unix = 0\<rparr>)], decisions = []\<rparr>
      (demo_store []) = (Inr resp, p', st')"
    using fingerprint_of_own_pubkey [OF demo_hex_laws, of demo_ident]
    by (simp add: apply_decision_with_perms_def Let_def demo_saves)
  then show ?thesis using approval_grants [OF a] by auto
qed

text \<open>A denial changes no grant; it is recorded, and a poll is told so until the record is evicted or
  replaced, as long as the node does not ask again.\<close>

theorem denial_recorded:
  assumes "apply_decision_with_perms x cd faults now nid decision dur af ap p st = (Inr resp, p', st')"
    and "decision \<noteq> ''approve''" "distinct (map fst (pending p))"
  shows "st' = st \<and> pair_status_lookup now' p' (st_data st') nid = \<lparr>ps_status = Denied, ps_expires_unix = None\<rparr>"
proof -
  have "map_of (pending p) nid \<noteq> None"
    using assms(1) by (auto simp: apply_decision_with_perms_def split: option.splits)
  then have "st' = st" "map_of (decisions p') nid = Some (\<lparr>ps_status = Denied, ps_expires_unix = None\<rparr>, now)"
    using apply_denied [OF assms(1,2)] by blast+
  then show ?thesis using apply_pending [OF assms(3,1)] by (simp add: pair_status_lookup_def)
qed

theorem denial_recorded_witness:
  "\<exists>resp p' st'. apply_decision_with_perms demo_ext (demo_codec []) no_faults 0 (pr_node_id demo_request) ''deny'' 0
      None None \<lparr>pending = [(pr_node_id demo_request, \<lparr>pe_request = demo_request, pe_received_unix = 0\<rparr>)], decisions = []\<rparr>
      (demo_store []) = (Inr resp, p', st') \<and> st' = demo_store []"
proof -
  obtain resp p' st' where a: "apply_decision_with_perms demo_ext (demo_codec []) no_faults 0 (pr_node_id demo_request) ''deny'' 0
      None None \<lparr>pending = [(pr_node_id demo_request, \<lparr>pe_request = demo_request, pe_received_unix = 0\<rparr>)], decisions = []\<rparr>
      (demo_store []) = (Inr resp, p', st')"
    by (simp add: apply_decision_with_perms_def Let_def)
  then show ?thesis using denial_recorded [OF a] by auto
qed

text \<open>A recorded denial outlives a later approval: after the owner approves the PC's new request, its
  status poll still answers with the old denial, although the new grant is there and live.\<close>

theorem stale_denial_shadows:
  assumes "apply_decision_with_perms x cd faults now nid ''approve'' 0 af ap p st = (Inr resp, p', st')"
    and "distinct (map fst (pending p))"
    and "map_of (decisions p) nid = Some (\<lparr>ps_status = Denied, ps_expires_unix = None\<rparr>, t)"
  shows "pair_status_lookup now' p' (st_data st') nid = \<lparr>ps_status = Denied, ps_expires_unix = None\<rparr>
    \<and> (\<exists>g \<in> set (st_data st'). grant_live now' g \<and> (\<exists>e. map_of (pending p) nid = Some e \<and> g_node_id g = pr_node_id (pe_request e)))"
proof -
  have "\<exists>g \<in> set (st_data st'). grant_live now' g \<and> (\<exists>e. map_of (pending p) nid = Some e \<and> g_node_id g = pr_node_id (pe_request e))"
    using assms(1) by (elim apply_approved) (auto simp: grants_upsert_def granted_def grant_live_def)
  then show ?thesis using recorded_decision_wins [OF assms(2,1,3)] by blast
qed

theorem stale_denial_shadows_witness:
  "\<exists>resp p' st'. apply_decision_with_perms demo_ext (demo_codec []) no_faults 0 (pr_node_id demo_request) ''approve'' 0
      None None \<lparr>pending = [(pr_node_id demo_request, \<lparr>pe_request = demo_request, pe_received_unix = 0\<rparr>)],
        decisions = [(pr_node_id demo_request, (\<lparr>ps_status = Denied, ps_expires_unix = None\<rparr>, 0))]\<rparr>
      (demo_store []) = (Inr resp, p', st')
    \<and> ps_status (pair_status_lookup 1 p' (st_data st') (pr_node_id demo_request)) = Denied"
proof -
  obtain resp p' st' where a: "apply_decision_with_perms demo_ext (demo_codec []) no_faults 0 (pr_node_id demo_request) ''approve'' 0
      None None \<lparr>pending = [(pr_node_id demo_request, \<lparr>pe_request = demo_request, pe_received_unix = 0\<rparr>)],
        decisions = [(pr_node_id demo_request, (\<lparr>ps_status = Denied, ps_expires_unix = None\<rparr>, 0))]\<rparr>
      (demo_store []) = (Inr resp, p', st')"
    using fingerprint_of_own_pubkey [OF demo_hex_laws, of demo_ident]
    by (simp add: apply_decision_with_perms_def Let_def demo_saves)
  then show ?thesis using stale_denial_shadows [OF a, of 0 1] by auto
qed

text \<open>A status poll answers only the node it is about: the caller named that node, signed under a key
  whose fingerprint begins with its id, and got the state of that id.\<close>

theorem status_poll_own:
  assumes "pair_status_handler y n h nid s = (Inr r, s')"
  shows "\<exists>pk sg t fp. h ''x-doclink-node'' = Some nid \<and> h ''x-doclink-pub'' = Some pk
    \<and> verify (sy_x y) pk (request_canonical ''GET'' (status_path_q (sy_x y) nid) (show_u64 t)
        (case h ''x-doclink-nonce'' of None \<Rightarrow> [] | Some c \<Rightarrow> c) []) sg = Inr ()
    \<and> abs_diff (en_clk n 0) t \<le> MAX_SKEW_SECS
    \<and> fingerprint_from_pubkey_hex (sy_x y) pk = Some fp \<and> take 16 fp = nid
    \<and> r = pair_status_lookup (en_clk n 2) (nd_pairing s) (grants_of s) nid"
  using assms by (auto simp: pair_status_handler_def Let_def verify_headers_Inr
      split: sum.splits prod.splits if_splits option.splits)

theorem status_poll_own_witness:
  "\<exists>fp. fingerprint_from_pubkey_hex demo_ext (x_hex_encode demo_ext (verifying_key demo_ext demo_ident)) = Some fp
    \<and> take 16 fp = node_id demo_ext demo_ident"
proof -
  let ?nid = "node_id demo_ext demo_ident"
  let ?h = "demo_headers ''GET'' (status_path_q demo_ext ?nid) []"
  have "verify_signed_headers demo_ext 0 ?h ''GET'' (status_path_q demo_ext ?nid) [] =
      Inr (?nid, x_hex_encode demo_ext (verifying_key demo_ext demo_ident), fst (hd (demo_seen ''GET'' (status_path_q demo_ext ?nid) [])))"
    using demo_auth [of "''GET''" "status_path_q demo_ext ?nid" "[]" "[]"]
    by (elim require_auth_Inr) (auto simp: verify_headers_Inr demo_headers_def auth_headers_body_def demo_seen_def Let_def)
  then obtain r s' where "pair_status_handler demo_sys demo_env ?h ?nid (demo_node []) = (Inr r, s')"
    using fingerprint_of_own_pubkey [OF demo_hex_laws, of demo_ident]
    by (auto simp: pair_status_handler_def reject_replays_def purge_seen_def node_id_def Let_def)
  moreover have "?h ''x-doclink-pub'' = Some (x_hex_encode demo_ext (verifying_key demo_ext demo_ident))"
    by (simp add: demo_headers_def auth_headers_body_def Let_def)
  ultimately show ?thesis using status_poll_own [of demo_sys demo_env ?h ?nid "demo_node []" r s'] by auto
qed

section \<open>Bounds\<close>

text \<open>C20. In any minute at most 40 pairing calls of one address pass the limiter, and at most 20 when the
  address is new to it, whatever other addresses call in between.\<close>

theorem pair_rate_bound:
  assumes "lm_max l = PAIR_RATE_PER_MIN" "lm_window l = 60 * 10 ^ 9"
    and "\<forall>c \<in> set calls. t \<le> fst c \<and> fst c < t + 60 * 10 ^ 9"
  shows "passed ip calls l \<le> 40 \<and> (map_of (lm_buckets l) ip = None \<longrightarrow> passed ip calls l \<le> 20)"
proof -
  have "passed ip calls l \<le> lm_max l + quota_left ip l"
    by (rule passed_in_span [where t = t]) (use assms in auto)
  then show ?thesis using assms(1) by (auto simp: quota_left_def PAIR_RATE_PER_MIN_def split: option.splits)
qed

theorem pair_rate_bound_witness: "passed ''a'' (replicate 30 (0, ''a'')) limiter_default \<le> 20"
  using pair_rate_bound [of limiter_default "replicate 30 (0, ''a'')" 0 "''a''"]
  by (simp add: limiter_default_def limiter_new_def)

text \<open>After any number of events below the 64-bit limit, a poll since an id the ring still reaches
  answers exactly the events pushed after it, in order and without a gap.\<close>

theorem events_no_gap:
  assumes "length ps < u64_limit" "length ps \<le> unat s + CAP"
  shows "map (\<lambda>v. unat (ev_id v)) (since s (push_all ps events_default)) = [Suc (unat s) ..< Suc (length ps)]"
proof -
  have r: "ring_ok (push_all ps events_default)" "unat (next_id (push_all ps events_default)) = length ps"
    using push_all_ring [OF ring_ok_default, of ps] assms(1) by (simp_all add: events_default_def)
  have "length (items (push_all ps events_default)) = min CAP (length ps)"
    using push_all_items [of events_default ps] by (simp add: events_default_def)
  then have "max (Suc (unat s)) (Suc (length ps) - length (items (push_all ps events_default))) = Suc (unat s)"
    using assms(2) by (auto simp: max_def min_def)
  then show ?thesis using since_ids [OF r(1), of s] r(2) by simp
qed

theorem events_no_gap_witness:
  "map (\<lambda>v. unat (ev_id v)) (since 1 (push_all (replicate 3 (0, ''k'', ''t'', ''b'')) events_default)) = [2, 3]"
proof -
  have "[Suc (unat (1 :: u64)) ..< Suc 3] = [2, 3]" by (simp add: upt_rec)
  then show ?thesis using events_no_gap [of "replicate 3 (0, ''k'', ''t'', ''b'')" 1] by (simp add: CAP_def)
qed

text \<open>C21. A sweep announces exactly the grants that lapse within a day and were not announced for that
  expiry before, each once; a second sweep at the same time announces nothing more; and what it
  keeps of the grants is exactly the live ones.\<close>

theorem sweep_once:
  assumes "unat (next_id e) + card (due_pairs now (st_data st)) < u64_limit"
    and "sweep_tick c faults now now2 clk st e = (st', e')"
  shows "unat (next_id e') = unat (next_id e) + card (due_pairs now (st_data st) - set (expiry_announced e))
    \<and> next_id (snd (sweep_tick c faults2 now now2 clk2 st' e')) = next_id e'
    \<and> set (st_data st') = {g \<in> set (st_data st). grant_live now2 g}"
proof -
  have st: "st_data st' = snd (prune_expired now2 (st_data st))" "e' = fold (announce now clk) (st_data st) e"
    using sweep_data [of c faults now now2 clk st e] assms(2) by simp_all
  have fin: "finite (due_pairs now (st_data st))" by (simp add: due_pairs_def)
  have "card (due_pairs now (st_data st) - set (expiry_announced e)) \<le> card (due_pairs now (st_data st))"
    by (rule card_mono [OF fin]) blast
  then have 1: "unat (next_id e') = unat (next_id e) + card (due_pairs now (st_data st) - set (expiry_announced e))"
    using fold_announce_effect [of now clk "st_data st" e] assms(1) unfolding st(2)
    by (simp add: unat_word_ariths unat_of_nat)
  have "due_pairs now (st_data st') \<subseteq> due_pairs now (st_data st)"
    unfolding st(1) by (auto simp: due_pairs_def List.map_filter_def prune_expired_def Let_def)
  then have "due_pairs now (st_data st') - set (expiry_announced e') = {}"
    using fold_announce_effect [of now clk "st_data st" e] unfolding st(2) by blast
  then have "card (due_pairs now (st_data st') - set (expiry_announced e')) = 0" by (simp only: card.empty)
  then have "next_id (snd (sweep_tick c faults2 now now2 clk2 st' e')) = next_id e'"
    using fold_announce_effect [of now clk2 "st_data st'" e'] by (simp add: sweep_data)
  then show ?thesis using 1 prune_set st(1) by simp
qed

theorem sweep_once_witness:
  "\<exists>st' e'. sweep_tick (demo_codec []) no_faults 0 0 (\<lambda>_. 0)
      (demo_store [(demo_grant [])\<lparr>g_expires_unix := Some 5\<rparr>]) events_default = (st', e') \<and> unat (next_id e') = 1"
proof -
  let ?g = "(demo_grant [])\<lparr>g_expires_unix := Some 5\<rparr>"
  obtain st' e' where s: "sweep_tick (demo_codec []) no_faults 0 0 (\<lambda>_. 0) (demo_store [?g]) events_default = (st', e')"
    by force
  have d: "due_pairs 0 [?g] = {(fingerprint demo_ext demo_ident, 5)}"
    by (simp add: due_pair_def expiring_soon_def EXPIRING_SOON_SECS_def)
  show ?thesis using sweep_once [OF _ s] s d by (simp add: events_default_def)
qed

text \<open>A partial answer to a range lies inside the file, and its length, computed on 64 bits, is that of
  the range.\<close>

theorem range_inside:
  assumes "parse_range hdr flen = Partial a e"
  shows "unat a \<le> unat e \<and> unat e < unat flen \<and> unat (e - a + 1) = unat e - unat a + 1"
  using parse_range_bounds [OF assms] range_length [OF assms] by blast

theorem range_inside_witness: "unat (4 - 2 + 1 :: u64) = 3"
  using range_inside [OF demo_ranges(2)] by simp

text \<open>C22. Narrowing a scope ends: over the listings that are fetched for an item, the expansion of every
  directory on the way to it returns a scope, within as many nested calls as the path is longer than the
  directory, and more of them change nothing. (The path does not end in a slash, and no entry of the disk has
  an empty name.)\<close>

theorem expansion_ends:
  assumes "fs_ok fs" "names_ok fs" "path \<noteq> []" "last path \<noteq> CHR ''/''"
    and "dir = [] \<or> within path dir" "length path < length dir + fuel"
  shows "\<exists>out. \<forall>fuel' \<ge> fuel. walk_scope (map_of (fetch_listings x fs r path)) path fuel' dir = Some out"
proof -
  let ?c = "map_of (fetch_listings x fs r path)"
  have g: "listing_grows ?c" by (rule fetched_listings [OF assms(1,2)])
  have "walk_scope ?c path fuel dir \<noteq> None"
    by (rule walk_scope_total [OF g fetched_on_the_way [OF assms(3,4)] assms(5,6)])
  moreover have "\<not> length path < length dir" using assms(5) by (auto simp: within_def)
  ultimately show ?thesis using walk_scope_fuel [OF g assms(6)] by fastforce
qed

theorem expansion_ends_witness:
  "\<exists>out. walk_scope (map_of (fetch_listings demo_ext demo_fs \<lparr>sh_root = [''C'', ''s'']\<rparr> ''d/cd'')) ''d/cd'' 5 [] = Some out"
proof -
  have "''d/cd'' \<noteq> []" "last ''d/cd'' \<noteq> CHR ''/''" "[] = [] \<or> within ''d/cd'' []" "length ''d/cd'' < length [] + 5"
    by simp_all
  from expansion_ends [OF demo_fs_ok this] show ?thesis by blast
qed

section \<open>Stores\<close>

text \<open>C23. A store survives a crash at any point of a save: the file holds the old contents or the whole new
  ones. A save that reports success has written the contents, which the next start reads back; one that
  reports failure has left the file as it was.\<close>

theorem save_atomic:
  assumes "codec_ok c" "store_save c faults st = (ok, st')"
  shows "\<exists>payload. cd_ser c (st_data st) = Some payload
    \<and> (\<forall>k. main_file (fold disk_step (take k (save_ops payload)) (st_disk st)) \<in> {main_file (st_disk st), Some payload})
    \<and> main_file (st_disk st') = (if ok then Some payload else main_file (st_disk st))
    \<and> (ok \<longrightarrow> store_open c True (st_disk st') = Inr \<lparr>st_data = st_data st, st_disk = st_disk st'\<rparr>)"
proof -
  obtain payload where t: "cd_ser c (st_data st) = Some payload" "valid_utf8 payload" "cd_de c payload = Some (st_data st)"
    using assms(1) unfolding codec_ok_def by blast
  have m: "main_file (st_disk st') = (if ok then Some payload else main_file (st_disk st))"
    using assms(2) t(1) run_save by (fastforce simp: store_save_def split: prod.splits)
  show ?thesis using t m save_prefix_atomic by (auto simp: store_open_def)
qed

theorem save_atomic_witness:
  "main_file (st_disk (snd (store_save bool_codec no_faults (demo_store True)))) = Some ''1''"
proof -
  have "store_save bool_codec no_faults (demo_store True) = (True, snd (store_save bool_codec no_faults (demo_store True)))"
    by (simp add: store_save_def bool_codec_def save_ops_def no_faults_def)
  from save_atomic [OF bool_codec_ok this] show ?thesis by (auto simp: bool_codec_def demo_store_def)
qed

section \<open>Scopes, the guard and the inbox\<close>

text \<open>C24. A scope is a set of path prefixes, component by component: a grant covers a path if and only if
  its scope is empty or one of the scope's paths is the path itself or a proper, non-empty, leading part of its
  components.\<close>

theorem scope_components:
  "can_read_file paths f \<longleftrightarrow> paths = [] \<or> f \<in> set paths
    \<or> (\<exists>p. p \<in> set paths \<and> p \<noteq> [] \<and> prefix (split_on (CHR ''/'') p) (split_on (CHR ''/'') f))"
proof -
  have "(f = p \<or> within f p) \<longleftrightarrow> (f = p \<or> p \<noteq> [] \<and> prefix (comps p) (comps f))" for p
    using covers_comps [of p f] by (cases "p = []") auto
  then show ?thesis unfolding can_read_file_def list_ex_iff by auto
qed

text \<open>C25. A request passes the guard of the owner's server if and only if each of its Host, Origin and Referer
  headers, where present, names one of the spellings of the loopback host with exactly the admin port,
  up to the scheme, the case and a path. In particular one that carries none of the three passes.\<close>

theorem guard_exact:
  "(local_only_guard port h \<longleftrightarrow> (\<forall>k \<in> {''host'', ''origin'', ''referer''}. \<forall>v. h k = Some v \<longrightarrow>
    (\<exists>host \<in> {''127.0.0.1'', ''127.0.0.1.'', ''localhost'', ''localhost.''}. \<exists>r.
      bare_authority v = host @ '':'' @ show_nat (unat port) @ r
      \<and> (r = [] \<or> hd r \<in> {CHR ''/'', CHR ''?'', CHR ''#''}))))
    \<and> local_only_guard port (\<lambda>k. if k \<in> {''host'', ''origin'', ''referer''} then None else h k)"
proof -
  have g: "local_only_guard port h' \<longleftrightarrow>
      (\<forall>k \<in> {''host'', ''origin'', ''referer''}. \<forall>v. h' k = Some v \<longrightarrow> authority_allowed v port)" for h'
    using null_not_allowed by (auto simp: local_only_guard_def split: option.splits)
  then have "local_only_guard port (\<lambda>k. if k \<in> {''host'', ''origin'', ''referer''} then None else h k)"
    by (simp split: if_splits)
  then show ?thesis unfolding g authority_allowed_iff local_hosts_def list.set by simp
qed

theorem guard_exact_witness:
  "\<not> local_only_guard 80 ((\<lambda>_. None)(''origin'' := Some ''http://evil:80'')) \<and> local_only_guard 80 (\<lambda>_. None)"
proof -
  have b: "bare_authority ''http://evil:80'' = ''evil:80''" by code_simp
  show ?thesis unfolding guard_exact [THEN conjunct1] by (simp add: b)
qed

text \<open>C26. Whatever route a request to the owner's server takes, one that names a foreign Host, Origin or Referer is
  answered 404 and changes nothing; any other changes nothing or is one step of the owner, a decision on a
  pairing request only as a POST to that request's path and a revocation only as a DELETE of that grant.\<close>

theorem owner_server_guarded:
  assumes "owner_serve y n rq a = (ans, b)"
  shows "if local_only_guard (ad_admin_port a) (ow_headers rq)
    then b = a \<or> (\<exists>l. step y a l b \<and> l \<notin> {Peer_Request, Background}
      \<and> (\<forall>nid d. l \<noteq> Owner_Decision nid d \<or> ow_method rq = ''POST''
          \<and> (\<exists>e. path_segments (ow_path rq) = [''v1'', ''admin'', ''requests'', e, ''decision''] \<and> oi_decode n e = Some nid))
      \<and> (\<forall>fp. l \<noteq> Owner_Revoke fp \<or> ow_method rq = ''DELETE''
          \<and> (\<exists>e. path_segments (ow_path rq) = [''v1'', ''admin'', ''grants'', e] \<and> oi_decode n e = Some fp)))
    else ans = Ans_Error (err NOT_FOUND ''not found'') \<and> b = a"
proof (cases "b = a")
  case True
  from assms show ?thesis by (cases rule: owner_serve_cases) (simp_all add: True)
next
  case False
  from assms have "local_only_guard (ad_admin_port a) (ow_headers rq)"
    by (cases rule: owner_serve_cases) (use False in simp_all)
  moreover obtain l where "step y a l b" "l \<notin> {Peer_Request, Background}"
    "\<And>nid d. l = Owner_Decision nid d \<Longrightarrow> ow_method rq = ''POST''
      \<and> (\<exists>e. path_segments (ow_path rq) = decision_path e \<and> oi_decode n e = Some nid)"
    "\<And>fp. l = Owner_Revoke fp \<Longrightarrow> ow_method rq = ''DELETE''
      \<and> (\<exists>e. path_segments (ow_path rq) = grant_path e \<and> oi_decode n e = Some fp)"
    using owner_serve_step [OF assms False] by metis
  ultimately show ?thesis using False unfolding decision_path_def grant_path_def by auto
qed

theorem owner_server_guarded_witness:
  "\<forall>n. owner_serve demo_admin_sys n demo_foreign (demo_admin []) = (Ans_Error (err NOT_FOUND ''not found''), demo_admin [])"
proof
  fix n
  have "bare_authority ''evil:37656'' = ''evil:37656''" by code_simp
  then have "\<not> authority_allowed ''evil:37656'' (ad_admin_port (demo_admin []))"
    by (simp add: authority_allowed_iff local_hosts_def)
  then have "\<not> local_only_guard (ad_admin_port (demo_admin [])) (ow_headers demo_foreign)"
    by (simp add: local_only_guard_def demo_foreign_def)
  then show "owner_serve demo_admin_sys n demo_foreign (demo_admin []) = (Ans_Error (err NOT_FOUND ''not found''), demo_admin [])"
    using owner_server_guarded [of demo_admin_sys n demo_foreign "demo_admin []"]
    by (cases "owner_serve demo_admin_sys n demo_foreign (demo_admin [])") simp
qed

text \<open>The inbox lists, newest first, only files that stand in it, with their size, and no sidecar.\<close>

theorem inbox_listing:
  assumes "Inbox.inbox_list mc fs r = Inr es" "fs_ok fs" "inbox_ok fs r"
  shows "sorted (rev (map (\<lambda>e. unat (entry_time e)) es))
    \<and> (\<forall>e \<in> set es. \<not> suffix SIDECAR_SUFFIX (ie_name e)
      \<and> (\<exists>b m. fs_get fs (ib_root r @ [ie_name e]) = Some (FFile b m) \<and> ie_size e = of_nat (length b)))"
  by (intro conjI ballI inbox_list_sorted [OF assms(1)]) (use inbox_list_entry [OF assms(2,3,1)] in simp_all)

theorem inbox_listing_witness:
  "\<exists>e. Inbox.inbox_list (sy_meta demo_sys) demo_fs \<lparr>ib_root = [''C'', ''s'', ''d'']\<rparr> = Inr [e] \<and> ie_size e = 2"
proof -
  let ?r = "\<lparr>ib_root = [''C'', ''s'', ''d'']\<rparr>"
  have d: "read_dir demo_fs (ib_root ?r) = Some [(''cd'', FFile ''yo'' None)]"
    "entries_readable demo_fs (ib_root ?r) [(''cd'', FFile ''yo'' None)]"
    "fs_get demo_fs [''C'', ''s'', ''d'', ''cd''] = Some (FFile ''yo'' None)" "\<not> suffix SIDECAR_SUFFIX ''cd''"
    by code_simp+
  obtain e where e: "e = inbox_entry_of (sy_meta demo_sys) demo_fs ?r (''cd'', FFile ''yo'' None)" by blast
  then have n: "ie_name e = ''cd''" by (simp add: inbox_entry_of_def Let_def)
  have l: "Inbox.inbox_list (sy_meta demo_sys) demo_fs ?r = Inr [e]"
    using d e by (simp add: Inbox.inbox_list_def)
  from inbox_listing [OF l demo_fs_ok(1) demo_inbox2_ok] n d(3) l show ?thesis by auto
qed

section \<open>Printing\<close>

text \<open>The dates in a token are read right: for every day from 1970 to 2100 the day count is that of the
  calendar.\<close>

theorem token_dates:
  assumes "1970 \<le> y" "y \<le> 2100" "1 \<le> m" "m \<le> 12" "1 \<le> d" "d \<le> 31"
  shows "days_since_epoch (of_nat y) (of_nat m) (of_nat d) = Some (of_nat (calendar_days y m d))"
  by (rule days_since_epoch_calendar [OF assms])

theorem token_dates_witness: "days_since_epoch 1972 3 1 = Some 790"
proof -
  have "calendar_days 1972 3 1 = 790" by code_simp
  then show ?thesis using token_dates [of 1972 3 1] by simp
qed

text \<open>C27. A print job that is reported done was taken, on one of the known ports, over the certificate the token
  is pinned to, with a signature by the token over the agent's nonce; and what was sent opens, under the
  token, to exactly the file.\<close>

theorem print_pinned:
  assumes "submit_job x net env rnd t sid fname payload = Inr ()"
    and "aead_laws x" "\<forall>port. length (rnd port) = 12"
  shows "\<exists>port \<in> {local_port env, PRINTLINK_LOCAL_PORT, 19100}. \<exists>nonce sealed r fp.
    auth_challenge_on_port x net port sid = Inr nonce
    \<and> nt_print net port (job_post x t sid fname nonce sealed) = Inr r \<and> rp_status r = 200
    \<and> der_fingerprint x r = Inr fp \<and> eq_ignore_ascii_case fp (lt_pinned_fp t)
    \<and> decrypt_payload x sealed (lt_token t) = Inr payload"
proof -
  obtain port nonce sealed r fp where p: "port \<in> set (ports_to_try env)" "auth_challenge_on_port x net port sid = Inr nonce"
    "encrypt_payload x (rnd port) payload (lt_token t) = Inr sealed"
    "nt_print net port (job_post x t sid fname nonce sealed) = Inr r" "rp_status r = 200"
    "der_fingerprint x r = Inr fp" "eq_ignore_ascii_case fp (lt_pinned_fp t)"
    using submit_pinned [OF assms(1) [unfolded submit_job_def]] by blast
  have "decrypt_payload x sealed (lt_token t) = Inr payload"
    using decrypt_encrypt [OF assms(2) _ p(3)] assms(3) by simp
  moreover have "port \<in> {local_port env, PRINTLINK_LOCAL_PORT, 19100}" using p(1) ports_to_try_props by blast
  ultimately show ?thesis using p by blast
qed

theorem print_pinned_witness:
  "\<exists>port nonce sealed r. nt_print demo_print_net port (job_post demo_ext demo_token ''1'' ''f'' nonce sealed) = Inr r
    \<and> rp_status r = 200 \<and> decrypt_payload demo_ext sealed (lt_token demo_token) = Inr ''x''"
  using print_pinned [OF demo_job demo_aead_laws] by (auto simp: length_pad)

text \<open>Once a token is stored, a node that pairs with its print agent again keeps the pinned certificate, and
  stores what it returns.\<close>

theorem print_pin_kept:
  assumes "ensure_paired x net env cd faults now now2 i sname st = (Inr t, st')" "st_data st = Some old"
  shows "lt_pinned_fp t = lt_pinned_fp old \<and> st_data st' = Some t"
  using assms pair_on_ports_pin by (fastforce simp: ensure_paired_def split: if_splits)

theorem print_pin_kept_witness:
  "\<exists>t st. ensure_paired demo_ext demo_print_net None (demo_codec None) no_faults 0 0 demo_ident ''N''
      (demo_store (Some demo_token)) = (Inr t, st) \<and> lt_token t = ''u'' \<and> lt_pinned_fp t = lt_pinned_fp demo_token"
  using demo_repair print_pin_kept [of demo_ext demo_print_net None "demo_codec None" no_faults 0 0 demo_ident "''N''"
      "demo_store (Some demo_token)"] by fastforce

section \<open>Between two nodes\<close>

text \<open>C28. Downloading works from end to end: when the owner opens a file of a contact and the contact's node,
  reached over the network under the certificate of its key, has a live grant for this node's key that covers
  the file, then what the owner receives is a success with exactly the content of that file.\<close>

theorem download_delivers:
  assumes "hex_laws (sy_x y)" "sig_laws (sy_x y)" "cl_http cl = node_http y n w s" "as_sys ys = y"
    and "fst (peer_lookup (cl_now cl 0) nid a) = Inr \<lparr>pt_base = wi_base w, pt_fingerprint = fingerprint (sy_x y) ib\<rparr>"
    and "x_cert_spki (sy_x y) (wi_cert w) = Some (ED25519_SPKI_HEADER @ verifying_key (sy_x y) ib)"
    and "wi_decode w (x_url_encode (sy_x y) path) = Some path"
    and "honours y n s (nd_identity (ad_node a)) g"
    and "fresh_call y n s (cl_ts cl 0) (auth_headers (sy_x y) (nd_identity (ad_node a)) (cl_ts cl 0)
        (cl_nonce cl 0) ''GET'' (file_path_q (sy_x y) path))"
    and "g_allow_files g" "can_read_file (g_paths g) path"
    and "resolve (nd_fs s) (nd_share s) path = Inr p" "read_file (nd_fs s) p = Some content" "h ''range'' = None"
  shows "\<exists>f. fst (browse_file ys cl h nid path a) = Inr f \<and> rl_status f = 200 \<and> rl_body f = Inr content"
  using remote_download [OF assms(1-3,5-13)] assms(4,14) by (auto simp: browse_file_def case_prod_beta)

theorem download_delivers_witness:
  "\<exists>f. fst (browse_file demo_admin_sys (demo_client (node_http demo_sys demo_env (demo_wire ''https://h'') (demo_node [''ab''])))
      (\<lambda>_. None) ''p'' ''ab'' demo_caller) = Inr f \<and> rl_body f = Inr ''hi''"
proof -
  have r: "can_read_file [''ab''] ''ab''" by (simp add: can_read_file_def)
  show ?thesis
    using download_delivers [of demo_sys "demo_client (node_http demo_sys demo_env (demo_wire ''https://h'') (demo_node [''ab'']))"
        demo_env "demo_wire ''https://h''" "demo_node [''ab'']" demo_admin_sys "''p''" demo_caller demo_ident "''ab''"
        "demo_grant [''ab'']" "[''C'', ''s'', ''ab'']" "''hi''" "\<lambda>_. None"]
      demo_lookup demo_honours demo_fresh r
    by (auto simp: demo_admin_sys_def demo_resolve demo_read auth_headers_def)
qed

text \<open>C29. A file reported sent has arrived: the content that stands in the sender's share under the path is, after
  the request, in the receiver's inbox, whole, under the answered name, which was free there.\<close>

theorem send_file_delivers:
  assumes "cl_http cl = node_http y n w s" "x = sy_x (as_sys ys)"
    and "fst (peer_lookup (cl_now cl 0) nid a) = Inr \<lparr>pt_base = wi_base w, pt_fingerprint = fp\<rparr>"
    and "wi_decode w (x_url_encode x (file_name path)) = Some (file_name path)"
    and "\<forall>r v. pj_upload (cl_json cl) (pj_text (cl_json cl) r (wi_json w (OkUpload v))) = Inr v"
    and "fst (send_file ys m cl nid path a) = Inr r" "inbox_ok (nd_fs s) (nd_inbox s)"
  shows "\<exists>p content s'. resolve (nd_fs (ad_node a)) (nd_share (ad_node a)) path = Inr p
    \<and> read_file (nd_fs (ad_node a)) p = Some content
    \<and> s' = node_after y n w s (upload_request x (nd_identity (ad_node a)) cl (wi_base w) (file_name path) content)
    \<and> fs_get (nd_fs s) (ib_root (nd_inbox s) @ [sn_stored r]) = None
    \<and> fs_get (nd_fs s') (ib_root (nd_inbox s) @ [sn_stored r]) = Some (FFile content (Some (en_clk n 4)))"
proof -
  obtain content u where c: "file_to_send path (ad_node a) = Inr content" "sn_stored r = ur_name u"
    "fst (proxy_upload x cl 0 nid (file_name path) content a) = Inr u"
    using send_file_Inr [OF assms(6)] unfolding assms(2) .
  obtain p where p: "resolve (nd_fs (ad_node a)) (nd_share (ad_node a)) path = Inr p"
    "read_file (nd_fs (ad_node a)) p = Some content" using file_to_send_Inr [OF c(1)] .
  show ?thesis
    using remote_upload [OF assms(1,3,4) refl _ c(3)] assms(5) write_file_stored [OF assms(7)] p c(2)
    by (force elim!: upload_handler_Inr)
qed

theorem send_file_delivers_witness:
  "\<exists>r content. fst (send_file demo_admin_sys demo_env (demo_client (node_http demo_sys demo_env (demo_wire ''https://h'')
        (demo_node []))) ''p'' ''ab'' demo_caller) = Inr r \<and> content = ''hi''
    \<and> fs_get (nd_fs (node_after demo_sys demo_env (demo_wire ''https://h'') (demo_node [])
        (upload_request demo_ext demo_ident (demo_client (node_http demo_sys demo_env (demo_wire ''https://h'')
          (demo_node []))) ''https://h'' ''ab'' content))) [''C'', ''i'', sn_stored r] = Some (FFile content (Some 0))"
proof -
  let ?w = "demo_wire ''https://h''"
  obtain r where r: "fst (send_file demo_admin_sys demo_env (demo_client (node_http demo_sys demo_env ?w (demo_node [])))
      ''p'' ''ab'' demo_caller) = Inr r" using demo_sent by blast
  have "as_sys demo_admin_sys = demo_sys" by (simp add: demo_admin_sys_def)
  then show ?thesis
    using send_file_delivers [OF _ refl _ _ _ r, of demo_sys demo_env ?w "demo_node []"] demo_lookup demo_inbox_ok
      demo_reads_upload r demo_read
    by (auto simp: demo_file_name demo_resolve)
qed

text \<open>C30. A file above the body limit of the receiver's web framework cannot be sent, even where both sides'
  inbox limit, which the sender checked, allows it.\<close>

theorem large_send_fails:
  assumes "cl_http cl = node_http y n w s" "x = sy_x (as_sys ys)"
    and "fst (peer_lookup (cl_now cl 0) nid a) = Inr \<lparr>pt_base = wi_base w, pt_fingerprint = fp\<rparr>"
    and "wi_decode w (x_url_encode x (file_name path)) = Some (file_name path)"
    and "file_to_send path (ad_node a) = Inr content" "sy_body_limit y < length content"
  shows "\<nexists>r. fst (send_file ys m cl nid path a) = Inr r"
proof
  assume "\<exists>r. fst (send_file ys m cl nid path a) = Inr r"
  then obtain u where u: "fst (proxy_upload x cl 0 nid (file_name path) content a) = Inr u"
    using assms(2,5) by (auto elim: send_file_Inr)
  have "serve y n (wi_ip w) h (PostUpload (file_name path) content) s
      = (Refusal (err PAYLOAD_TOO_LARGE ''Failed to buffer the request body: length limit exceeded''), s)" for h
    using assms(6) by (simp add: serve_def buffered_def)
  from remote_upload_answer [OF assms(1,3,4) refl this u] show False by (simp add: is_success_def err_def)
qed

theorem large_send_fails_witness:
  "\<nexists>r. fst (send_file demo_admin_sys demo_env (demo_client (node_http (demo_sys\<lparr>sy_body_limit := 1\<rparr>) demo_env
    (demo_wire ''https://h'') (demo_node []))) ''p'' ''ab'' demo_caller) = Inr r"
proof -
  have "sy_body_limit (demo_sys\<lparr>sy_body_limit := 1\<rparr>) < length ''hi''" by simp
  then show ?thesis
    using large_send_fails [OF _ refl, where w = "demo_wire ''https://h''" and content = "''hi''" and s = "demo_node []"
        and y = "demo_sys\<lparr>sy_body_limit := 1\<rparr>" and n = demo_env and ys = demo_admin_sys and path = "''ab''"]
      demo_lookup demo_file_to_send by (simp add: demo_admin_sys_def demo_file_name)
qed

text \<open>C31. A contact is recorded only with a fingerprint that the peer proved twice: the answer that named it and
  the answer to the signed pair request both came over a certificate whose key hashes to it.\<close>

theorem contact_pinned:
  assumes "add_contact y n cl polls b a = (Inr st, a')"
  shows "\<exists>c r r2 base. find_contact (normalize_id (sy_x (as_sys y)) (ab_node_id b)) (contacts_of (ad_node a')) = Some c
    \<and> cl_http cl \<lparr>rq_method = ''GET'', rq_url = base @ ''/v1/info'', rq_headers = [], rq_body = []\<rparr> = Inr r
    \<and> pinned (sy_x (as_sys y)) r (c_fingerprint c)
    \<and> cl_http cl \<lparr>rq_method = ''POST'', rq_url = base @ ''/v1/pair/request'',
        rq_headers = [(''content-type'', ''application/json'')],
        rq_body = pj_pair_request (cl_json cl) (signed_pair_request (sy_x (as_sys y)) (nd_node (ad_node a))
          (nd_identity (ad_node a)) (ab_duration_secs b))\<rparr> = Inr r2
    \<and> pinned (sy_x (as_sys y)) r2 (c_fingerprint c) \<and> c_status c = status_text (ps_status st)"
  using assms
  by (elim add_contact_Inr fetch_info_Inr send_pair_request_Inr) (force simp: cf_keyed find_key_upsert)

theorem contact_pinned_witness:
  "\<exists>st a' c. add_contact demo_admin_sys demo_admin_env demo_old [] demo_new_contact demo_caller = (Inr st, a')
    \<and> find_contact (normalize_id demo_ext (replicate 16 (CHR ''0''))) (contacts_of (ad_node a')) = Some c"
proof -
  obtain st a' where a: "add_contact demo_admin_sys demo_admin_env demo_old [] demo_new_contact demo_caller = (Inr st, a')"
    using demo_added by blast
  then show ?thesis using contact_pinned [OF a] by (auto simp: demo_admin_sys_def demo_new_contact_def)
qed

text \<open>C32. An approval whose push was lost arrives with the next poll. What one round of the verifier makes of a pending
  contact that is discovered and whose node holds a live grant for this node: while a request of this node still
  waits there it stays pending; where a decision about this node is recorded there, it is labelled as that decision
  says, a stale denial included; in every other case it is approved.\<close>

theorem approval_reaches_requester:
  assumes "hex_laws (sy_x y)" "sig_laws (sy_x y)" "cl_http cl = node_http y n w s"
    and "x_cert_spki (sy_x y) (wi_cert w) = Some (ED25519_SPKI_HEADER @ verifying_key (sy_x y) ib)"
    and "wi_decode w (x_url_encode (sy_x y) (node_id (sy_x y) i)) = Some (node_id (sy_x y) i)"
    and "\<forall>st. pj_pair_status (cl_json cl) (wi_json w (OkPair st)) = Inr st"
    and "fresh_call y n s (cl_ts cl k) (auth_headers (sy_x y) i (cl_ts cl k) (cl_nonce cl k) ''GET''
        (status_path_q (sy_x y) (node_id (sy_x y) i)))" "admitted n w s"
    and "g \<in> set (grants_of s)" "g_node_id g = node_id (sy_x y) i" "grant_live (en_clk n 2) g"
    and "find_contact nid (st_data st) = Some c" "c_status c = ''pending''" "c_fingerprint c = fingerprint (sy_x y) ib"
    and "List.find (\<lambda>p. p_node_id p = nid) peers = Some p" "peer_base_url (p_addr p) (p_http_port p) = wi_base w"
  shows "find_contact nid (st_data (verifier_tick (sy_x y) cd faults (status_fetch (sy_x y) i cl k) peers
      (node_id (sy_x y) i) st))
    = Some (if map_of (pending (nd_pairing s)) (node_id (sy_x y) i) \<noteq> None then c
        else case map_of (decisions (nd_pairing s)) (node_id (sy_x y) i) of
          Some d \<Rightarrow> (case status_label (ps_status (fst d)) of None \<Rightarrow> c | Some l \<Rightarrow> c\<lparr>c_status := l\<rparr>)
        | None \<Rightarrow> c\<lparr>c_status := ''approved''\<rparr>)"
proof -
  let ?nid = "node_id (sy_x y) i" and ?fetch = "status_fetch (sy_x y) i cl k"
  let ?st = "pair_status_lookup (en_clk n 2) (nd_pairing s) (grants_of s) ?nid"
  have "?fetch (wi_base w) (status_path_q (sy_x y) ?nid) (fingerprint (sy_x y) ib) = Some (ps_status ?st)"
    using remote_poll [OF assms(1-5) _ assms(7,8)] assms(6) by simp
  then have f: "?fetch (peer_base_url (p_addr p) (p_http_port p))
      (''/v1/pair/status?node_id='' @ x_url_encode (sy_x y) ?nid) (c_fingerprint c) = Some (ps_status ?st)"
    unfolding assms(14,16) status_path_q_def .
  have "List.find (\<lambda>g. g_node_id g = ?nid \<and> grant_live (en_clk n 2) g) (grants_of s) \<noteq> None"
    using assms(9-11) by (auto simp: find_None_iff)
  then show ?thesis
    using verifier_tick_answered [OF assms(12,13,15), where fetch = ?fetch and x = "sy_x y" and my_id = ?nid, OF f]
    by (auto simp: answered_contact_def pair_status_lookup_def status_label_def split: option.split)
qed

theorem approval_reaches_requester_witness:
  "\<exists>peers. find_contact ''p'' (st_data (verifier_tick demo_ext (demo_codec []) no_faults
      (status_fetch demo_ext demo_ident (demo_client (node_http demo_sys demo_env
        (demo_wire (peer_base_url ''a'' 1)) (demo_node []))) 0) peers
      (node_id demo_ext demo_ident) (demo_store [demo_contact ''pending''])))
    = Some (demo_contact ''approved'')"
proof -
  let ?w = "demo_wire (peer_base_url ''a'' 1)"
  let ?p = "\<lparr>p_node_id = ''p'', p_name = [], p_addr = ''a'', p_http_port = 1, p_fingerprint = [], p_last_seen_unix = 0\<rparr>"
  have f: "find_contact ''p'' (st_data (demo_store [demo_contact ''pending''])) = Some (demo_contact ''pending'')"
    by (simp add: find_contact_def demo_contact_def)
  have "find_contact ''p'' (st_data (verifier_tick (sy_x demo_sys) (demo_codec []) no_faults
      (status_fetch (sy_x demo_sys) demo_ident (demo_client (node_http demo_sys demo_env ?w (demo_node []))) 0) [?p]
      (node_id (sy_x demo_sys) demo_ident) (demo_store [demo_contact ''pending''])))
    = Some ((demo_contact ''pending'')\<lparr>c_status := ''approved''\<rparr>)"
    using f demo_fresh [of "[]"] demo_granted
    by (intro trans [OF approval_reaches_requester [where y = demo_sys and n = demo_env and w = ?w and s = "demo_node []"
        and ib = demo_ident and g = "demo_grant []" and p = ?p and c = "demo_contact ''pending''"]])
      (simp_all add: admitted_def pairing_default_def auth_headers_def demo_contact_def)
  then show ?thesis by (intro exI [of _ "[?p]"]) (simp add: demo_contact_def)
qed

section \<open>The daemon against its promise\<close>

text \<open>C33. The daemon, run in any interleaving of network requests, owner actions and background loops, refines the
  access map: grants enter it by an approval of the key's own node id, leave it by a revocation or when they
  lapse, and otherwise change only their scope and permissions, through the owner.\<close>

theorem access_refined:
  assumes "boot y a0" "run y a0 ls a"
  shows "arun (acl_of a0) ls (acl_of a)"
  by (rule run_refines [OF assms(2) boot_sane [OF assms(1)]])

theorem access_refined_witness:
  "arun (acl_of (demo_admin [])) [Owner_Revoke (fingerprint demo_ext demo_ident)] (acl_of demo_revoked)"
proof -
  have "run demo_admin_sys (demo_admin []) ([] @ [Owner_Revoke (fingerprint demo_ext demo_ident)]) demo_revoked"
    unfolding demo_revoked_def by (rule run.more [OF run.stay step.revoke])
  then show ?thesis using access_refined [OF demo_boot] by simp
qed

section \<open>Searches and refusals\<close>

text \<open>C34. A search that was not cut and found fewer hits than the cap misses nothing: every file in a directory
  reachable from the roots whose name matches is among the hits.\<close>

theorem search_complete:
  assumes "search_scope x fs r roots query = (res, False)" "length res < SEARCH_MAX_RESULTS"
    and "d \<in> dirs_from (share_list x fs r) (if roots = [] then {[]} else set roots)"
    and "share_list x fs r d = Inr es" "e \<in> set es" "de_kind e = File"
      "matches_query x (de_name e) (x_to_lower x (trim query))"
  shows "e \<in> set res"
  by (rule search_scope_complete [OF assms])

theorem search_complete_witness:
  "\<exists>res. search_scope demo_ext demo_fs \<lparr>sh_root = [''C'', ''s'']\<rparr> [] ''ab'' = (res, False) \<and>
    \<lparr>de_name = ''ab'', de_path = ''ab'', de_kind = File, de_size = 2, de_modified_unix = None\<rparr> \<in> set res"
proof -
  have "[] \<in> dirs_from (share_list demo_ext demo_fs \<lparr>sh_root = [''C'', ''s'']\<rparr>) {[]}" by (rule dirs_from.here) simp
  then show ?thesis
    using search_complete [OF demo_search _ _ demo_list] demo_search
    by (simp add: demo_matches SEARCH_MAX_RESULTS_def)
qed

text \<open>The fallback search of an older peer reports every match in the root of the share twice: the root is
  listed before the walk and again as its first directory (stated for a share without folders).\<close>

theorem older_peer_twice:
  assumes "proxy_list x cl 0 nid [] a = (Inr v, a1)" "fst (proxy_list x cl 1 nid [] a1) = Inr v"
    and "pj_list (cl_json cl) v = Inr l" "\<forall>e \<in> set (lr_entries l). de_kind e = File"
    and "lr_entries l \<noteq> []" "length (lr_entries l) < 200"
  shows "\<exists>r. fst (proxy_search_fallback x cl nid query a) = Inr r
    \<and> (\<forall>e \<in> set (lr_entries l). contains (x_to_lower x query) (x_to_lower x (de_name e)) \<longrightarrow>
        count_list (sr_results r) e = 2 * count_list (lr_entries l) e)"
proof -
  have "2 * length (lr_entries l) \<le> MAX_VISITS" using assms(6) by (simp add: MAX_VISITS_def)
  moreover have "length (fallback_hits x (x_to_lower x query) (lr_entries l)) < 200"
    using assms(6) length_filter_le le_less_trans by blast
  moreover have "count_list (filter P es) e = count_list es e" if "P e" for P and es :: "dir_entry list" and e
    using that by (induction es) auto
  ultimately show ?thesis using fallback_flat [OF assms(1-4) _ _ assms(5)] by simp
qed

theorem older_peer_twice_witness:
  "\<exists>r e. fst (proxy_search_fallback demo_ext demo_old ''p'' ''ab'' demo_caller) = Inr r \<and> count_list (sr_results r) e = 2"
proof -
  have "contains ''ab'' ''ab''" by code_simp
  moreover have "ascii_lowercase ''ab'' = ''ab''" by code_simp
  ultimately show ?thesis
    using older_peer_twice [OF demo_old_list, where query = "''ab''"] demo_old_list
    by (auto simp: demo_json_def demo_ext_def)
qed

text \<open>An update that takes both permissions off a grant is refused with status 400, and yet the running node
  has applied it, scope and permissions.\<close>

theorem refused_update_applied:
  assumes "find_grant fp (grants_of s) = Some g"
    and "gu_allow_files b = Some False" "gu_allow_print b = Some False"
  shows "\<exists>e s'. update_grant y n fp b s = (Inl e, s') \<and> he_status e = 400
    \<and> find_grant fp (grants_of s') = Some (g\<lparr>g_paths := gu_paths b, g_allow_files := False, g_allow_print := False\<rparr>)"
proof -
  have f: "find_grant fp (update_first (\<lambda>g. g_fingerprint g = fp) (updated_grant b) gs) = Some (updated_grant b g)"
    if "find_grant fp gs = Some g" for gs
    using that by (induction gs) (auto simp: find_grant_def updated_grant_def split: if_splits)
  show ?thesis using assms f [OF assms(1)] by (simp add: update_grant_def updated_grant_def err_def Let_def)
qed

theorem refused_update_applied_witness:
  "\<exists>s'. snd (update_grant demo_admin_sys demo_env (fingerprint demo_ext demo_ident) \<lparr>gu_paths = [''d''],
      gu_allow_files = Some False, gu_allow_print = Some False\<rparr> (demo_node [])) = s'
    \<and> (\<exists>g. find_grant (fingerprint demo_ext demo_ident) (grants_of s') = Some g \<and> \<not> g_allow_files g)"
  using refused_update_applied [of "fingerprint demo_ext demo_ident" "demo_node []" "demo_grant []"
      "\<lparr>gu_paths = [''d''], gu_allow_files = Some False, gu_allow_print = Some False\<rparr>" demo_admin_sys demo_env]
  by (auto simp: find_grant_def)

section \<open>Starts, restarts and the window\<close>

text \<open>C35. A PC that advertises itself is found, at the address and port it announced, and seen by every reader of the
  registry until its announcement is older than the time to live, whatever else the browser heard; its goodbye
  takes it out at once; and a node never sees itself.\<close>

theorem discovered_until_goodbye:
  assumes "start_advertiser up register ip nid name port = Some svc" "nid \<noteq> self_id" "CHR ''.'' \<notin> set nid"
    and "concat (before_stop es) = xs @ [(t, ServiceResolved (resolved svc full))] @ ys"
    and "list_all (\<lambda>e. word_about self_id nid e = None) ys"
    and "concat (before_stop es') = concat (before_stop es) @ [(t', ServiceRemoved (stop_advertising nid))] @ zs"
    and "list_all (\<lambda>e. word_about self_id nid e = None) zs"
  shows "map_of (fst (run_browser True True self_id es [])) nid = Some \<lparr>p_node_id = nid, p_name = full, p_addr = sv_ip svc,
      p_http_port = port, p_fingerprint = [], p_last_seen_unix = t\<rparr>
    \<and> ((\<exists>p \<in> set (fst (registry_snapshot now (fst (run_browser True True self_id es [])))). p_node_id p = nid)
        \<longleftrightarrow> sat_sub now t \<le> PEER_TTL_SECS)
    \<and> \<not> (\<exists>p \<in> set (fst (registry_snapshot now (fst (run_browser True True self_id es' [])))). p_node_id p = nid)
    \<and> \<not> (\<exists>p \<in> set (fst (registry_snapshot now (fst (run_browser True True self_id es [])))). p_node_id p = self_id)"
proof -
  note seen = seen_while_fresh [OF browser_registry_ok]
  have on: "map_of (fst (run_browser True True self_id es [])) nid = Some \<lparr>p_node_id = nid, p_name = full,
      p_addr = sv_ip svc, p_http_port = port, p_fingerprint = [], p_last_seen_unix = t\<rparr>"
    by (rule browser_after [OF assms(4) announced_word [OF assms(1,2)] assms(5)])
  have off: "map_of (fst (run_browser True True self_id es' [])) nid = None"
    by (rule browser_after [OF assms(6) goodbye_word [OF assms(3)] assms(7)])
  show ?thesis using seen [OF on, of now] seen [OF off, of now] seen [OF browser_not_self, of now] on
    by (simp add: peer_fresh_def)
qed

theorem discovered_until_goodbye_witness:
  "\<exists>svc. start_advertiser True (\<lambda>_. True) (Some (192, 168, 1, 7)) ''id'' ''PC'' 37655 = Some svc
    \<and> (\<exists>p \<in> set (fst (registry_snapshot 5 (fst (run_browser True True ''me'' [Woken [(0, ServiceResolved (resolved svc ''f''))]] [])))).
        p_node_id p = ''id'')"
proof -
  obtain svc where s: "start_advertiser True (\<lambda>_. True) (Some (192, 168, 1, 7)) ''id'' ''PC'' 37655 = Some svc"
    by (simp add: start_advertiser_def service_info_for_def)
  show ?thesis
    using discovered_until_goodbye [OF s, of "''me''" "[Woken [(0, ServiceResolved (resolved svc ''f''))]]" "[]" 0 "''f''" "[]"
        "[Woken [(0, ServiceResolved (resolved svc ''f'')), (1, ServiceRemoved (stop_advertising ''id''))]]" 1 "[]" 5] s
    by (simp add: sat_sub_def PEER_TTL_SECS_def)
qed

text \<open>C36. Where a daemon that starts listens: the port of the peers' server is the first free one of the 200 from
  the configured one on, the owner's server takes a free port above it within another 200, and only when
  the peers' port is the last one of 16 bits do the owner's ports begin again at 0.\<close>

theorem ports_placed:
  assumes "daemon_start y v c d = (Inr a, d')" "effective_config v c (md_fs d) = Inr cfg"
  shows "se_free_data v (ad_data_port a)
    \<and> unat (cf_http_port cfg) \<le> unat (ad_data_port a) \<and> unat (ad_data_port a) \<le> unat (cf_http_port cfg) + 199
    \<and> (\<forall>p. unat (cf_http_port cfg) \<le> unat p \<and> unat p < unat (ad_data_port a) \<longrightarrow> \<not> se_free_data v p)
    \<and> se_free_admin v (ad_admin_port a)
    \<and> (ad_data_port a \<noteq> 65535 \<longrightarrow> unat (ad_data_port a) < unat (ad_admin_port a)
        \<and> unat (ad_admin_port a) \<le> unat (ad_data_port a) + 200)
    \<and> (ad_data_port a = 65535 \<longrightarrow> unat (ad_admin_port a) \<le> 199)"
proof -
  note b = bind_ports_Inr [OF start_config(6) [OF assms]]
  have 1: "unat (200 - 1 :: u16) = 199" by simp
  have "unat (ad_data_port a + 1) = Suc (unat (ad_data_port a))" if "ad_data_port a \<noteq> 65535"
    using that by (rule unat_next_port)
  then show ?thesis
    using bind_first_free [OF b(1)] bind_first_free [OF b(2)] by (auto simp: 1)
qed

theorem ports_placed_witness:
  "\<exists>a d'. daemon_start demo_admin_sys demo_start_env demo_cli demo_disk = (Inr a, d')
    \<and> unat (ad_data_port a) < unat (ad_admin_port a) \<and> unat (ad_admin_port a) \<le> unat (ad_data_port a) + 200"
proof -
  obtain a d' where s: "daemon_start demo_admin_sys demo_start_env demo_cli demo_disk = (Inr a, d')"
    "ad_data_port a = 37655" using demo_first_start by blast
  have "effective_config demo_start_env demo_cli (md_fs demo_disk) = Inr (config_default (\<lambda>_. None))"
    using demo_config by (simp add: effective_config_def demo_start_env_def demo_cli_def config_file_def demo_disk_def)
  from ports_placed [OF s(1) this] show ?thesis using s by simp
qed

text \<open>C37. A change of the settings survives a restart: after the owner's change is accepted, a daemon started again
  over the same configuration file, where writing then reading that format loses nothing, has the new
  settings, and the other ones are as they were.\<close>

theorem settings_survive:
  assumes "put_settings y m adv chk a = (Inr r, a')" "toml_law (as_toml y) (se_parse v)"
    and "fs_denied (nd_fs (ad_node a)) = []" "config_file (se_cwd v) (cl_config c) = ad_config_path a"
    and "daemon_start y v c (disk_of a' key) = (Inr b, d')"
  shows "ad_advertise_on b = adv \<and> (\<forall>on. chk = Some on \<longrightarrow> ad_check_updates b = on)
    \<and> (chk = None \<longrightarrow> ad_check_updates b = ad_check_updates a)
    \<and> ad_scan_enabled b = ad_scan_enabled a \<and> nd_inbox_max (ad_node b) = nd_inbox_max (ad_node a)
    \<and> ni_name (nd_node (ad_node b)) = ni_name (nd_node (ad_node a))"
proof -
  let ?cfg = "snapshot_config y a'"
  have "effective_config v c (md_fs (disk_of a' key)) =
      Inr (case cl_port c of Some p \<Rightarrow> ?cfg\<lparr>cf_http_port := p\<rparr> | None \<Rightarrow> ?cfg)"
    using settings_load [OF assms(1-3), of "se_var v"] assms(4) by (simp add: effective_config_def disk_of_def)
  note s = start_config [OF assms(5) this]
  obtain t where "ad_advertise_on a' = adv" "ad_check_updates a' = (case chk of None \<Rightarrow> ad_check_updates a | Some v \<Rightarrow> v)"
    "nd_node (ad_node a') = nd_node (ad_node a)" "nd_inbox_max (ad_node a') = nd_inbox_max (ad_node a)" "ad_scan_enabled a' = ad_scan_enabled a"
    using put_settings_Inr [OF assms(1)] by blast
  then have "cf_advertise ?cfg = adv" "cf_check_updates ?cfg = (case chk of None \<Rightarrow> ad_check_updates a | Some v \<Rightarrow> v)"
    "cf_subnet_scan ?cfg = ad_scan_enabled a" "cf_inbox_max_size ?cfg = nd_inbox_max (ad_node a)"
    "cf_node_name ?cfg = ni_name (nd_node (ad_node a))"
    by (simp_all add: snapshot_config_def)
  then show ?thesis using s(1-5) by (auto split: option.splits)
qed

theorem settings_survive_witness:
  "\<exists>a' b d'. daemon_start (demo_admin_sys\<lparr>as_toml := demo_ser\<rparr>) (demo_start_env\<lparr>se_parse := demo_parse\<rparr>) demo_cli
      (disk_of a' (Some demo_key)) = (Inr b, d')
    \<and> \<not> ad_check_updates (demo_admin []) \<and> ad_check_updates b"
proof -
  obtain a' b d' where s: "put_settings (demo_admin_sys\<lparr>as_toml := demo_ser\<rparr>) demo_admin_env False (Some True) (demo_admin [])
      = (Inr (False, True), a')"
    "daemon_start (demo_admin_sys\<lparr>as_toml := demo_ser\<rparr>) (demo_start_env\<lparr>se_parse := demo_parse\<rparr>) demo_cli
      (disk_of a' (Some demo_key)) = (Inr b, d')" using demo_settings by blast
  have "fs_denied (nd_fs (ad_node (demo_admin []))) = []" by (simp add: demo_admin_def demo_fs_def)
  then show ?thesis
    using settings_survive [OF s(1) _ _ _ s(2)] s(2) demo_toml_law
    by (auto simp: demo_start_env_def demo_cli_def config_file_def demo_admin_def)
qed

text \<open>C38. The window finds the daemon: the port the shell reads back from the file the daemon wrote at its start
  is the port of the owner's server, and the requests the shell sends there name a Host that the guard of
  that server allows.\<close>

theorem window_reaches_daemon:
  assumes "daemon_start y v c d = (Inr a, d')" "port_file_written y v c d" "fs_denied (md_fs d) = []"
    and "port = read_admin_port (nd_fs (ad_node a)) (Some (se_cwd v))"
  shows "port = ad_admin_port a
    \<and> local_only_guard (ad_admin_port a) ((\<lambda>_. None)(''host'' := Some (host_header port)))
    \<and> (\<exists>r. http_get_request port p = ''GET '' @ p @ '' HTTP/1.1'' @ crlf @ ''Host: '' @ host_header port @ crlf @ r)
    \<and> (\<exists>r. shutdown_request port = ''POST /v1/admin/shutdown HTTP/1.1'' @ crlf @ ''Host: '' @ host_header port @ crlf @ r)"
  using start_publishes_port [OF assms(1-3)] host_header_allowed
  by (simp add: assms(4) local_only_guard_def http_get_request_def shutdown_request_def)

theorem window_reaches_daemon_witness:
  "\<exists>a d'. daemon_start demo_admin_sys demo_start_env demo_cli demo_disk = (Inr a, d')
    \<and> read_admin_port (nd_fs (ad_node a)) (Some [''C'']) = 37656"
proof -
  obtain a d' where s: "daemon_start demo_admin_sys demo_start_env demo_cli demo_disk = (Inr a, d')"
    "ad_admin_port a = 37656" "port_file_written demo_admin_sys demo_start_env demo_cli demo_disk"
    using demo_first_start by blast
  have "fs_denied (md_fs demo_disk) = []" by (simp add: demo_disk_def demo_fs_def)
  from window_reaches_daemon [OF s(1,3) this refl] show ?thesis
    using s(1,2) by (auto simp: demo_start_env_def)
qed

text \<open>C39. Toasts are shown exactly once and in order. From a primed poller on, let pushes to the event ring of one
  daemon, polls that are answered and polls that are not follow each other in any order, where no answered poll comes
  after more than 100 pushes it has not seen: then the window has been handed one toast for each push
  whose number lies past the poller's position at the start and up to its position now. The next poll that is answered
  takes the position to the last push, if it was not past it already, and the file it leaves is read back as that
  position. (A position that an earlier daemon left counts as it stands, so that the pushes of a new one up to
  that number are not shown, which the next theorem is about.)\<close>

theorem toasts_exactly_once:
  assumes "watched p0 fs0 ps cs p fs" "po_primed p0" "length ps < u64_limit"
  shows "filter (\<lambda>c. c \<noteq> ''web-reload'') cs
      = map toast_lines (drop (unat (po_last p0)) (take (unat (po_last p)) ps))
    \<and> (\<forall>now k t b s. on_command w stop port (toast_lines (now, k, t, b)) s
        = s\<lparr>sh_toasts := toast_show w (sanitize t) (sanitize b) (sh_toasts s)\<rparr>)
    \<and> (\<forall>v. feeds v fs p (push_all ps events_default) \<and> length ps \<le> unat (po_last p) + 100 \<longrightarrow>
        (\<exists>cmds q fs'. poll_tick v fs p = (cmds, Some q, fs') \<and> watched p0 fs0 ps (cs @ cmds) q fs'
          \<and> unat (po_last q) = max (unat (po_last p0)) (length ps)
          \<and> (\<forall>d. pe_dir v = Some d \<and> fs_denied fs = [] \<and> po_last q \<noteq> 0
              \<and> fst (fs_write (pe_io v) (pe_now v) (d @ [TOAST_CURSOR_FILE]) (show_u64 (po_last q)) fs)
              \<longrightarrow> load_cursor fs' (Some d) = po_last q)))"
proof (intro conjI allI impI)
  note inv = watched_shows [OF assms]
  show "filter (\<lambda>c. c \<noteq> ''web-reload'') cs = map toast_lines (drop (unat (po_last p0)) (take (unat (po_last p)) ps))"
    using inv by blast
  have c: "toast_lines (now, k, t, b) = toast_command \<lparr>dv_id = 0, dv_title = t, dv_body = b\<rparr>" for now k t b
    by (simp add: toast_command_def)
  show "on_command w stop port (toast_lines (now, k, t, b)) s
      = s\<lparr>sh_toasts := toast_show w (sanitize t) (sanitize b) (sh_toasts s)\<rparr>" for now k t b s
    unfolding c on_toast_command by simp
  fix v
  assume "feeds v fs p (push_all ps events_default) \<and> length ps \<le> unat (po_last p) + 100"
  then have f: "feeds v fs p (push_all ps events_default)" "length ps \<le> unat (po_last p) + CAP" by (simp_all add: CAP_def)
  obtain i cmds where i: "unat i = max (unat (po_last p)) (length ps)"
    "poll_tick v fs p = (cmds, Some (p\<lparr>po_prev_up := Some True, po_last := i\<rparr>),
      if i \<noteq> 0 then save_cursor (pe_io v) (pe_now v) (pe_dir v) i fs else fs)"
    using answered_tick [OF _ assms(3) f(2,1)] inv by blast
  note w = watched.Answered [OF assms(1) f i(2)]
  show "\<exists>cmds q fs'. poll_tick v fs p = (cmds, Some q, fs') \<and> watched p0 fs0 ps (cs @ cmds) q fs'
      \<and> unat (po_last q) = max (unat (po_last p0)) (length ps)
      \<and> (\<forall>d. pe_dir v = Some d \<and> fs_denied fs = [] \<and> po_last q \<noteq> 0
          \<and> fst (fs_write (pe_io v) (pe_now v) (d @ [TOAST_CURSOR_FILE]) (show_u64 (po_last q)) fs)
          \<longrightarrow> load_cursor fs' (Some d) = po_last q)"
    by (intro exI conjI, rule i(2), rule w) (use i(1) inv cursor_read_back in auto)
qed

theorem toasts_exactly_once_witness:
  "\<exists>cmds q fs'. watched (demo_poller 0) demo_fs [(0, ''k'', ''t'', ''b'')] cmds q fs' \<and> po_last q = 1
    \<and> filter (\<lambda>c. c \<noteq> ''web-reload'') cmds = [''toast-show|t|b'']"
proof -
  let ?ps = "[(0 :: u64, ''k'', ''t'', ''b'')]"
  have w: "watched (demo_poller 0) demo_fs ?ps [] (demo_poller 0) demo_fs"
    using watched.Pushed [OF watched.Opened] by simp
  have s: "sanitize ''t'' = ''t''" "sanitize ''b'' = ''b''" by code_simp+
  have p: "po_primed (demo_poller 0)" "po_last (demo_poller 0) = 0" by (simp_all add: demo_poller_def)
  have l: "length ?ps < u64_limit" "length ?ps \<le> unat (po_last (demo_poller 0)) + 100" by simp_all
  obtain cmds q fs' where "watched (demo_poller 0) demo_fs ?ps ([] @ cmds) q fs'"
    "unat (po_last q) = max (unat (po_last (demo_poller 0))) (length ?ps)"
    using toasts_exactly_once [OF w p(1) l(1), THEN conjunct2, THEN conjunct2, THEN spec, THEN mp,
      OF conjI [OF demo_feeds l(2)]] by blast
  then have q: "watched (demo_poller 0) demo_fs ?ps cmds q fs'" "unat (po_last q) = 1" by (simp_all add: p(2))
  have "filter (\<lambda>c. c \<noteq> ''web-reload'') cmds = [''toast-show|t|b'']"
    using toasts_exactly_once [OF q(1) p(1) l(1), THEN conjunct1] by (simp add: q(2) p(2) s)
  moreover have "po_last q = 1" using q(2) by (simp add: word_unat_eq_iff)
  ultimately show ?thesis using q(1) by blast
qed

text \<open>A poller whose position comes from an earlier daemon shows nothing of a new one until the new one has
  pushed more events than that: event ids start again at 1 with every daemon, the position does not.\<close>

theorem stale_cursor_mutes:
  assumes "po_primed p" "length ps \<le> unat (po_last p)" "feeds v fs p (push_all ps events_default)"
  shows "\<exists>cmds q fs'. poll_tick v fs p = (cmds, Some q, fs') \<and> set cmds \<subseteq> {''web-reload''}
    \<and> po_primed q \<and> po_last q = po_last p"
proof -
  have l: "length ps < u64_limit" using assms(2) unsigned_less [of "po_last p", where ?'a = nat] by simp
  then have r: "ring_ok (push_all ps events_default)" "unat (next_id (push_all ps events_default)) = length ps"
    using push_all_ring [OF ring_ok_default, of ps] by (simp_all add: events_default_def)
  then have "next_id (push_all ps events_default) \<le> po_last p" using assms(2) by (simp add: word_le_nat_alt)
  from stale_tick [OF r(1) this assms(1,3)] show ?thesis using assms(1) by auto
qed

theorem stale_cursor_mutes_witness:
  "\<exists>cmds q fs'. poll_tick (demo_poll (http_head demo_head @ ''[]'')
      (\<lambda>_. Some (map shown_of (since 3 (push_all [(0, ''k'', ''t'', ''b'')] events_default))))) demo_fs (demo_poller 3)
      = (cmds, Some q, fs') \<and> set cmds \<subseteq> {''web-reload''} \<and> po_primed q \<and> po_last q = 3"
  using stale_cursor_mutes [OF _ _ demo_feeds, of 3 "[(0, ''k'', ''t'', ''b'')]" demo_fs] by (simp add: demo_poller_def)

text \<open>A PC that asks for pairing can mute the window: when the name it chose holds the text of the header that
  announces chunks, the poller takes the whole answer for a chunked one, finds nothing in it, and no toast
  is shown, the one of the request included, as long as the event stands in the ring.\<close>

theorem peer_mutes_toasts:
  assumes "json_law json" "ls \<noteq> []" "list_all head_line ls"
    and "pair_request_handler y n b s = (Inr resp, s')" "ps_status resp = Pending"
    and "sy_pair_request y b = Some req" "map_of (pending (nd_pairing s)) (pr_node_id req) = None"
    and "plain_text (pr_name req)" "contains ''transfer-encoding: chunked'' (ascii_lowercase (pr_name req))"
    and "po_last p \<le> next_id (nd_events s)" "unat (next_id (nd_events s)) + 1 < u64_limit"
    and "port = read_admin_port fs (pe_dir v)" "pe_up v port" "pe_parse v [] = None"
    and "pe_net v port (http_get_request port (events_path (po_last p)))
      = Some (http_head ls @ json (since (po_last p) (nd_events s')))"
  shows "\<exists>cmds q. poll_tick v fs p = (cmds, Some q, fs) \<and> set cmds \<subseteq> {''web-reload''} \<and> po_last q = po_last p"
proof -
  obtain k body where e: "nd_events s' = push_all [(en_clk n 3, k, pr_name req @ '' wants access to your files'', body)] (nd_events s)"
    using pair_request_event [OF assms(4-7)] by blast
  obtain ev where ev: "ev \<in> set (since (po_last p) (nd_events s'))" "ev_title ev = pr_name req @ '' wants access to your files''"
    using new_event_seen [OF assms(11,10)] unfolding e by blast
  have "plain_text (ev_title ev)" using assms(8) by (simp add: ev(2) plain_text_def)
  moreover have "contains MARKER (ascii_lowercase (ev_title ev))"
    using assms(9) by (simp add: ev(2) MARKER_def contains_in_head)
  ultimately show ?thesis
    using marker_tick [OF assms(1-3) ev(1)] assms(12-15) by auto
qed

theorem peer_mutes_toasts_witness:
  "\<exists>v cmds q. poll_tick v demo_fs (demo_poller 0) = (cmds, Some q, demo_fs) \<and> set cmds \<subseteq> {''web-reload''} \<and> po_last q = 0"
proof -
  obtain resp s' where s: "pair_request_handler marked_sys demo_env [] ((demo_node [])\<lparr>nd_grants := demo_store []\<rparr>) = (Inr resp, s')"
    "ps_status resp = Pending" using marked_asks by blast
  let ?v = "demo_poll (http_head demo_head @ demo_event_json (since 0 (nd_events s'))) (\<lambda>t. None)"
  show ?thesis
    using peer_mutes_toasts [OF demo_json_law demo_head_ok s, of marked_request "demo_poller 0" _ demo_fs ?v] marked_name
    by (auto simp: marked_sys_def demo_poll_def demo_poller_def MARKER_def pairing_default_def events_default_def)
qed

section \<open>Updates\<close>



end
